(* ===== verification/Prelude.thy ===== *)
theory Prelude
  imports Complex_Main "HOL-Library.Word"
begin

text \<open>
  The vocabulary shared by every component.

  \<^item> Machine integers: \<open>u8\<close> to \<open>u64\<close> as words, with Rust's saturating and checked operations.
  \<^item> Effects: a fallible operation with state is a function from a state to a result and a new
    state. The result is a sum, \<open>Inl\<close> for Rust's \<open>Err\<close>, \<open>Inr\<close> for \<open>Ok\<close>; the state changed before
    an error stays changed, as in the code, where \<open>?\<close> returns early and undoes nothing.
\<close>

named_theorems eff_simps \<open>unfolding of effectful sequences\<close>
named_theorems u64_simps \<open>machine arithmetic read through unat\<close>

type_synonym u8 = "8 word"
type_synonym u16 = "16 word"
type_synonym u32 = "32 word"
type_synonym u64 = "64 word"
type_synonym byte = "8 word"

text \<open>A \<open>Duration\<close> is its number of nanoseconds; Rust orders durations the same way.\<close>

type_synonym duration = nat

abbreviation millis :: "nat \<Rightarrow> duration" where
  "millis n \<equiv> n * 1000000"

abbreviation secs :: "nat \<Rightarrow> duration" where
  "secs n \<equiv> n * 1000000000"

section \<open>Machine arithmetic\<close>

definition sat_add :: "'a::len word \<Rightarrow> 'a word \<Rightarrow> 'a word" where
  "sat_add a b = (if unat a + unat b < 2 ^ LENGTH('a) then a + b else - 1)"

definition sat_mul :: "'a::len word \<Rightarrow> 'a word \<Rightarrow> 'a word" where
  "sat_mul a b = (if unat a * unat b < 2 ^ LENGTH('a) then a * b else - 1)"

definition sat_sub :: "'a::len word \<Rightarrow> 'a word \<Rightarrow> 'a word" where
  "sat_sub a b = (if a < b then 0 else a - b)"

definition checked_add :: "'a::len word \<Rightarrow> 'a word \<Rightarrow> 'a word option" where
  "checked_add a b = (if unat a + unat b < 2 ^ LENGTH('a) then Some (a + b) else None)"

lemma unat_max_value [u64_simps]: "unat (- 1 :: 'a::len word) = 2 ^ LENGTH('a) - 1"
  by (simp add: unsigned_minus_1_eq_mask mask_eq_exp_minus_1)

lemma unat_sat_add [u64_simps]:
  "unat (sat_add a b) = min (unat a + unat b) (2 ^ LENGTH('a) - 1)" for a b :: "'a::len word"
  by (auto simp: sat_add_def unat_word_ariths unat_max_value)

lemma unat_sat_mul [u64_simps]:
  "unat (sat_mul a b) = min (unat a * unat b) (2 ^ LENGTH('a) - 1)" for a b :: "'a::len word"
proof (cases "unat a * unat b < 2 ^ LENGTH('a)")
  case True
  then show ?thesis by (simp add: sat_mul_def unat_word_ariths)
next
  case False
  then have "sat_mul a b = - 1" by (simp only: sat_mul_def if_False)
  with False show ?thesis by (simp only: unat_max_value)
qed

lemma unat_sat_sub [u64_simps]: "unat (sat_sub a b) = unat a - unat b"
  by (simp add: sat_sub_def unat_sub word_le_nat_alt word_less_nat_alt)

lemma checked_add_eq_Some [u64_simps]:
  "checked_add a b = Some c \<longleftrightarrow> unat a + unat b < 2 ^ LENGTH('a) \<and> c = a + b"
  for a b :: "'a::len word"
  by (auto simp: checked_add_def)

lemma unat_add_no_overflow:
  "unat a + unat b < 2 ^ LENGTH('a) \<Longrightarrow> unat (a + b) = unat a + unat b" for a b :: "'a::len word"
  by (simp add: unat_word_ariths)

lemma unat_diff_le: "b \<le> a \<Longrightarrow> unat (a - b) = unat a - unat b" for a b :: "'a::len word"
  by (simp add: unat_sub)

section \<open>Fallible operations with state\<close>

type_synonym ('s, 'e, 'a) eff = "'s \<Rightarrow> ('e + 'a) \<times> 's"

definition okE :: "'a \<Rightarrow> ('s, 'e, 'a) eff" where
  "okE a s = (Inr a, s)"

definition errE :: "'e \<Rightarrow> ('s, 'e, 'a) eff" where
  "errE e s = (Inl e, s)"

definition bindE :: "('s, 'e, 'a) eff \<Rightarrow> ('a \<Rightarrow> ('s, 'e, 'b) eff) \<Rightarrow> ('s, 'e, 'b) eff" where
  "bindE m f s = (case m s of (Inl e, s') \<Rightarrow> (Inl e, s') | (Inr a, s') \<Rightarrow> f a s')"

definition seqE :: "('s, 'e, unit) eff \<Rightarrow> ('s, 'e, 'b) eff \<Rightarrow> ('s, 'e, 'b) eff" where
  "seqE m n = bindE m (\<lambda>_. n)"

text \<open>\<open>map_err\<close>: the error converted by \<open>?\<close> or \<open>map_err\<close>, the value and the state untouched.\<close>

definition map_errE :: "('e \<Rightarrow> 'f) \<Rightarrow> ('s, 'e, 'a) eff \<Rightarrow> ('s, 'f, 'a) eff" where
  "map_errE h m s = (case m s of (Inl e, s') \<Rightarrow> (Inl (h e), s') | (Inr a, s') \<Rightarrow> (Inr a, s'))"

lemma okE_apply [simp, eff_simps]: "okE a s = (Inr a, s)"
  by (simp add: okE_def)

lemma errE_apply [simp, eff_simps]: "errE e s = (Inl e, s)"
  by (simp add: errE_def)

lemma bindE_okE [simp, eff_simps]: "bindE (okE a) f = f a"
  by (rule ext) (simp add: bindE_def)

lemma bindE_errE [simp, eff_simps]: "bindE (errE e) f = errE e"
  by (rule ext) (simp add: bindE_def)

lemma bindE_Inl [eff_simps]: "m s = (Inl e, s') \<Longrightarrow> bindE m f s = (Inl e, s')"
  by (simp add: bindE_def)

lemma bindE_Inr [eff_simps]: "m s = (Inr a, s') \<Longrightarrow> bindE m f s = f a s'"
  by (simp add: bindE_def)

lemma bindE_assoc: "bindE (bindE m f) g = bindE m (\<lambda>a. bindE (f a) g)"
  by (rule ext) (simp add: bindE_def split: prod.split sum.split)

lemma bindE_Inr_iff:
  "bindE m f s = (Inr b, t) \<longleftrightarrow> (\<exists>a u. m s = (Inr a, u) \<and> f a u = (Inr b, t))"
  by (auto simp: bindE_def split: prod.split sum.split)

lemma bindE_Inl_iff:
  "bindE m f s = (Inl e, t) \<longleftrightarrow>
     m s = (Inl e, t) \<or> (\<exists>a u. m s = (Inr a, u) \<and> f a u = (Inl e, t))"
  by (auto simp: bindE_def split: prod.split sum.split)

lemma seqE_Inl [eff_simps]: "m s = (Inl e, s') \<Longrightarrow> seqE m n s = (Inl e, s')"
  by (simp add: seqE_def bindE_def)

lemma seqE_Inr [eff_simps]: "m s = (Inr a, s') \<Longrightarrow> seqE m n s = n s'"
  by (simp add: seqE_def bindE_def)

lemma seqE_Inr_iff:
  "seqE m n s = (Inr b, t) \<longleftrightarrow> (\<exists>u. m s = (Inr (), u) \<and> n u = (Inr b, t))"
  by (simp add: seqE_def bindE_Inr_iff)

lemma seqE_Inl_iff:
  "seqE m n s = (Inl e, t) \<longleftrightarrow>
     m s = (Inl e, t) \<or> (\<exists>u. m s = (Inr (), u) \<and> n u = (Inl e, t))"
  by (simp add: seqE_def bindE_Inl_iff)

lemma map_errE_Inr_iff [simp]: "map_errE h m s = (Inr a, t) \<longleftrightarrow> m s = (Inr a, t)"
  by (auto simp: map_errE_def split: prod.split sum.split)

lemma map_errE_Inl_iff: "map_errE h m s = (Inl e, t) \<longleftrightarrow> (\<exists>d. m s = (Inl d, t) \<and> e = h d)"
  by (auto simp: map_errE_def split: prod.split sum.split)

lemmas eff_iffs = bindE_Inr_iff bindE_Inl_iff seqE_Inr_iff seqE_Inl_iff map_errE_Inl_iff

end
