(* ===== verification/Proto_Ids.thy ===== *)
theory Proto_Ids
  imports Prelude "HOL-Library.List_Lexorder" "HOL-Library.Char_ord"
begin

text \<open>
  The identifiers of \<open>crates/proto/src/ids.rs\<close>, each a type of its own. Every one of them derives
  its order in the code, so the types that are compared or used as keys are instances of \<open>linorder\<close>:
  a UUID compares as its 128-bit big-endian number, a string byte by byte. Printing and parsing a
  UUID belong to the \<open>uuid\<close> crate and are parameters where they are used.
\<close>

datatype vm_id = VmId (as_uuid: "128 word")

datatype host_id = HostId (host_str: string)

datatype turn_id = TurnId (turn_get: u64)

datatype guestd_version = GuestdVersion (version_str: string)

datatype timestamp = Timestamp (as_nanos: u64)

definition turn_FIRST :: turn_id where
  "turn_FIRST = TurnId 0"

definition turn_next :: "turn_id \<Rightarrow> turn_id" where
  "turn_next t = TurnId (sat_add (turn_get t) 1)"

definition from_nanos :: "u64 \<Rightarrow> timestamp" where
  "from_nanos n = Timestamp n"

definition since_epoch :: "timestamp \<Rightarrow> duration" where
  "since_epoch t = unat (as_nanos t)"

section \<open>Orders\<close>

instantiation vm_id :: linorder
begin

definition less_eq_vm_id :: "vm_id \<Rightarrow> vm_id \<Rightarrow> bool" where
  "less_eq_vm_id a b \<longleftrightarrow> as_uuid a \<le> as_uuid b"

definition less_vm_id :: "vm_id \<Rightarrow> vm_id \<Rightarrow> bool" where
  "less_vm_id a b \<longleftrightarrow> as_uuid a < as_uuid b"

instance
  by standard (auto simp: less_eq_vm_id_def less_vm_id_def vm_id.expand)

end

instantiation host_id :: linorder
begin

definition less_eq_host_id :: "host_id \<Rightarrow> host_id \<Rightarrow> bool" where
  "less_eq_host_id a b \<longleftrightarrow> host_str a \<le> host_str b"

definition less_host_id :: "host_id \<Rightarrow> host_id \<Rightarrow> bool" where
  "less_host_id a b \<longleftrightarrow> host_str a < host_str b"

instance
  by standard (auto simp: less_eq_host_id_def less_host_id_def host_id.expand)

end

instantiation turn_id :: linorder
begin

definition less_eq_turn_id :: "turn_id \<Rightarrow> turn_id \<Rightarrow> bool" where
  "less_eq_turn_id a b \<longleftrightarrow> turn_get a \<le> turn_get b"

definition less_turn_id :: "turn_id \<Rightarrow> turn_id \<Rightarrow> bool" where
  "less_turn_id a b \<longleftrightarrow> turn_get a < turn_get b"

instance
  by standard (auto simp: less_eq_turn_id_def less_turn_id_def turn_id.expand)

end

section \<open>The turn counter\<close>

text \<open>The number of a turn, as a natural number.\<close>

definition turn_no :: "turn_id \<Rightarrow> nat" where
  "turn_no t = unat (turn_get t)"

lemma turn_no_inject: "turn_no a = turn_no b \<longleftrightarrow> a = b"
  by (cases a; cases b) (simp add: turn_no_def word_unat_eq_iff)

lemma turn_less_iff: "a < b \<longleftrightarrow> turn_no a < turn_no b" for a b :: turn_id
  by (simp add: less_turn_id_def turn_no_def word_less_nat_alt)

lemma turn_no_FIRST [simp]: "turn_no turn_FIRST = 0"
  by (simp add: turn_no_def turn_FIRST_def)

lemma turn_no_next: "turn_no (turn_next t) = min (turn_no t + 1) (2 ^ 64 - 1)"
  by (simp add: turn_no_def turn_next_def unat_sat_add)

lemma turn_no_TurnId [simp]: "turn_no (TurnId n) = unat n"
  by (simp add: turn_no_def)

text \<open>Below the top of the counter the next turn is a later turn; at the top it is the same one.\<close>

lemma turn_next_greater: "turn_no t < 2 ^ 64 - 1 \<Longrightarrow> t < turn_next t"
  by (simp add: turn_less_iff turn_no_next)

lemma turn_next_stuck: "turn_no t = 2 ^ 64 - 1 \<Longrightarrow> turn_next t = t"
  by (simp add: turn_no_next flip: turn_no_inject)

end
