(* ===== verification/Btree_Map.thy ===== *)
theory Btree_Map
  imports Prelude
begin

text \<open>
  Rust's \<open>BTreeMap\<close> as a sorted association list: iteration is in key order, as the code relies on.
  The locale \<open>ordered_map\<close> states what a client may use of such a map; it is interpreted on the
  operations below.
\<close>

type_synonym ('k, 'v) btree = "('k \<times> 'v) list"

definition bt_ok :: "('k::linorder, 'v) btree \<Rightarrow> bool" where
  "bt_ok m \<longleftrightarrow> sorted_wrt (<) (map fst m)"

definition bt_get :: "('k::linorder, 'v) btree \<Rightarrow> 'k \<Rightarrow> 'v option" where
  "bt_get m k = map_of m k"

fun bt_insert :: "'k::linorder \<Rightarrow> 'v \<Rightarrow> ('k, 'v) btree \<Rightarrow> ('k, 'v) btree" where
  "bt_insert k v [] = [(k, v)]"
| "bt_insert k v ((k', v') # m) =
     (if k < k' then (k, v) # (k', v') # m
      else if k = k' then (k, v) # m
      else (k', v') # bt_insert k v m)"

definition bt_remove :: "'k::linorder \<Rightarrow> ('k, 'v) btree \<Rightarrow> ('k, 'v) btree" where
  "bt_remove k m = filter (\<lambda>e. fst e \<noteq> k) m"

text \<open>Collecting an iterator of pairs: a later pair replaces an earlier one with its key.\<close>

definition bt_of_list :: "('k::linorder \<times> 'v) list \<Rightarrow> ('k, 'v) btree" where
  "bt_of_list xs = foldl (\<lambda>m e. bt_insert (fst e) (snd e) m) [] xs"

lemma bt_keys_insert: "fst ` set (bt_insert k v m) = insert k (fst ` set m)"
  by (induction k v m rule: bt_insert.induct) auto

lemma bt_ok_Nil [simp]: "bt_ok []"
  by (simp add: bt_ok_def)

lemma bt_ok_insert: "bt_ok m \<Longrightarrow> bt_ok (bt_insert k v m)"
proof (induction k v m rule: bt_insert.induct)
  case (2 k v k' v' m)
  have "set (map fst (bt_insert k v m)) = insert k (set (map fst m))"
    using bt_keys_insert [of k v m] by simp
  with 2 show ?case by (auto simp: bt_ok_def)
qed (simp add: bt_ok_def)

lemma bt_ok_remove: "bt_ok m \<Longrightarrow> bt_ok (bt_remove k m)"
  by (induction m) (auto simp: bt_ok_def bt_remove_def)

lemma bt_get_insert: "bt_get (bt_insert k v m) k' = (if k' = k then Some v else bt_get m k')"
  by (induction k v m rule: bt_insert.induct) (auto simp: bt_get_def)

lemma bt_get_remove: "bt_get (bt_remove k m) k' = (if k' = k then None else bt_get m k')"
  by (induction m) (auto simp: bt_get_def bt_remove_def)

lemma bt_ok_distinct: "bt_ok m \<Longrightarrow> distinct (map fst m)"
  by (simp add: bt_ok_def strict_sorted_iff)

section \<open>The map contract\<close>

locale ordered_map =
  fixes ok :: "'m \<Rightarrow> bool"
    and emp :: 'm
    and get :: "'m \<Rightarrow> 'k::linorder \<Rightarrow> 'v option"
    and put :: "'k \<Rightarrow> 'v \<Rightarrow> 'm \<Rightarrow> 'm"
    and del :: "'k \<Rightarrow> 'm \<Rightarrow> 'm"
    and entries :: "'m \<Rightarrow> ('k \<times> 'v) list"
  assumes ok_emp: "ok emp"
    and ok_put: "ok m \<Longrightarrow> ok (put k v m)"
    and ok_del: "ok m \<Longrightarrow> ok (del k m)"
    and get_emp: "get emp k = None"
    and get_put: "get (put k v m) k' = (if k' = k then Some v else get m k')"
    and get_del: "get (del k m) k' = (if k' = k then None else get m k')"
    and entries_get: "ok m \<Longrightarrow> (k, v) \<in> set (entries m) \<longleftrightarrow> get m k = Some v"
    and entries_sorted: "ok m \<Longrightarrow> sorted_wrt (<) (map fst (entries m))"
begin

lemma entries_ext:
  assumes "ok m" "ok n" "\<And>k. get m k = get n k"
  shows "entries m = entries n"
proof -
  have ent: "set (entries m) = set (entries n)"
    using assms entries_get by (auto intro!: set_eqI)
  note sm = entries_sorted [OF assms(1)] and sn = entries_sorted [OF assms(2)]
  have "inj_on fst (set (entries m))" using sm by (simp add: strict_sorted_iff distinct_map)
  with ent have "inj_on fst (set (entries m) \<union> set (entries n))" by simp
  then show ?thesis
    using sm sn ent by (intro map_sorted_distinct_set_unique [where f = fst]) (auto simp: strict_sorted_iff)
qed

lemma put_del_commute: "ok m \<Longrightarrow> k \<noteq> k' \<Longrightarrow> entries (put k v (del k' m)) = entries (del k' (put k v m))"
  by (rule entries_ext) (auto simp: ok_put ok_del get_put get_del)

lemma del_put: "ok m \<Longrightarrow> get m k = None \<Longrightarrow> entries (del k (put k v m)) = entries m"
  by (rule entries_ext) (auto simp: ok_put ok_del get_put get_del)

lemma put_put: "ok m \<Longrightarrow> entries (put k w (put k v m)) = entries (put k w m)"
  by (rule entries_ext) (auto simp: ok_put get_put)

lemma entries_distinct: "ok m \<Longrightarrow> distinct (map fst (entries m))"
  using entries_sorted by (simp add: strict_sorted_iff)

end

interpretation bt: ordered_map bt_ok "[]" bt_get bt_insert bt_remove "\<lambda>m. m"
proof unfold_locales
  show "(k, v) \<in> set m \<longleftrightarrow> bt_get m k = Some v"
    if "bt_ok m" for m :: "('a::linorder \<times> 'b) list" and k v
    using bt_ok_distinct [OF that] by (simp add: bt_get_def)
  show "sorted_wrt (<) (map fst m)" if "bt_ok m" for m :: "('a::linorder \<times> 'b) list"
    using that by (simp add: bt_ok_def)
  show "bt_get [] k = (None :: 'b option)" for k :: "'a::linorder" by (simp add: bt_get_def)
qed (simp_all add: bt_ok_insert bt_ok_remove bt_get_insert bt_get_remove)

lemma bt_ok_of_list: "bt_ok (bt_of_list xs)"
  unfolding bt_of_list_def
  by (induction xs rule: rev_induct) (auto simp: bt_ok_insert)

end
