(* ===== verification/Proto_Messages.thy ===== *)
theory Proto_Messages
  imports Proto_Ids Btree_Map
begin

text \<open>
  The two message types of \<open>crates/proto/src/vsock.rs\<close>, one per direction, and the millisecond
  encoding of \<open>crates/proto/src/wire.rs\<close>. The constructors both directions have (\<open>Ping\<close>, \<open>Pong\<close>)
  carry the direction in their name. The JSON text of a message is made by \<open>serde_json\<close>, which is a
  parameter of the components that frame messages.
\<close>

definition PROTOCOL_VERSION :: string where "PROTOCOL_VERSION = ''v1-draft''"
definition GUEST_VSOCK_PORT :: u32 where "GUEST_VSOCK_PORT = 5252"
definition GUEST_DRAIN_TCP_PORT :: u16 where "GUEST_DRAIN_TCP_PORT = 5252"

datatype guest_to_host =
    Hello vm_id guestd_version
  | TurnStarted turn_id timestamp
  | TurnEnded turn_id timestamp
  | DrainAck "turn_id option"
  | Resumed timestamp
  | G_Ping
  | G_Pong

datatype host_to_guest =
    Secrets "(string, string) btree"
  | DrainRequest duration
  | DrainCancel
  | RunTurn turn_id
  | H_Ping
  | H_Pong

section \<open>Durations on the wire\<close>

definition millis_serialize :: "duration \<Rightarrow> u64" where
  "millis_serialize d = of_nat (min (d div millis 1) (2 ^ 64 - 1))"

definition millis_deserialize :: "u64 \<Rightarrow> duration" where
  "millis_deserialize ms = millis (unat ms)"

lemma unat_millis_serialize: "unat (millis_serialize d) = min (d div millis 1) (2 ^ 64 - 1)"
  by (simp add: millis_serialize_def unsigned_of_nat take_bit_eq_mod)

lemma millis_serialize_deserialize [simp]: "millis_serialize (millis_deserialize ms) = ms"
proof -
  have "unat ms < 2 ^ LENGTH(64)" by (rule unsigned_less)
  then have "unat (millis_serialize (millis_deserialize ms)) = unat ms"
    by (simp add: unat_millis_serialize millis_deserialize_def)
  then show ?thesis by (simp only: word_unat_eq_iff)
qed

text \<open>
  A deadline that crosses the wire keeps its whole milliseconds: what the guest reads is never
  longer than what the host asked for, the loss is below a millisecond until the 64-bit counter is
  full, and from there on the value is clipped to the largest one instead of wrapping.
\<close>

lemma deadline_over_the_wire:
  "millis_deserialize (millis_serialize d) \<le> d
   \<and> millis_deserialize (millis_serialize d)
       = (if d < millis (2 ^ 64) then d - d mod millis 1 else millis (2 ^ 64 - 1))"
proof -
  have "millis (d div millis 1) = d - d mod millis 1"
    by (simp add: minus_mod_eq_div_mult [symmetric])
  moreover have "d < millis (2 ^ 64) \<longleftrightarrow> d div millis 1 \<le> 2 ^ 64 - 1"
    by (simp add: div_less_iff_less_mult Suc_le_eq flip: less_Suc_eq_le)
  ultimately show ?thesis
    by (auto simp: millis_deserialize_def unat_millis_serialize min_def not_le)
qed

end
