(* ===== verification/Byte_Strings.thy ===== *)
theory Byte_Strings
  imports Prelude
begin

text \<open>
  Byte strings and text.

  A Rust \<open>String\<close> is a list of bytes that is valid UTF-8; here it is a \<open>string\<close>, whose characters are
  bytes. Raw buffers are lists of 8-bit words. The theory holds the standard library's conversions the
  components share: big-endian integers, UTF-8 validation, splitting at an ASCII character, decimal
  and hexadecimal printing and parsing with the accepted forms of \<open>FromStr\<close> for unsigned integers
  (an optional plus sign, at least one digit, no overflow).
\<close>

named_theorems text_simps \<open>evaluation of the text functions\<close>

section \<open>Bytes and characters\<close>

definition byte_of_char :: "char \<Rightarrow> byte" where
  "byte_of_char c = of_char c"

definition char_of_byte :: "byte \<Rightarrow> char" where
  "char_of_byte b = char_of (unat b)"

abbreviation bytes_of_string :: "string \<Rightarrow> byte list" where
  "bytes_of_string \<equiv> map byte_of_char"

abbreviation string_of_bytes :: "byte list \<Rightarrow> string" where
  "string_of_bytes \<equiv> map char_of_byte"

lemma unat_byte_less [simp]: "unat (b :: byte) < 256"
proof -
  have "unat b < 2 ^ LENGTH(8)" by (rule unsigned_less)
  then show ?thesis by simp
qed

lemma of_char_less [simp]: "(of_char c :: nat) < 256"
  using range_nat_of_char by (metis atLeastLessThan_iff rangeI)

lemma unat_byte_of_nat [simp]: "unat (of_nat n :: byte) = n mod 256"
  by (simp add: unsigned_of_nat take_bit_eq_mod)

lemma byte_of_char_of_byte [simp]: "byte_of_char (char_of_byte b) = b"
proof -
  have "(of_char (char_of (unat b) :: char) :: nat) = unat b" by simp
  then have "(of_char (char_of (unat b) :: char) :: byte) = of_nat (unat b)"
    by (metis of_nat_of_char)
  then show ?thesis by (simp add: byte_of_char_def char_of_byte_def)
qed

lemma char_of_byte_of_char [simp]: "char_of_byte (byte_of_char c) = c"
proof -
  have "(of_char c :: byte) = of_nat (of_char c)" by (simp only: of_nat_of_char)
  then have "unat (of_char c :: byte) = of_char c" by (simp only: unat_byte_of_nat) simp
  then show ?thesis by (simp add: byte_of_char_def char_of_byte_def)
qed

lemma bytes_of_string_of_bytes [simp]: "bytes_of_string (string_of_bytes bs) = bs"
  by (simp add: comp_def)

lemma string_of_bytes_of_string [simp]: "string_of_bytes (bytes_of_string s) = s"
  by (simp add: comp_def)

lemma char_byte_comp [simp]: "char_of_byte \<circ> byte_of_char = id" "byte_of_char \<circ> char_of_byte = id"
  by (simp_all add: fun_eq_iff)

lemma bytes_of_string_inject: "bytes_of_string s = bytes_of_string t \<longleftrightarrow> s = t"
  by (metis string_of_bytes_of_string)

section \<open>Big-endian integers\<close>

fun be_bytes :: "nat \<Rightarrow> nat \<Rightarrow> byte list" where
  "be_bytes 0 n = []"
| "be_bytes (Suc k) n = be_bytes k (n div 256) @ [of_nat (n mod 256)]"

definition be_nat :: "byte list \<Rightarrow> nat" where
  "be_nat bs = foldl (\<lambda>a b. a * 256 + unat b) 0 bs"

lemma be_nat_Nil [simp]: "be_nat [] = 0"
  by (simp add: be_nat_def)

lemma be_nat_snoc [simp]: "be_nat (bs @ [b]) = be_nat bs * 256 + unat b"
  by (simp add: be_nat_def)

lemma length_be_bytes [simp]: "length (be_bytes k n) = k"
  by (induction k arbitrary: n) auto

lemma be_nat_be_bytes: "n < 256 ^ k \<Longrightarrow> be_nat (be_bytes k n) = n"
proof (induction k arbitrary: n)
  case 0
  then show ?case by simp
next
  case (Suc k)
  then have "n div 256 < 256 ^ k" by (simp add: less_mult_imp_div_less mult.commute)
  then have "be_nat (be_bytes k (n div 256)) = n div 256" by (rule Suc.IH)
  then show ?case by simp
qed

lemma be_nat_less: "be_nat bs < 256 ^ length bs"
proof (induction bs rule: rev_induct)
  case Nil
  then show ?case by simp
next
  case (snoc b bs)
  have "unat b < 256" by simp
  with snoc have "be_nat bs * 256 + unat b < 256 ^ length bs * 256" by linarith
  then show ?case by (simp add: mult.commute)
qed

lemma be_bytes_be_nat: "be_bytes (length bs) (be_nat bs) = bs"
proof (induction bs rule: rev_induct)
  case Nil
  then show ?case by simp
next
  case (snoc b bs)
  have "unat b < 256" by simp
  with snoc show ?case by simp
qed

section \<open>Splitting and trimming\<close>

fun split_on :: "'a \<Rightarrow> 'a list \<Rightarrow> 'a list list" where
  "split_on c [] = [[]]"
| "split_on c (x # xs) =
     (if x = c then [] # split_on c xs
      else case split_on c xs of [] \<Rightarrow> [[x]] | p # ps \<Rightarrow> (x # p) # ps)"

fun join_with :: "'a \<Rightarrow> 'a list list \<Rightarrow> 'a list" where
  "join_with c [] = []"
| "join_with c [p] = p"
| "join_with c (p # ps) = p @ c # join_with c ps"

lemma split_on_not_Nil [simp]: "split_on c xs \<noteq> []"
  by (induction xs) (auto split: list.split)

lemma split_on_no_sep: "p \<in> set (split_on c xs) \<Longrightarrow> c \<notin> set p"
proof (induction xs arbitrary: p)
  case (Cons x xs)
  then show ?case by (cases "split_on c xs") (auto split: if_splits)
qed simp

lemma split_on_absent: "c \<notin> set xs \<Longrightarrow> split_on c xs = [xs]"
  by (induction xs) auto

lemma split_on_append_sep: "c \<notin> set p \<Longrightarrow> split_on c (p @ c # xs) = p # split_on c xs"
  by (induction p) auto

lemma split_join:
  assumes "ps \<noteq> []" and "\<forall>p \<in> set ps. c \<notin> set p"
  shows "split_on c (join_with c ps) = ps"
  using assms by (induction c ps rule: join_with.induct) (auto simp: split_on_absent split_on_append_sep)

lemma join_split: "join_with c (split_on c xs) = xs"
proof (induction xs)
  case (Cons x xs)
  obtain p ps where "split_on c xs = p # ps" by (cases "split_on c xs") auto
  with Cons show ?case by (cases ps) auto
qed simp

lemma length_split_on: "length (split_on c xs) = Suc (length (filter (\<lambda>x. x = c) xs))"
  by (induction xs) (auto split: list.split)

section \<open>Numbers as text\<close>

definition dec_digit :: "nat \<Rightarrow> char" where
  "dec_digit d = char_of (48 + d)"

definition is_dec_digit :: "char \<Rightarrow> bool" where
  "is_dec_digit c \<longleftrightarrow> 48 \<le> (of_char c :: nat) \<and> (of_char c :: nat) \<le> 57"

definition dec_value :: "char \<Rightarrow> nat" where
  "dec_value c = of_char c - 48"

fun show_nat :: "nat \<Rightarrow> string" where
  "show_nat n = (if n < 10 then [dec_digit n] else show_nat (n div 10) @ [dec_digit (n mod 10)])"

declare show_nat.simps [simp del]

definition dec_fold :: "string \<Rightarrow> nat" where
  "dec_fold s = foldl (\<lambda>a c. a * 10 + dec_value c) 0 s"

text \<open>\<open>FromStr\<close> of an unsigned integer type with largest value \<open>mx\<close>.\<close>

definition parse_uint :: "nat \<Rightarrow> string \<Rightarrow> nat option" where
  "parse_uint mx s =
     (let ds = (case s of c # cs \<Rightarrow> (if c = CHR ''+'' then cs else s) | [] \<Rightarrow> s)
      in if ds = [] \<or> \<not> list_all is_dec_digit ds \<or> mx < dec_fold ds then None
         else Some (dec_fold ds))"

lemma of_char_dec_digit: "d < 10 \<Longrightarrow> (of_char (dec_digit d) :: nat) = 48 + d"
  by (simp add: dec_digit_def)

lemma dec_digit_props [simp]:
  assumes "d < 10"
  shows "is_dec_digit (dec_digit d)" and "dec_value (dec_digit d) = d"
  using assms by (simp_all add: is_dec_digit_def dec_value_def of_char_dec_digit)

lemma show_nat_digits: "list_all is_dec_digit (show_nat n)"
  by (induction n rule: show_nat.induct) (subst show_nat.simps, auto)

lemma show_nat_not_Nil [simp]: "show_nat n \<noteq> []"
  by (subst show_nat.simps) auto

lemma dec_fold_show_nat: "dec_fold (show_nat n) = n"
proof (induction n rule: show_nat.induct)
  case (1 n)
  show ?case
  proof (cases "n < 10")
    case True
    then show ?thesis by (subst show_nat.simps) (simp add: dec_fold_def)
  next
    case False
    with 1 have "dec_fold (show_nat (n div 10)) = n div 10" by simp
    moreover have "show_nat n = show_nat (n div 10) @ [dec_digit (n mod 10)]"
      using False by (subst show_nat.simps) simp
    ultimately show ?thesis by (simp add: dec_fold_def)
  qed
qed

lemma dec_digit_neq: "is_dec_digit c \<Longrightarrow> c \<noteq> CHR ''+'' \<and> c \<noteq> CHR ''.'' \<and> c \<noteq> CHR '':''"
  by (auto simp: is_dec_digit_def)

lemma show_nat_chars: "c \<in> set (show_nat n) \<Longrightarrow> is_dec_digit c"
  using show_nat_digits [of n] by (auto simp: list_all_iff)

lemma parse_uint_show_nat: "parse_uint mx (show_nat n) = (if n \<le> mx then Some n else None)"
proof -
  obtain c cs where s: "show_nat n = c # cs" by (cases "show_nat n") auto
  then have "c \<noteq> CHR ''+''" using show_nat_chars [of c n] dec_digit_neq by auto
  then show ?thesis
    using show_nat_digits [of n] dec_fold_show_nat [of n] s
    by (auto simp: parse_uint_def Let_def not_less)
qed

lemma show_nat_inject: "show_nat m = show_nat n \<longleftrightarrow> m = n"
  by (metis dec_fold_show_nat)

lemma parse_uint_le: "parse_uint mx s = Some n \<Longrightarrow> n \<le> mx"
  by (auto simp: parse_uint_def Let_def split: if_splits)

section \<open>Hexadecimal\<close>

definition hex_digit :: "nat \<Rightarrow> char" where
  "hex_digit d = (if d < 10 then char_of (48 + d) else char_of (87 + d))"

definition hex_value :: "char \<Rightarrow> nat option" where
  "hex_value c = (let n = of_char c :: nat in
     if 48 \<le> n \<and> n \<le> 57 then Some (n - 48)
     else if 97 \<le> n \<and> n \<le> 102 then Some (n - 87)
     else if 65 \<le> n \<and> n \<le> 70 then Some (n - 55) else None)"

text \<open>\<open>{:02x}\<close> of a byte.\<close>

definition show_hex2 :: "nat \<Rightarrow> string" where
  "show_hex2 n = [hex_digit (n div 16), hex_digit (n mod 16)]"

fun show_hex :: "nat \<Rightarrow> string" where
  "show_hex n = (if n < 16 then [hex_digit n] else show_hex (n div 16) @ [hex_digit (n mod 16)])"

declare show_hex.simps [simp del]

definition pad_left :: "nat \<Rightarrow> char \<Rightarrow> string \<Rightarrow> string" where
  "pad_left k c s = replicate (k - length s) c @ s"

text \<open>\<open>from_str_radix(s, 16)\<close> of an unsigned type with largest value \<open>mx\<close>.\<close>

fun hex_fold :: "nat \<Rightarrow> string \<Rightarrow> nat option" where
  "hex_fold acc [] = Some acc"
| "hex_fold acc (c # cs) = (case hex_value c of None \<Rightarrow> None | Some d \<Rightarrow> hex_fold (acc * 16 + d) cs)"

definition parse_hex :: "nat \<Rightarrow> string \<Rightarrow> nat option" where
  "parse_hex mx s =
     (let ds = (case s of c # cs \<Rightarrow> (if c = CHR ''+'' then cs else s) | [] \<Rightarrow> s)
      in if ds = [] then None
         else case hex_fold 0 ds of Some n \<Rightarrow> if n \<le> mx then Some n else None | None \<Rightarrow> None)"

lemma hex_value_digit: "d < 16 \<Longrightarrow> hex_value (hex_digit d) = Some d"
  by (auto simp: hex_value_def hex_digit_def Let_def)

lemma hex_digit_neq: "d < 16 \<Longrightarrow> hex_digit d \<noteq> CHR ''+'' \<and> hex_digit d \<noteq> CHR '':''"
proof -
  have "hex_value (CHR ''+'') = None" "hex_value (CHR '':'') = None" by (simp_all add: hex_value_def)
  then show "d < 16 \<Longrightarrow> hex_digit d \<noteq> CHR ''+'' \<and> hex_digit d \<noteq> CHR '':''"
    using hex_value_digit [of d] by auto
qed

lemma div_16: "n < 256 \<Longrightarrow> n div 16 < 16" for n :: nat
  by (simp add: div_less_iff_less_mult)

lemma parse_hex_show: "n < 256 \<Longrightarrow> parse_hex 255 (show_hex2 n) = Some n"
  using hex_digit_neq [of "n div 16"] div_16 [of n] hex_value_digit [of "n div 16"] hex_value_digit [of "n mod 16"]
  by (simp add: parse_hex_def show_hex2_def Let_def)

lemma show_hex2_no_colon: "n < 256 \<Longrightarrow> CHR '':'' \<notin> set (show_hex2 n)"
  using hex_digit_neq [of "n div 16"] hex_digit_neq [of "n mod 16"] div_16 [of n]
  by (simp add: show_hex2_def) metis

section \<open>UTF-8\<close>

definition utf8_cont :: "byte \<Rightarrow> bool" where
  "utf8_cont b \<longleftrightarrow> 0x80 \<le> b \<and> b \<le> 0xBF"

definition utf8_width :: "byte \<Rightarrow> nat" where
  "utf8_width a =
     (if a \<le> 0x7F then 1
      else if 0xC2 \<le> a \<and> a \<le> 0xDF then 2
      else if 0xE0 \<le> a \<and> a \<le> 0xEF then 3
      else if 0xF0 \<le> a \<and> a \<le> 0xF4 then 4
      else 0)"

text \<open>Well-formed byte sequences, as \<open>String::from_utf8\<close> accepts them (Unicode table 3-7).\<close>

fun utf8_valid :: "byte list \<Rightarrow> bool" where
  "utf8_valid [] = True"
| "utf8_valid (a # bs) =
     (if utf8_width a = 1 then utf8_valid bs
      else if utf8_width a = 2 then
        (case bs of b # r \<Rightarrow> utf8_cont b \<and> utf8_valid r | _ \<Rightarrow> False)
      else if utf8_width a = 3 then
        (case bs of b # c # r \<Rightarrow> utf8_cont b \<and> utf8_cont c \<and>
           (a = 0xE0 \<longrightarrow> 0xA0 \<le> b) \<and> (a = 0xED \<longrightarrow> b \<le> 0x9F) \<and> utf8_valid r | _ \<Rightarrow> False)
      else if utf8_width a = 4 then
        (case bs of b # c # d # r \<Rightarrow> utf8_cont b \<and> utf8_cont c \<and> utf8_cont d \<and>
           (a = 0xF0 \<longrightarrow> 0x90 \<le> b) \<and> (a = 0xF4 \<longrightarrow> b \<le> 0x8F) \<and> utf8_valid r | _ \<Rightarrow> False)
      else False)"

lemma utf8_valid_append: "utf8_valid as \<Longrightarrow> utf8_valid bs \<Longrightarrow> utf8_valid (as @ bs)"
proof (induction as rule: utf8_valid.induct)
  case (2 a as)
  consider "utf8_width a = 1" | "utf8_width a = 2" | "utf8_width a = 3" | "utf8_width a = 4"
    using "2.prems"(1) by (auto split: if_splits)
  then show ?case
  proof cases
    case 1
    with 2 show ?thesis by simp
  next
    case w: 2
    with "2.prems"(1) obtain b r where as: "as = b # r" by (cases as) simp_all
    with w "2.prems" "2.IH"(2) show ?thesis by simp
  next
    case w: 3
    with "2.prems"(1) obtain b c r where as: "as = b # c # r" by (auto split: list.splits)
    with w "2.prems" "2.IH"(3) show ?thesis by simp
  next
    case w: 4
    with "2.prems"(1) obtain b c d r where as: "as = b # c # d # r" by (auto split: list.splits)
    with w "2.prems" "2.IH"(4) show ?thesis by simp
  qed
qed simp

lemma utf8_valid_ascii: "\<forall>b \<in> set bs. b \<le> 0x7F \<Longrightarrow> utf8_valid bs"
  by (induction bs) (simp_all add: utf8_width_def)

definition utf8_str :: "string \<Rightarrow> bool" where
  "utf8_str s = utf8_valid (bytes_of_string s)"

section \<open>White space\<close>

text \<open>The UTF-8 encodings of the characters with the Unicode property \<open>White_Space\<close>.\<close>

definition ws_encodings :: "string list" where
  "ws_encodings =
    [[CHR 0x0A], [CHR 0x09], [CHR 0x0B], [CHR 0x0C], [CHR 0x0D], [CHR 0x20],
     [CHR 0xC2, CHR 0x85], [CHR 0xC2, CHR 0xA0], [CHR 0xE1, CHR 0x9A, CHR 0x80],
     [CHR 0xE2, CHR 0x80, CHR 0x80], [CHR 0xE2, CHR 0x80, CHR 0x81],
     [CHR 0xE2, CHR 0x80, CHR 0x82], [CHR 0xE2, CHR 0x80, CHR 0x83],
     [CHR 0xE2, CHR 0x80, CHR 0x84], [CHR 0xE2, CHR 0x80, CHR 0x85],
     [CHR 0xE2, CHR 0x80, CHR 0x86], [CHR 0xE2, CHR 0x80, CHR 0x87],
     [CHR 0xE2, CHR 0x80, CHR 0x88], [CHR 0xE2, CHR 0x80, CHR 0x89],
     [CHR 0xE2, CHR 0x80, CHR 0x8A], [CHR 0xE2, CHR 0x80, CHR 0xA8],
     [CHR 0xE2, CHR 0x80, CHR 0xA9], [CHR 0xE2, CHR 0x80, CHR 0xAF],
     [CHR 0xE2, CHR 0x81, CHR 0x9F], [CHR 0xE3, CHR 0x80, CHR 0x80]]"

definition starts_with :: "'a list \<Rightarrow> 'a list \<Rightarrow> bool" where
  "starts_with w s \<longleftrightarrow> take (length w) s = w"

text \<open>Drop leading occurrences of the given nonempty encodings.\<close>

function strip_front :: "'a list list \<Rightarrow> 'a list \<Rightarrow> 'a list" where
  "strip_front ws s =
     (case find (\<lambda>w. w \<noteq> [] \<and> starts_with w s) ws of
        None \<Rightarrow> s
      | Some w \<Rightarrow> strip_front ws (drop (length w) s))"
  by pat_completeness auto
termination
proof (relation "measure (\<lambda>(ws, s). length s)")
  fix ws :: "'a list list" and s w
  assume "find (\<lambda>w. w \<noteq> [] \<and> starts_with w s) ws = Some w"
  then have "w \<noteq> []" and "take (length w) s = w" by (auto simp: find_Some_iff starts_with_def)
  then have "s \<noteq> []" and "0 < length w" by auto
  then show "((ws, drop (length w) s), ws, s) \<in> measure (\<lambda>(ws, s). length s)" by simp
qed simp

declare strip_front.simps [simp del]

definition trim_start :: "string \<Rightarrow> string" where
  "trim_start s = strip_front ws_encodings s"

definition trim_end :: "string \<Rightarrow> string" where
  "trim_end s = rev (strip_front (map rev ws_encodings) (rev s))"

definition trim :: "string \<Rightarrow> string" where
  "trim s = trim_end (trim_start s)"

definition ascii_graph :: "char \<Rightarrow> bool" where
  "ascii_graph c \<longleftrightarrow> 32 < (of_char c :: nat) \<and> (of_char c :: nat) < 127"

lemma ws_not_graph: "w \<in> set ws_encodings \<Longrightarrow> w \<noteq> [] \<and> \<not> ascii_graph (hd w) \<and> \<not> ascii_graph (last w)"
  by (auto simp: ws_encodings_def ascii_graph_def)

lemma find_ws_None:
  assumes "ascii_graph c" "\<forall>w \<in> set ws. w \<noteq> [] \<and> \<not> ascii_graph (hd w)"
  shows "strip_front ws (c # s) = c # s"
proof -
  have "find (\<lambda>w. w \<noteq> [] \<and> starts_with w (c # s)) ws = None"
    unfolding find_None_iff
  proof
    assume "\<exists>w. w \<in> set ws \<and> w \<noteq> [] \<and> starts_with w (c # s)"
    then obtain w where w: "w \<in> set ws" "w \<noteq> []" "starts_with w (c # s)" by blast
    from w(2,3) obtain w' where "w = c # w'" by (cases w) (simp_all add: starts_with_def)
    then have "hd w = c" by simp
    with w assms show False by blast
  qed
  then show ?thesis by (subst strip_front.simps) simp
qed

lemma trim_start_graph: "ascii_graph c \<Longrightarrow> trim_start (c # s) = c # s"
  unfolding trim_start_def by (rule find_ws_None) (auto simp: ws_not_graph)

lemma trim_end_graph: "ascii_graph c \<Longrightarrow> trim_end (s @ [c]) = s @ [c]"
  unfolding trim_end_def
  by (subst rev_append, simp, subst find_ws_None) (auto simp: ws_not_graph hd_rev)

lemma trim_end_newline: "trim_end (s @ [CHR 0x0A]) = trim_end s"
proof -
  have "find (\<lambda>w. w \<noteq> [] \<and> starts_with w (CHR 0x0A # rev s)) (map rev ws_encodings) = Some [CHR 0x0A]"
    by (simp add: ws_encodings_def starts_with_def)
  then have "strip_front (map rev ws_encodings) (CHR 0x0A # rev s) = strip_front (map rev ws_encodings) (rev s)"
    by (subst strip_front.simps) simp
  then show ?thesis by (simp add: trim_end_def)
qed

section \<open>Trimming twice, and words\<close>

lemma strip_front_idem: "strip_front ws (strip_front ws s) = strip_front ws s"
proof (induction ws s rule: strip_front.induct)
  case (1 ws s)
  show ?case
  proof (cases "find (\<lambda>w. w \<noteq> [] \<and> starts_with w s) ws")
    case None
    then have "strip_front ws s = s" by (subst strip_front.simps) simp
    then show ?thesis by simp
  next
    case (Some w)
    then have "strip_front ws s = strip_front ws (drop (length w) s)" by (subst strip_front.simps) simp
    with 1 Some show ?thesis by simp
  qed
qed

lemma strip_front_fix: "strip_front ws s = s \<longleftrightarrow> (\<forall>w \<in> set ws. w = [] \<or> \<not> starts_with w s)"
proof
  assume s: "strip_front ws s = s"
  show "\<forall>w \<in> set ws. w = [] \<or> \<not> starts_with w s"
  proof (rule ccontr)
    assume "\<not> ?thesis"
    then obtain w where w: "find (\<lambda>w. w \<noteq> [] \<and> starts_with w s) ws = Some w" "w \<noteq> []" "starts_with w s"
      by (cases "find (\<lambda>w. w \<noteq> [] \<and> starts_with w s) ws") (auto simp: find_None_iff find_Some_iff)
    then have "strip_front ws s = strip_front ws (drop (length w) s)" by (subst strip_front.simps) simp
    moreover have "length (strip_front ws t) \<le> length t" for t
      by (induction ws t rule: strip_front.induct)
        (subst strip_front.simps, auto split: option.split intro: order.trans)
    ultimately have "length s \<le> length (drop (length w) s)" using s by metis
    with w(2,3) show False by (cases s; cases w) (auto simp: starts_with_def)
  qed
next
  assume "\<forall>w \<in> set ws. w = [] \<or> \<not> starts_with w s"
  then have "find (\<lambda>w. w \<noteq> [] \<and> starts_with w s) ws = None" by (auto simp: find_None_iff)
  then show "strip_front ws s = s" by (subst strip_front.simps) simp
qed

lemma strip_front_suffix: "\<exists>p. s = p @ strip_front ws s"
proof (induction ws s rule: strip_front.induct)
  case (1 ws s)
  show ?case
  proof (cases "find (\<lambda>w. w \<noteq> [] \<and> starts_with w s) ws")
    case (Some w)
    with 1 obtain p where "drop (length w) s = p @ strip_front ws (drop (length w) s)" by blast
    then have "s = (take (length w) s @ p) @ strip_front ws (drop (length w) s)"
      by (metis append_assoc append_take_drop_id)
    moreover have "strip_front ws s = strip_front ws (drop (length w) s)"
      using Some by (subst strip_front.simps) simp
    ultimately show ?thesis by metis
  qed (subst strip_front.simps, simp)
qed

lemma strip_front_length: "length (strip_front ws s) \<le> length s"
  using strip_front_suffix [of s ws] by (metis length_append le_add2)

text \<open>\<open>split_whitespace\<close>: the maximal pieces without white space.\<close>

definition at_ws :: "string \<Rightarrow> bool" where
  "at_ws s \<longleftrightarrow> list_ex (\<lambda>w. starts_with w s) ws_encodings"

fun break_ws :: "string \<Rightarrow> string \<times> string" where
  "break_ws [] = ([], [])"
| "break_ws (c # cs) =
     (if at_ws (c # cs) then ([], c # cs) else let (w, r) = break_ws cs in (c # w, r))"

lemma break_ws_length: "length (snd (break_ws s)) \<le> length s"
  by (induction s rule: break_ws.induct) (auto simp: Let_def split: prod.splits)

lemma trim_start_not_ws: "\<not> at_ws (trim_start s)"
proof -
  have "strip_front ws_encodings (trim_start s) = trim_start s"
    by (simp add: trim_start_def strip_front_idem)
  then show ?thesis using ws_not_graph by (auto simp: strip_front_fix at_ws_def list_ex_iff)
qed

lemma break_ws_shorter:
  assumes "trim_start s = c # cs" "break_ws (c # cs) = (w, r)"
  shows "w \<noteq> [] \<and> length r < length s"
proof -
  have "\<not> at_ws (c # cs)" using trim_start_not_ws [of s] assms(1) by simp
  then have "w = c # fst (break_ws cs)" "r = snd (break_ws cs)" using assms(2) by (auto split: prod.splits)
  moreover have "length (c # cs) \<le> length s"
    using strip_front_length [of ws_encodings s] assms(1) by (simp add: trim_start_def)
  ultimately show ?thesis using break_ws_length [of cs] by auto
qed

function split_whitespace :: "string \<Rightarrow> string list" where
  "split_whitespace s = (case trim_start s of [] \<Rightarrow> []
     | c # cs \<Rightarrow> let (w, r) = break_ws (c # cs) in w # split_whitespace r)"
  by pat_completeness auto
termination
proof (relation "measure length")
  fix s c cs x w r
  assume "trim_start s = c # cs" "x = break_ws (c # cs)" "(w, r) = x"
  then show "(r, s) \<in> measure length" using break_ws_shorter [of s c cs w r] by simp
qed simp

declare split_whitespace.simps [simp del]

lemma split_whitespace_Nil_iff: "split_whitespace s = [] \<longleftrightarrow> trim_start s = []"
  by (subst split_whitespace.simps) (auto split: list.split prod.split)

lemma trim_start_of_trim: "trim_start (trim s) = trim s"
proof -
  let ?x = "trim_start s"
  have "\<exists>p. rev ?x = p @ rev (trim s)"
    using strip_front_suffix [of "rev ?x" "map rev ws_encodings"] by (simp add: trim_def trim_end_def)
  then have x: "\<exists>p. ?x = trim s @ p" by (metis rev_append rev_rev_ident)
  have "strip_front ws_encodings ?x = ?x" unfolding trim_start_def by (rule strip_front_idem)
  then have "\<forall>w \<in> set ws_encodings. w = [] \<or> \<not> starts_with w ?x" by (simp add: strip_front_fix)
  with x have "\<forall>w \<in> set ws_encodings. w = [] \<or> \<not> starts_with w (trim s)"
    by (auto simp: starts_with_def)
  then show ?thesis unfolding trim_start_def by (simp add: strip_front_fix)
qed

lemma trim_idem: "trim (trim s) = trim s"
proof -
  have "trim (trim s) = trim_end (trim_start (trim s))" by (simp only: trim_def)
  also have "\<dots> = trim_end (trim s)" by (simp only: trim_start_of_trim)
  also have "\<dots> = trim s" by (simp add: trim_def trim_end_def strip_front_idem)
  finally show ?thesis .
qed

lemma split_whitespace_trim: "trim s \<noteq> [] \<Longrightarrow> split_whitespace (trim s) \<noteq> []"
  by (simp add: split_whitespace_Nil_iff trim_start_of_trim)

section \<open>Lines and splitting\<close>

definition strip_prefix :: "'a list \<Rightarrow> 'a list \<Rightarrow> 'a list option" where
  "strip_prefix p s = (if starts_with p s then Some (drop (length p) s) else None)"

definition strip_cr :: "string \<Rightarrow> string" where
  "strip_cr l = (if l \<noteq> [] \<and> last l = CHR 0x0D then butlast l else l)"

text \<open>\<open>str::lines\<close>: a last piece without its newline is a line of its own, and keeps a carriage return.\<close>

definition str_lines :: "string \<Rightarrow> string list" where
  "str_lines s = (let ps = split_on (CHR 0x0A) s in
     map strip_cr (butlast ps) @ (if last ps = [] then [] else [last ps]))"

definition split_once :: "'a \<Rightarrow> 'a list \<Rightarrow> ('a list \<times> 'a list) option" where
  "split_once c s = (if c \<in> set s then Some (takeWhile (\<lambda>x. x \<noteq> c) s, tl (dropWhile (\<lambda>x. x \<noteq> c) s)) else None)"

fun find_map :: "('a \<Rightarrow> 'b option) \<Rightarrow> 'a list \<Rightarrow> 'b option" where
  "find_map f [] = None"
| "find_map f (x # xs) = (case f x of Some y \<Rightarrow> Some y | None \<Rightarrow> find_map f xs)"

end
