(* ===== verification/Guest_Channel.thy ===== *)
theory Guest_Channel
  imports Proto_Messages Byte_Strings
begin

text \<open>
  The guest's channel to the host: the port of \<open>crates/guestd/src/channel.rs\<close>, its scripted stand-in
  of \<open>pseudo_channel.rs\<close> and the newline-delimited framing of \<open>framing.rs\<close>.

  A channel is a state with a send and a receive operation. The locale \<open>recording_channel\<close> is what
  the supervisor's properties need of one: a send that succeeds adds exactly its message to the
  transcript of what went out, and a failed send or a receive adds nothing. Both implementations
  satisfy it. The JSON text of a message and the socket are parameters of the framing.
\<close>

datatype channel_error = Ch_Closed | Ch_Io string | Ch_Malformed string

type_synonym 'c chan_send = "guest_to_host \<Rightarrow> ('c, channel_error, unit) eff"
type_synonym 'c chan_recv = "('c, channel_error, host_to_guest) eff"

section \<open>The channel contract\<close>

locale recording_channel =
  fixes send :: "'c chan_send"
    and recv :: "'c chan_recv"
    and sent :: "'c \<Rightarrow> guest_to_host list"
  assumes send_ok: "send m c = (Inr (), c') \<Longrightarrow> sent c' = sent c @ [m]"
    and send_err: "send m c = (Inl e, c') \<Longrightarrow> sent c' = sent c"
    and recv_sent: "recv c = (r, c') \<Longrightarrow> sent c' = sent c"
begin

lemma send_grows: "send m c = (r, c') \<Longrightarrow> \<exists>ms. sent c' = sent c @ ms \<and> set ms \<subseteq> {m}"
  by (cases r) (auto dest: send_ok send_err)

end

section \<open>The scripted channel\<close>

record pseudo_channel =
  pc_inbox :: "host_to_guest list"
  pc_sent :: "guest_to_host list"

definition pc_new :: pseudo_channel where
  "pc_new = \<lparr> pc_inbox = [], pc_sent = [] \<rparr>"

definition push_inbound :: "host_to_guest \<Rightarrow> pseudo_channel \<Rightarrow> pseudo_channel" where
  "push_inbound m c = c \<lparr> pc_inbox := pc_inbox c @ [m] \<rparr>"

definition pc_send :: "pseudo_channel chan_send" where
  "pc_send m c = (Inr (), c \<lparr> pc_sent := pc_sent c @ [m] \<rparr>)"

definition pc_recv :: "pseudo_channel chan_recv" where
  "pc_recv c = (case pc_inbox c of
      [] \<Rightarrow> (Inl Ch_Closed, c)
    | m # ms \<Rightarrow> (Inr m, c \<lparr> pc_inbox := ms \<rparr>))"

interpretation pc: recording_channel pc_send pc_recv pc_sent
  by unfold_locales (auto simp: pc_send_def pc_recv_def split: list.splits)

section \<open>Newline-delimited framing\<close>

text \<open>
  The reader half is the bytes that will arrive before the peer closes; the writer half is a stream
  the socket owns, with \<open>wr\<close> for \<open>write_all\<close> followed by \<open>flush\<close>. \<open>to_vec\<close> and \<open>from_str\<close> are
  \<open>serde_json\<close>'s. The record also keeps the messages whose line was written, which the code has no
  need to remember.
\<close>

record 'w line_channel =
  lc_reader :: string
  lc_writer :: 'w
  lc_log :: "guest_to_host list"

abbreviation newline :: char where
  "newline \<equiv> CHR 0x0A"

definition lc_new :: "string \<Rightarrow> 'w \<Rightarrow> 'w line_channel" where
  "lc_new r w = \<lparr> lc_reader = r, lc_writer = w, lc_log = [] \<rparr>"

definition lc_send ::
  "(guest_to_host \<Rightarrow> string + string) \<Rightarrow> (string \<Rightarrow> 'w \<Rightarrow> (string + unit) \<times> 'w) \<Rightarrow> 'w line_channel chan_send"
where
  "lc_send to_vec wr m c =
     (case to_vec m of
        Inl e \<Rightarrow> (Inl (Ch_Malformed e), c)
      | Inr line \<Rightarrow>
          (case wr (line @ [newline]) (lc_writer c) of
             (Inl e, w) \<Rightarrow> (Inl (Ch_Io e), c \<lparr> lc_writer := w \<rparr>)
           | (Inr _, w) \<Rightarrow> (Inr (), c \<lparr> lc_writer := w, lc_log := lc_log c @ [m] \<rparr>)))"

text \<open>\<open>read_line\<close>: up to and including the first newline, or all that is left.\<close>

fun read_line :: "string \<Rightarrow> string \<times> string" where
  "read_line [] = ([], [])"
| "read_line (c # cs) =
     (if c = newline then ([c], cs) else let (l, r) = read_line cs in (c # l, r))"

definition lc_recv :: "(string \<Rightarrow> string + host_to_guest) \<Rightarrow> 'w line_channel chan_recv" where
  "lc_recv from_str c =
     (let (line, rest) = read_line (lc_reader c);
          c' = c \<lparr> lc_reader := rest \<rparr>
      in if \<not> utf8_str line then (Inl (Ch_Io ''stream did not contain valid UTF-8''), c')
         else if line = [] then (Inl Ch_Closed, c')
         else case from_str (trim_end line) of
                Inl e \<Rightarrow> (Inl (Ch_Malformed e), c')
              | Inr m \<Rightarrow> (Inr m, c'))"

interpretation lc: recording_channel "lc_send to_vec wr" "lc_recv from_str" lc_log
  by unfold_locales
    (auto simp: lc_send_def lc_recv_def Let_def split: sum.splits prod.splits if_splits)

lemma read_line_append: "newline \<notin> set l \<Longrightarrow> read_line (l @ newline # r) = (l @ [newline], r)"
  by (induction l) auto

lemma read_line_concat: "fst (read_line s) @ snd (read_line s) = s"
  by (induction s) (auto split: prod.splits)

text \<open>A peer that reads everything there is: the messages in order, then the error that ends it.\<close>

fun recv_all :: "(string \<Rightarrow> string + host_to_guest) \<Rightarrow> nat \<Rightarrow> 'w line_channel \<Rightarrow> host_to_guest list \<times> channel_error option" where
  "recv_all from_str 0 c = ([], None)"
| "recv_all from_str (Suc n) c =
     (case lc_recv from_str c of
        (Inl e, _) \<Rightarrow> ([], Some e)
      | (Inr m, c') \<Rightarrow> (let (ms, e) = recv_all from_str n c' in (m # ms, e)))"

definition frame_lines :: "('m \<Rightarrow> string) \<Rightarrow> 'm list \<Rightarrow> string" where
  "frame_lines enc ms = concat (map (\<lambda>m. enc m @ [newline]) ms)"

lemma utf8_str_snoc_newline: "utf8_str s \<Longrightarrow> utf8_str (s @ [newline])"
proof -
  have "utf8_valid [byte_of_char newline]" by (simp add: byte_of_char_def utf8_width_def)
  then show "utf8_str s \<Longrightarrow> utf8_str (s @ [newline])" by (simp add: utf8_str_def utf8_valid_append)
qed

lemma lc_recv_line:
  assumes "newline \<notin> set l" "utf8_str (l @ [CHR ''}''])" "from_str (l @ [CHR ''}'']) = Inr m"
  shows "lc_recv from_str (c \<lparr> lc_reader := l @ CHR ''}'' # newline # r \<rparr>) = (Inr m, c \<lparr> lc_reader := r \<rparr>)"
proof -
  have rl: "read_line (l @ CHR ''}'' # newline # r) = (l @ CHR ''}'' # [newline], r)"
    using read_line_append [of "l @ [CHR ''}'']" r] assms(1) by simp
  have "trim_end (l @ CHR ''}'' # [newline]) = l @ [CHR ''}'']"
    using trim_end_newline [of "l @ [CHR ''}'']"] trim_end_graph [of "CHR ''}''" l]
    by (simp add: ascii_graph_def)
  moreover have "utf8_str (l @ CHR ''}'' # [newline])"
    using utf8_str_snoc_newline [OF assms(2)] by simp
  ultimately show ?thesis by (simp add: lc_recv_def rl assms(3))
qed

text \<open>What the writer has been given is the framed log, when the socket accepts every write.\<close>

definition buf_write :: "string \<Rightarrow> string \<Rightarrow> (string + unit) \<times> string" where
  "buf_write s w = (Inr (), w @ s)"

lemma lc_send_frames:
  assumes "lc_send to_vec buf_write m c = (Inr (), c')" and "\<And>m l. to_vec m = Inr l \<Longrightarrow> l = enc m"
    and "lc_writer c = frame_lines enc (lc_log c)"
  shows "lc_writer c' = frame_lines enc (lc_log c')"
  using assms by (auto simp: lc_send_def buf_write_def frame_lines_def split: sum.splits)

text \<open>
  Framing loses and invents nothing: a peer that sends any sequence of messages as JSON lines and
  then closes is read back as exactly that sequence, in order, followed by \<open>Closed\<close>. What the code
  relies on is what a compact JSON object is: text without a raw newline, closed by a brace, that
  parses back to the message it was printed from.
\<close>

theorem framing_round_trip:
  assumes "\<forall>m \<in> set ms. from_str (enc m) = Inr m"
    and "\<forall>m \<in> set ms. newline \<notin> set (enc m) \<and> utf8_str (enc m)"
    and "\<forall>m \<in> set ms. enc m \<noteq> [] \<and> last (enc m) = CHR ''}''"
  shows "recv_all from_str (Suc (length ms)) (lc_new (frame_lines enc ms) w) = (ms, Some Ch_Closed)"
  using assms
proof (induction ms)
  case Nil
  then show ?case
    by (simp add: frame_lines_def lc_recv_def lc_new_def utf8_str_def)
next
  case (Cons m ms)
  from Cons.prems(3) obtain l where l: "enc m = l @ [CHR ''}'']"
    by (metis append_butlast_last_id list.set_intros(1))
  have "lc_recv from_str (lc_new (frame_lines enc (m # ms)) w) = (Inr m, lc_new (frame_lines enc ms) w)"
    using lc_recv_line [where l = l and from_str = from_str and m = m and c = "lc_new [] w" and r = "frame_lines enc ms"] Cons.prems l
    by (simp add: frame_lines_def lc_new_def)
  with Cons show ?case by simp
qed

definition sample_enc :: "host_to_guest \<Rightarrow> string" where
  "sample_enc m = (if m = H_Ping then ''{type:Ping}'' else ''{type:DrainCancel}'')"

definition sample_dec :: "string \<Rightarrow> string + host_to_guest" where
  "sample_dec s = (if s = ''{type:Ping}'' then Inr H_Ping
     else if s = ''{type:DrainCancel}'' then Inr DrainCancel else Inl ''bad'')"

lemma framing_round_trip_witness:
  "recv_all sample_dec 3 (lc_new (frame_lines sample_enc [DrainCancel, H_Ping]) ()) =
     ([DrainCancel, H_Ping], Some Ch_Closed)"
proof -
  have u: "utf8_str ''{type:Ping}''" "utf8_str ''{type:DrainCancel}''"
    by (simp_all add: utf8_str_def utf8_width_def byte_of_char_def)
  show ?thesis
    using framing_round_trip [of "[DrainCancel, H_Ping]" sample_dec sample_enc "()"]
    by (simp add: sample_enc_def sample_dec_def u numeral_3_eq_3 del: recv_all.simps)
qed

end
