(* ===== verification/Guest_Supervisor.thy ===== *)
theory Guest_Supervisor
  imports Guest_Channel
begin

text \<open>
  The in-VM supervisor of \<open>crates/guestd/src/guest.rs\<close>: the record \<open>Guest\<close>, one definition per
  method, over any channel. An operation returns its result and the supervisor it leaves behind, also
  when it fails, because the code changes \<open>in_flight\<close> and the counter before it sends.

  The wire transcript is the ground truth the properties are stated against: \<open>wire_in_flight\<close> reads
  off the turn that has started and not ended.
\<close>

datatype start_outcome = Started turn_id | Queued

datatype guest_error =
    Ge_Channel channel_error
  | Ge_UnexpectedHandshake
  | Ge_TurnInProgress turn_id
  | Ge_NoTurnInFlight
  | Ge_GatedReplay

record 'c guest =
  g_vm_id :: vm_id
  g_version :: guestd_version
  g_chan :: 'c
  g_secrets :: "(string, string) btree"
  g_next_turn :: turn_id
  g_in_flight :: "turn_id option"
  g_gated :: bool
  g_queued :: u32

type_synonym ('c, 'a) guest_op = "('c guest, guest_error, 'a) eff"

definition guest_new :: "vm_id \<Rightarrow> guestd_version \<Rightarrow> 'c \<Rightarrow> 'c guest" where
  "guest_new v ver chan =
     \<lparr> g_vm_id = v, g_version = ver, g_chan = chan, g_secrets = [], g_next_turn = turn_FIRST,
       g_in_flight = None, g_gated = False, g_queued = 0 \<rparr>"

text \<open>\<open>self.chan.send(..).await?\<close> and \<open>self.chan.recv().await?\<close>: the channel error is converted.\<close>

definition g_send :: "'c chan_send \<Rightarrow> guest_to_host \<Rightarrow> ('c, unit) guest_op" where
  "g_send send m g =
     (case send m (g_chan g) of
        (Inl e, c) \<Rightarrow> (Inl (Ge_Channel e), g \<lparr> g_chan := c \<rparr>)
      | (Inr _, c) \<Rightarrow> (Inr (), g \<lparr> g_chan := c \<rparr>))"

definition g_recv :: "'c chan_recv \<Rightarrow> ('c, host_to_guest) guest_op" where
  "g_recv recv g =
     (case recv (g_chan g) of
        (Inl e, c) \<Rightarrow> (Inl (Ge_Channel e), g \<lparr> g_chan := c \<rparr>)
      | (Inr m, c) \<Rightarrow> (Inr m, g \<lparr> g_chan := c \<rparr>))"

definition handshake :: "'c chan_send \<Rightarrow> 'c chan_recv \<Rightarrow> ('c, unit) guest_op" where
  "handshake send recv g =
     seqE (g_send send (Hello (g_vm_id g) (g_version g)))
       (bindE (g_recv recv)
         (\<lambda>m. case m of
              Secrets env \<Rightarrow> (\<lambda>g. (Inr (), g \<lparr> g_secrets := env \<rparr>))
            | _ \<Rightarrow> errE Ge_UnexpectedHandshake)) g"

definition begin_turn :: "'c chan_send \<Rightarrow> timestamp \<Rightarrow> ('c, turn_id) guest_op" where
  "begin_turn send now g =
     (let t = g_next_turn g;
          g' = g \<lparr> g_next_turn := turn_next t, g_in_flight := Some t \<rparr>
      in seqE (g_send send (TurnStarted t now)) (okE t) g')"

definition start_turn :: "'c chan_send \<Rightarrow> timestamp \<Rightarrow> ('c, start_outcome) guest_op" where
  "start_turn send now g =
     (case g_in_flight g of
        Some i \<Rightarrow> (Inl (Ge_TurnInProgress i), g)
      | None \<Rightarrow>
          if g_gated g then (Inr Queued, g \<lparr> g_queued := g_queued g + 1 \<rparr>)
          else bindE (begin_turn send now) (\<lambda>t. okE (Started t)) g)"

definition run_turn :: "'c chan_send \<Rightarrow> turn_id \<Rightarrow> timestamp \<Rightarrow> ('c, start_outcome) guest_op" where
  "run_turn send t now g =
     (case g_in_flight g of
        Some i \<Rightarrow> (Inl (Ge_TurnInProgress i), g)
      | None \<Rightarrow>
          if g_gated g then (Inr Queued, g \<lparr> g_queued := g_queued g + 1 \<rparr>)
          else seqE (g_send send (TurnStarted t now))
                (seqE (g_send send (TurnEnded t now))
                  (\<lambda>g. (Inr (Started t), g \<lparr> g_in_flight := None \<rparr>)))
                (g \<lparr> g_in_flight := Some t \<rparr>))"

definition begin_observed_turn :: "'c chan_send \<Rightarrow> timestamp \<Rightarrow> ('c, turn_id) guest_op" where
  "begin_observed_turn send now g =
     (case g_in_flight g of
        Some i \<Rightarrow> (Inl (Ge_TurnInProgress i), g)
      | None \<Rightarrow> begin_turn send now g)"

definition replay_next :: "'c chan_send \<Rightarrow> timestamp \<Rightarrow> ('c, turn_id option) guest_op" where
  "replay_next send now g =
     (case g_in_flight g of
        Some i \<Rightarrow> (Inl (Ge_TurnInProgress i), g)
      | None \<Rightarrow>
          if g_gated g then (Inl Ge_GatedReplay, g)
          else if g_queued g = 0 then (Inr None, g)
          else bindE (begin_turn send now) (\<lambda>t. okE (Some t)) (g \<lparr> g_queued := g_queued g - 1 \<rparr>))"

definition resume :: "'c chan_send \<Rightarrow> timestamp \<Rightarrow> ('c, unit) guest_op" where
  "resume send now =
     seqE (g_send send (Resumed now)) (\<lambda>g. (Inr (), g \<lparr> g_gated := False \<rparr>))"

definition end_turn :: "'c chan_send \<Rightarrow> timestamp \<Rightarrow> ('c, unit) guest_op" where
  "end_turn send now g =
     (case g_in_flight g of
        None \<Rightarrow> (Inl Ge_NoTurnInFlight, g)
      | Some t \<Rightarrow>
          seqE (g_send send (TurnEnded t now)) (\<lambda>g. (Inr (), g \<lparr> g_in_flight := None \<rparr>)) g)"

definition guest_handle :: "'c chan_send \<Rightarrow> host_to_guest \<Rightarrow> timestamp \<Rightarrow> ('c, unit) guest_op" where
  "guest_handle send m now g =
     (case m of
        RunTurn t \<Rightarrow> bindE (run_turn send t now) (\<lambda>_. okE ()) g
      | DrainRequest _ \<Rightarrow>
          (let g' = g \<lparr> g_gated := True \<rparr> in g_send send (DrainAck (g_in_flight g')) g')
      | DrainCancel \<Rightarrow> (Inr (), g \<lparr> g_gated := False \<rparr>)
      | Secrets env \<Rightarrow> (Inr (), g \<lparr> g_secrets := env \<rparr>)
      | H_Ping \<Rightarrow> g_send send G_Pong g
      | H_Pong \<Rightarrow> (Inr (), g))"

section \<open>Reading the transcript\<close>

fun wire_step :: "turn_id option \<Rightarrow> guest_to_host \<Rightarrow> turn_id option" where
  "wire_step _ (TurnStarted t _) = Some t"
| "wire_step _ (TurnEnded _ _) = None"
| "wire_step w _ = w"

definition wire_in_flight :: "guest_to_host list \<Rightarrow> turn_id option" where
  "wire_in_flight = foldl wire_step None"

lemma wire_in_flight_Nil [simp]: "wire_in_flight [] = None"
  by (simp add: wire_in_flight_def)

lemma wire_in_flight_snoc [simp]: "wire_in_flight (ms @ [m]) = wire_step (wire_in_flight ms) m"
  by (simp add: wire_in_flight_def)

lemma wire_in_flight_snoc2 [simp]:
  "wire_in_flight (ms @ [m, m']) = wire_step (wire_step (wire_in_flight ms) m) m'"
  by (simp add: wire_in_flight_def)

fun is_turn_started :: "guest_to_host \<Rightarrow> bool" where
  "is_turn_started (TurnStarted _ _) = True"
| "is_turn_started _ = False"

fun is_turn_ended :: "guest_to_host \<Rightarrow> bool" where
  "is_turn_ended (TurnEnded _ _) = True"
| "is_turn_ended _ = False"

lemmas guest_op_defs = handshake_def start_turn_def run_turn_def begin_observed_turn_def
  replay_next_def resume_def end_turn_def guest_handle_def begin_turn_def

section \<open>One operation at a time\<close>

text \<open>The calls a driver can make, and what each returns.\<close>

datatype guest_call =
    Call_Handshake
  | Call_Start timestamp
  | Call_Run turn_id timestamp
  | Call_Observed timestamp
  | Call_Replay timestamp
  | Call_Resume timestamp
  | Call_End timestamp
  | Call_Handle host_to_guest timestamp

definition void :: "('s, 'e, 'a) eff \<Rightarrow> ('s, 'e, unit) eff" where
  "void m = bindE m (\<lambda>_. okE ())"

fun guest_do :: "'c chan_send \<Rightarrow> 'c chan_recv \<Rightarrow> guest_call \<Rightarrow> ('c, unit) guest_op" where
  "guest_do send recv Call_Handshake = handshake send recv"
| "guest_do send recv (Call_Start now) = void (start_turn send now)"
| "guest_do send recv (Call_Run t now) = void (run_turn send t now)"
| "guest_do send recv (Call_Observed now) = void (begin_observed_turn send now)"
| "guest_do send recv (Call_Replay now) = void (replay_next send now)"
| "guest_do send recv (Call_Resume now) = resume send now"
| "guest_do send recv (Call_End now) = end_turn send now"
| "guest_do send recv (Call_Handle m now) = guest_handle send m now"

text \<open>A driver keeps using the supervisor after an error, as \<open>serve_messages_only\<close>'s caller does not.\<close>

definition guest_run :: "'c chan_send \<Rightarrow> 'c chan_recv \<Rightarrow> guest_call list \<Rightarrow> 'c guest \<Rightarrow> 'c guest" where
  "guest_run send recv calls g = foldl (\<lambda>g c. snd (guest_do send recv c g)) g calls"

lemma guest_run_Nil [simp]: "guest_run send recv [] g = g"
  by (simp add: guest_run_def)

lemma guest_run_snoc [simp]:
  "guest_run send recv (cs @ [c]) g = snd (guest_do send recv c (guest_run send recv cs g))"
  by (simp add: guest_run_def)

end
