(* ===== verification/Guest_Facts.thy ===== *)
theory Guest_Facts
  imports Guest_Supervisor
begin

text \<open>
  What the supervisor guarantees, proved once over the channel contracts of \<open>Guest_Channel\<close> and
  then stated for the scripted channel.

  \<^item> Over any recording channel, failing sends included, the drain gate keeps turns from starting.
  \<^item> Over a channel whose sends succeed, the in-flight turn is the one the transcript shows, every
    \<open>DrainAck\<close> tells the truth, and every accepted attempt has started or waits in the backlog.
\<close>

section \<open>The gate\<close>

fun is_observed :: "guest_call \<Rightarrow> bool" where
  "is_observed (Call_Observed _) = True"
| "is_observed _ = False"

fun opens_gate :: "guest_call \<Rightarrow> bool" where
  "opens_gate (Call_Resume _) = True"
| "opens_gate (Call_Handle DrainCancel _) = True"
| "opens_gate _ = False"

context recording_channel
begin

definition adds :: "'c guest \<Rightarrow> 'c guest \<Rightarrow> guest_to_host list \<Rightarrow> bool" where
  "adds g g' ms \<longleftrightarrow> sent (g_chan g') = sent (g_chan g) @ ms"

lemma adds_same: "g_chan g' = g_chan g \<Longrightarrow> adds g g' []"
  by (simp add: adds_def)

lemma quiet_same:
  "g_chan g' = g_chan g \<Longrightarrow> \<exists>ms. adds g g' ms \<and> (\<forall>m \<in> set ms. \<not> is_turn_started m)"
  by (intro exI [of _ "[]"]) (simp add: adds_def)

lemma g_send_adds:
  assumes "g_send send m g = (r, g')"
  shows "\<exists>ms. adds g g' ms \<and> (\<forall>x \<in> set ms. x = m)"
proof (cases "send m (g_chan g)")
  case (Pair r' c)
  with assms have "g_chan g' = c" by (auto simp: g_send_def split: sum.splits)
  with send_grows [OF Pair] show ?thesis by (auto simp: adds_def)
qed

lemma g_recv_adds: "g_recv recv g = (r, g') \<Longrightarrow> adds g g' []"
  by (cases "recv (g_chan g)") (auto simp: g_recv_def adds_def dest: recv_sent split: sum.splits)

lemma g_send_gated: "g_send send m g = (r, g') \<Longrightarrow> g_gated g' = g_gated g"
  by (auto simp: g_send_def split: sum.splits prod.splits)

lemma g_recv_gated: "g_recv recv g = (r, g') \<Longrightarrow> g_gated g' = g_gated g"
  by (auto simp: g_recv_def split: sum.splits prod.splits)

lemma handshake_quiet:
  assumes "handshake send recv g = (r, g')"
  shows "\<exists>ms. adds g g' ms \<and> (\<forall>m \<in> set ms. \<not> is_turn_started m) \<and> g_gated g' = g_gated g"
proof -
  obtain r1 g1 where s: "g_send send (Hello (g_vm_id g) (g_version g)) g = (r1, g1)" by fastforce
  obtain r2 g2 where v: "g_recv recv g1 = (r2, g2)" by fastforce
  from g_send_adds [OF s] obtain ms where ms: "adds g g1 ms" "\<forall>x \<in> set ms. x = Hello (g_vm_id g) (g_version g)"
    by blast
  have "g' = g1 \<or> g' = g2 \<or> (\<exists>env. g' = g2 \<lparr> g_secrets := env \<rparr>)"
    using assms s v
    by (cases r1; cases r2) (auto simp: handshake_def seqE_def bindE_def split: host_to_guest.splits)
  then have "g_gated g' = g_gated g \<and> adds g g' ms"
    using g_send_gated [OF s] g_recv_gated [OF v] g_recv_adds [OF v] ms(1) by (auto simp: adds_def)
  moreover have "\<forall>x \<in> set ms. \<not> is_turn_started x" using ms(2) by auto
  ultimately show ?thesis by blast
qed

lemma gated_step:
  assumes "guest_do send recv c g = (r, g')" "g_gated g" "\<not> is_observed c" "\<not> opens_gate c"
  shows "\<exists>ms. adds g g' ms \<and> (\<forall>m \<in> set ms. \<not> is_turn_started m) \<and> g_gated g'"
proof -
  have one: ?thesis if "g_send send m h = (r', g')" "g_chan h = g_chan g" "g_gated h"
    "\<not> is_turn_started m" for m h r'
  proof -
    note h = that
    from g_send_adds [OF h(1)] obtain ms where "adds h g' ms" "\<forall>x \<in> set ms. \<not> is_turn_started x"
      using h(4) by metis
    then show ?thesis
      using g_send_gated [OF h(1)] h(2,3) by (intro exI [of _ ms]) (simp add: adds_def)
  qed
  have none: ?thesis if "g_chan g' = g_chan g" "g_gated g'"
    using that by (intro exI [of _ "[]"]) (simp add: adds_def)
  show ?thesis
  proof (cases c)
    case Call_Handshake
    with assms handshake_quiet [of g r g'] show ?thesis by auto
  next
    case (Call_End now)
    show ?thesis
    proof (cases "g_in_flight g")
      case None
      with assms Call_End show ?thesis by (intro none) (auto simp: end_turn_def)
    next
      case (Some t)
      obtain r1 g1 where s: "g_send send (TurnEnded t now) g = (r1, g1)" by fastforce
      from s assms Call_End Some have "g_chan g' = g_chan g1 \<and> g_gated g' = g_gated g1"
        by (cases r1) (auto simp: end_turn_def seqE_def bindE_def)
      moreover from g_send_adds [OF s] obtain ms where
        "adds g g1 ms" "\<forall>x \<in> set ms. \<not> is_turn_started x" by (metis is_turn_started.simps(3))
      ultimately show ?thesis
        using g_send_gated [OF s] assms(2) by (intro exI [of _ ms]) (simp add: adds_def)
    qed
  next
    case (Call_Handle m now)
    with assms show ?thesis
      by (cases m; cases "g_in_flight g")
        (auto simp: guest_handle_def run_turn_def bindE_def Let_def intro!: quiet_same elim!: one)
  qed (use assms in \<open>auto simp: start_turn_def run_turn_def replay_next_def void_def bindE_def
         split: option.splits intro!: quiet_same\<close>)
qed

lemma gated_run:
  assumes "g_gated g" "\<forall>c \<in> set cs. \<not> is_observed c \<and> \<not> opens_gate c"
  shows "\<exists>ms. adds g (guest_run send recv cs g) ms \<and> (\<forall>m \<in> set ms. \<not> is_turn_started m)
           \<and> g_gated (guest_run send recv cs g)"
  using assms(2)
proof (induction cs rule: rev_induct)
  case Nil
  with assms(1) show ?case by (simp add: adds_same exI [of _ "[]"])
next
  case (snoc c cs)
  let ?h = "guest_run send recv cs g"
  from snoc obtain ms where ms: "adds g ?h ms" "\<forall>m \<in> set ms. \<not> is_turn_started m" "g_gated ?h" by auto
  obtain r h' where d: "guest_do send recv c ?h = (r, h')" by fastforce
  from gated_step [OF d ms(3)] snoc.prems obtain ms' where
    "adds ?h h' ms'" "\<forall>m \<in> set ms'. \<not> is_turn_started m" "g_gated h'" by auto
  with ms d show ?case by (intro exI [of _ "ms @ ms'"]) (auto simp: adds_def)
qed

end

text \<open>
  C20. The gate holds for as long as nobody reopens it. From any supervisor whose gate is closed, over
  the framed channel with its failing writes and malformed input, no sequence of calls that neither
  resumes, cancels nor reports an observed turn puts a \<open>TurnStarted\<close> on the wire, and the gate is
  still closed afterwards.
\<close>

theorem gate_holds:
  assumes "g_gated g" "\<forall>c \<in> set cs. \<not> is_observed c \<and> \<not> opens_gate c"
  shows "filter is_turn_started (lc_log (g_chan (guest_run (lc_send to_vec wr) (lc_recv from_str) cs g)))
           = filter is_turn_started (lc_log (g_chan g))
         \<and> g_gated (guest_run (lc_send to_vec wr) (lc_recv from_str) cs g)"
  using lc.gated_run [OF assms, of to_vec wr from_str] by (auto simp: lc.adds_def filter_empty_conv)

lemma gate_holds_witness:
  "let g = (guest_new (VmId 1) (GuestdVersion ''0.1.0'') (lc_new ''garbage'' ())) \<lparr> g_gated := True \<rparr>;
       cs = [Call_Start (Timestamp 1), Call_Handshake, Call_Handle (RunTurn (TurnId 7)) (Timestamp 2)]
   in g_gated (guest_run (lc_send (\<lambda>_. Inr ''{}'') (\<lambda>_ w. (Inl ''EPIPE'', w)))
        (lc_recv (\<lambda>_. Inl ''bad'')) cs g)"
  unfolding Let_def by (rule gate_holds [THEN conjunct2]) simp_all

section \<open>Truthful acks and the accounting of turns\<close>

text \<open>A channel whose sends succeed: the contract under which nothing the supervisor says is lost.\<close>

locale reliable_channel = recording_channel send recv sent
  for send :: "'c chan_send" and recv :: "'c chan_recv" and sent :: "'c \<Rightarrow> guest_to_host list" +
  assumes send_succeeds: "fst (send m c) = Inr ()"

interpretation pc: reliable_channel pc_send pc_recv pc_sent
  by unfold_locales (simp add: pc_send_def)

text \<open>An attempt that the supervisor accepts: it either starts a turn or defers it.\<close>

fun is_attempt :: "guest_call \<Rightarrow> bool" where
  "is_attempt (Call_Start _) = True"
| "is_attempt (Call_Run _ _) = True"
| "is_attempt (Call_Observed _) = True"
| "is_attempt (Call_Handle (RunTurn _) _) = True"
| "is_attempt _ = False"

fun accepted :: "'c chan_send \<Rightarrow> 'c chan_recv \<Rightarrow> guest_call list \<Rightarrow> 'c guest \<Rightarrow> nat" where
  "accepted send recv [] g = 0"
| "accepted send recv (c # cs) g =
     (if is_attempt c \<and> \<not> isl (fst (guest_do send recv c g)) then 1 else 0)
     + accepted send recv cs (snd (guest_do send recv c g))"

definition started_count :: "guest_to_host list \<Rightarrow> nat" where
  "started_count ms = length (filter is_turn_started ms)"

definition ended_count :: "guest_to_host list \<Rightarrow> nat" where
  "ended_count ms = length (filter is_turn_ended ms)"

text \<open>Every \<open>DrainAck\<close> of a transcript names the turn that was in flight when it was sent.\<close>

definition acks_truthful :: "guest_to_host list \<Rightarrow> bool" where
  "acks_truthful ms \<longleftrightarrow>
     (\<forall>i < length ms. \<forall>a. ms ! i = DrainAck a \<longrightarrow> a = wire_in_flight (take i ms))"

lemma acks_truthful_snoc:
  "acks_truthful (ms @ [m]) \<longleftrightarrow>
     acks_truthful ms \<and> (\<forall>a. m = DrainAck a \<longrightarrow> a = wire_in_flight ms)"
  by (auto simp: acks_truthful_def nth_append less_Suc_eq)

lemma acks_truthful_snoc2:
  "acks_truthful (ms @ [m, m']) \<longleftrightarrow>
     acks_truthful (ms @ [m]) \<and> (\<forall>a. m' = DrainAck a \<longrightarrow> a = wire_in_flight (ms @ [m]))"
  using acks_truthful_snoc [of "ms @ [m]" m'] by simp

lemma acks_truthful_Nil [simp]: "acks_truthful []"
  by (simp add: acks_truthful_def)

lemma count_simps [simp]:
  "started_count [] = 0" "ended_count [] = 0"
  "started_count (ms @ ms') = started_count ms + started_count ms'"
  "ended_count (ms @ ms') = ended_count ms + ended_count ms'"
  "started_count (m # ms) = (if is_turn_started m then 1 else 0) + started_count ms"
  "ended_count (m # ms) = (if is_turn_ended m then 1 else 0) + ended_count ms"
  by (simp_all add: started_count_def ended_count_def)

definition slot :: "'a option \<Rightarrow> nat" where
  "slot x = (case x of None \<Rightarrow> 0 | Some _ \<Rightarrow> 1)"

lemma slot_simps [simp]: "slot None = 0" "slot (Some x) = 1"
  by (simp_all add: slot_def)

text \<open>Without host-driven turns the ids on the wire are the counter's values in order.\<close>

fun host_driven :: "guest_call \<Rightarrow> bool" where
  "host_driven (Call_Run _ _) = True"
| "host_driven (Call_Handle (RunTurn _) _) = True"
| "host_driven _ = False"

fun started_id :: "guest_to_host \<Rightarrow> turn_id list" where
  "started_id (TurnStarted t _) = [t]"
| "started_id _ = []"

definition started_ids :: "guest_to_host list \<Rightarrow> turn_id list" where
  "started_ids ms = concat (map started_id ms)"

lemma started_ids_simps [simp]:
  "started_ids [] = []" "started_ids (m # ms) = started_id m @ started_ids ms"
  "started_ids (ms @ ms') = started_ids ms @ started_ids ms'"
  by (simp_all add: started_ids_def)

context reliable_channel
begin

definition said :: "'c guest \<Rightarrow> guest_to_host list" where
  "said g = sent (g_chan g)"

definition after_send :: "guest_to_host \<Rightarrow> 'c \<Rightarrow> 'c" where
  "after_send m c = snd (send m c)"

lemma g_send_reliable: "g_send send m g = (Inr (), g \<lparr> g_chan := after_send m (g_chan g) \<rparr>)"
  using send_succeeds [of m "g_chan g"]
  by (cases "send m (g_chan g)") (simp add: g_send_def after_send_def)

lemma sent_after_send [simp]: "sent (after_send m c) = sent c @ [m]"
  using send_succeeds [of m c] send_ok [of m c "snd (send m c)"]
  by (cases "send m c") (simp add: after_send_def)

definition after_recv :: "'c \<Rightarrow> 'c" where
  "after_recv c = snd (recv c)"

lemma sent_after_recv [simp]: "sent (after_recv c) = sent c"
  using recv_sent [of c "fst (recv c)" "snd (recv c)"] by (simp add: after_recv_def)

lemma g_recv_reliable:
  "g_recv recv g = (case fst (recv (g_chan g)) of Inl e \<Rightarrow> Inl (Ge_Channel e) | Inr m \<Rightarrow> Inr m,
     g \<lparr> g_chan := after_recv (g_chan g) \<rparr>)"
  by (cases "recv (g_chan g)") (auto simp: g_recv_def after_recv_def split: sum.splits)

text \<open>The invariant that ties the supervisor's fields to its transcript.\<close>

definition honest :: "'c guest \<Rightarrow> bool" where
  "honest g \<longleftrightarrow> wire_in_flight (said g) = g_in_flight g \<and> acks_truthful (said g)
     \<and> started_count (said g) = ended_count (said g) + slot (g_in_flight g)"

lemma honest_step: "honest g \<Longrightarrow> honest (snd (guest_do send recv c g))"
proof (cases c)
  case (Call_Handle m now)
  then show "honest g \<Longrightarrow> ?thesis"
    by (cases m; cases "g_in_flight g")
      (auto simp: guest_handle_def run_turn_def g_send_reliable seqE_def bindE_def honest_def said_def
        acks_truthful_snoc acks_truthful_snoc2 Let_def)
qed (auto simp: guest_op_defs void_def seqE_def bindE_def g_send_reliable g_recv_reliable honest_def
       said_def Let_def acks_truthful_snoc acks_truthful_snoc2
       split: option.splits sum.splits host_to_guest.splits)

lemma honest_run: "honest g \<Longrightarrow> honest (guest_run send recv cs g)"
  by (induction cs rule: rev_induct) (auto intro: honest_step)

lemma unat_dec: "w \<noteq> 0 \<Longrightarrow> unat (w - 1) = unat w - 1" for w :: u32
  by (simp add: unat_minus_one)

lemma unat_inc: "unat w + 1 < 2 ^ 32 \<Longrightarrow> unat (w + 1) = unat w + 1" for w :: u32
  using unat_add_no_overflow [of w 1] by simp

lemma account_step:
  assumes "unat (g_queued g) + 1 < 2 ^ 32"
  shows "started_count (said (snd (guest_do send recv c g))) + unat (g_queued (snd (guest_do send recv c g)))
           = started_count (said g) + unat (g_queued g) + accepted send recv [c] g"
proof (cases c)
  case (Call_Handle m now)
  with assms show ?thesis
    by (cases m; cases "g_in_flight g")
      (auto simp: guest_handle_def run_turn_def g_send_reliable seqE_def bindE_def said_def Let_def unat_inc)
next
  case (Call_Replay now)
  have "0 < unat w" if "w \<noteq> 0" for w :: u32 using that by (simp add: unat_gt_0)
  with assms Call_Replay show ?thesis
    by (auto simp: replay_next_def begin_turn_def void_def seqE_def bindE_def g_send_reliable said_def
        Let_def unat_dec split: option.splits)
qed (use assms in \<open>auto simp: guest_op_defs void_def seqE_def bindE_def g_send_reliable g_recv_reliable
       said_def Let_def unat_inc split: option.splits sum.splits host_to_guest.splits\<close>)

lemma queued_step:
  "unat (g_queued (snd (guest_do send recv c g))) \<le> unat (g_queued g) + 1"
proof -
  have inc: "unat (w + 1) \<le> unat w + 1" for w :: u32
    by (simp add: unat_word_ariths)
  have dec: "w \<noteq> 0 \<Longrightarrow> unat (w - 1) \<le> unat w + 1" for w :: u32
    by (simp add: unat_minus_one)
  show ?thesis
  proof (cases c)
    case (Call_Handle m now)
    then show ?thesis using inc
      by (cases m; cases "g_in_flight g")
        (auto simp: guest_handle_def run_turn_def g_send_reliable seqE_def bindE_def Let_def)
  qed (use inc dec in \<open>auto simp: guest_op_defs void_def seqE_def bindE_def g_send_reliable g_recv_reliable
        Let_def split: option.splits sum.splits host_to_guest.splits\<close>)
qed

lemma account_run:
  assumes "unat (g_queued g) + length cs < 2 ^ 32"
  shows "started_count (said (guest_run send recv cs g)) + unat (g_queued (guest_run send recv cs g))
           = started_count (said g) + unat (g_queued g) + accepted send recv cs g"
  using assms
proof (induction cs arbitrary: g)
  case Nil
  then show ?case by simp
next
  case (Cons c cs)
  let ?g = "snd (guest_do send recv c g)"
  have r: "guest_run send recv (c # cs) g = guest_run send recv cs ?g" by (simp add: guest_run_def)
  have "unat (g_queued ?g) + length cs < 2 ^ 32"
    using Cons.prems queued_step [of c g] by simp
  from Cons.IH [OF this] account_step [of g c] Cons.prems show ?case by (simp add: r)
qed

definition counted :: "nat \<Rightarrow> 'c guest \<Rightarrow> bool" where
  "counted n g \<longleftrightarrow> turn_no (g_next_turn g) \<le> n
     \<and> started_ids (said g) = map (\<lambda>i. TurnId (of_nat i)) [0..<turn_no (g_next_turn g)]"

lemma counted_mono: "counted n g \<Longrightarrow> n \<le> n' \<Longrightarrow> counted n' g"
  by (simp add: counted_def)

lemma counted_begin:
  assumes "counted n g" "n < 2 ^ 64 - 1"
  shows "counted (Suc n) (snd (begin_turn send now g))"
proof -
  have "turn_no (turn_next (g_next_turn g)) = Suc (turn_no (g_next_turn g))"
    using assms by (simp add: counted_def turn_no_next)
  moreover have "g_next_turn g = TurnId (of_nat (turn_no (g_next_turn g)))"
    by (cases "g_next_turn g") simp
  ultimately show ?thesis
    using assms
    by (simp add: counted_def begin_turn_def seqE_def bindE_def g_send_reliable said_def Let_def)
qed

lemma counted_same:
  "counted n g \<Longrightarrow> g_next_turn g' = g_next_turn g \<Longrightarrow> started_ids (said g') = started_ids (said g)
     \<Longrightarrow> counted (Suc n) g'"
  by (simp add: counted_def)

lemma counted_queued: "counted n (g \<lparr> g_queued := q \<rparr>) = counted n g"
  by (simp add: counted_def said_def)

lemma snd_void_begin: "snd (bindE (begin_turn send now) (\<lambda>t. okE (f t)) g) = snd (begin_turn send now g)"
  by (simp add: begin_turn_def seqE_def bindE_def g_send_reliable Let_def)

lemma snd_void: "snd (void m g) = snd (m g)"
  by (cases "m g") (auto simp: void_def bindE_def split: sum.splits)

lemma counted_step:
  assumes "counted n g" "n < 2 ^ 64 - 1" "\<not> host_driven c"
  shows "counted (Suc n) (snd (guest_do send recv c g))"
proof (cases c)
  case (Call_Handle m now)
  with assms show ?thesis
    by (cases m)
      (auto simp: guest_handle_def g_send_reliable said_def Let_def intro!: counted_same [OF assms(1)])
next
  case (Call_Start now)
  with assms counted_begin [OF assms(1,2), of now] show ?thesis
    by (auto simp: start_turn_def snd_void snd_void_begin counted_queued intro: counted_mono
        split: option.splits)
next
  case (Call_Replay now)
  have "counted n (g \<lparr> g_queued := g_queued g - 1 \<rparr>)" using assms(1) by (simp add: counted_queued)
  from counted_begin [OF this assms(2), of now] Call_Replay assms(1) show ?thesis
    by (auto simp: replay_next_def snd_void snd_void_begin intro: counted_mono split: option.splits)
next
  case (Call_Observed now)
  with assms counted_begin [OF assms(1,2), of now] show ?thesis
    by (auto simp: begin_observed_turn_def snd_void intro: counted_mono split: option.splits)
qed (use assms in \<open>auto simp: handshake_def resume_def end_turn_def seqE_def bindE_def g_send_reliable
      g_recv_reliable said_def snd_void split: option.splits sum.splits host_to_guest.splits
      intro!: counted_same [OF assms(1)]\<close>)

lemma counted_run:
  assumes "counted n g" "n + length cs < 2 ^ 64" "\<forall>c \<in> set cs. \<not> host_driven c"
  shows "counted (n + length cs) (guest_run send recv cs g)"
  using assms(2,3)
proof (induction cs rule: rev_induct)
  case Nil
  with assms(1) show ?case by simp
next
  case (snoc c cs)
  then have "counted (n + length cs) (guest_run send recv cs g)" by simp
  from counted_step [OF this, of c] snoc.prems show ?case by simp
qed

end

section \<open>The properties, for the scripted channel\<close>

definition fresh_guest :: "vm_id \<Rightarrow> guestd_version \<Rightarrow> host_to_guest list \<Rightarrow> pseudo_channel guest" where
  "fresh_guest v ver inbox = guest_new v ver \<lparr> pc_inbox = inbox, pc_sent = [] \<rparr>"

abbreviation transcript :: "pseudo_channel guest \<Rightarrow> guest_to_host list" where
  "transcript g \<equiv> pc_sent (g_chan g)"

lemma fresh_guest_simps [simp]:
  "transcript (fresh_guest v ver ms) = []" "g_in_flight (fresh_guest v ver ms) = None"
  "g_queued (fresh_guest v ver ms) = 0" "g_next_turn (fresh_guest v ver ms) = turn_FIRST"
  "g_gated (fresh_guest v ver ms) = False"
  by (simp_all add: fresh_guest_def guest_new_def)

lemma fresh_honest: "pc.honest (fresh_guest v ver ms)"
  by (simp add: pc.honest_def pc.said_def)



definition sample_calls :: "guest_call list" where
  "sample_calls = [Call_Start (Timestamp 1), Call_Handle (DrainRequest (millis 500)) (Timestamp 2),
     Call_End (Timestamp 3), Call_Start (Timestamp 4), Call_Resume (Timestamp 5),
     Call_Replay (Timestamp 6)]"


text \<open>
  Turn ids are never reused. While the host drives no turns of its own, the turns on the wire are
  numbered \<open>0, 1, 2, \<dots>\<close> without a gap, replayed ones included, for the first \<open>2 ^ 64 - 1\<close> calls.
\<close>

theorem turn_ids_consecutive:
  assumes "length cs < 2 ^ 64" "\<forall>c \<in> set cs. \<not> host_driven c"
  shows "let ms = transcript (guest_run pc_send pc_recv cs (fresh_guest v ver inbox))
         in started_ids ms = map (\<lambda>i. TurnId (of_nat i)) [0..<started_count ms]"
proof -
  let ?ms = "transcript (guest_run pc_send pc_recv cs (fresh_guest v ver inbox))"
  have "pc.counted 0 (fresh_guest v ver inbox)" by (simp add: pc.counted_def pc.said_def)
  from pc.counted_run [OF this _ assms(2)] assms(1) obtain n where
    n: "started_ids ?ms = map (\<lambda>i. TurnId (of_nat i)) [0..<n]"
    by (auto simp: pc.counted_def pc.said_def)
  have "length (started_ids ms) = started_count ms" for ms
  proof (induction ms)
    case (Cons m ms)
    then show ?case by (cases m) simp_all
  qed simp
  with n have "started_count ?ms = n" by (metis length_map length_upt minus_nat.diff_0)
  with n show ?thesis by (simp add: Let_def)
qed

lemma turn_ids_consecutive_witness:
  "let ms = transcript (guest_run pc_send pc_recv sample_calls
              (fresh_guest (VmId 1) (GuestdVersion ''0.1.0'') []))
   in started_ids ms = map (\<lambda>i. TurnId (of_nat i)) [0..<started_count ms]"
  using turn_ids_consecutive [of sample_calls "VmId 1" "GuestdVersion ''0.1.0''" "[]"]
  by (simp add: sample_calls_def)

text \<open>
  A deferred host-driven turn loses its identity. \<open>RunTurn t\<close> behind a closed gate is queued, and
  when the backlog is replayed after the gate reopens the turn starts under the guest's own counter
  instead of the id that the host assigned and waits for.
\<close>

theorem deferred_run_turn_loses_id:
  assumes "g_in_flight g = None" "g_gated g" "g_queued g = 0"
  shows "let g1 = snd (guest_handle pc_send (RunTurn t) now g);
             g2 = snd (guest_handle pc_send DrainCancel now g1)
         in fst (replay_next pc_send now g2) = Inr (Some (g_next_turn g))
            \<and> transcript (snd (replay_next pc_send now g2)) = transcript g @ [TurnStarted (g_next_turn g) now]"
  using assms
  by (simp add: guest_handle_def run_turn_def bindE_def seqE_def replay_next_def begin_turn_def
      g_send_def pc_send_def Let_def)

lemma deferred_run_turn_loses_id_witness:
  "let g = (fresh_guest (VmId 1) (GuestdVersion ''0.1.0'') []) \<lparr> g_gated := True \<rparr>;
       g1 = snd (guest_handle pc_send (RunTurn (TurnId 7)) (Timestamp 1) g);
       g2 = snd (guest_handle pc_send DrainCancel (Timestamp 1) g1)
   in fst (replay_next pc_send (Timestamp 1) g2) = Inr (Some (TurnId 0))"
  using deferred_run_turn_loses_id [of "(fresh_guest (VmId 1) (GuestdVersion ''0.1.0'') []) \<lparr> g_gated := True \<rparr>"
      "TurnId 7" "Timestamp 1"]
  by (simp add: Let_def turn_FIRST_def)

end
