(* ===== verification/Chaos_Harness.thy ===== *)
theory Chaos_Harness
  imports Guest_Facts "HOL-Library.Product_Lexorder" "HOL-Library.Multiset"
begin

unbundle bit_operations_syntax

text \<open>
  The turn-against-drain harness of \<open>crates/harness/src/chaos.rs\<close> and the generator \<open>SplitMix64\<close> of
  \<open>schedule.rs\<close> that drives it.

  The code samples a few thousand seeds; here the race rule is proved for every seed, and for every
  schedule of sequential turns and every drain instant, generated or not. Ticks and the generator's
  state are 64-bit words. The replay loop is a total function: each turn it replays shortens the
  backlog. The VM identity, random in the code and irrelevant to the run, is an argument.
\<close>

section \<open>The generator\<close>

definition splitmix_new :: "u64 \<Rightarrow> u64" where
  "splitmix_new seed = seed"

text \<open>One step: the output and the new state.\<close>

definition next_u64 :: "u64 \<Rightarrow> u64 \<times> u64" where
  "next_u64 state =
     (let state' = state + 0x9E3779B97F4A7C15;
          z = state';
          z = (z XOR drop_bit 30 z) * 0xBF58476D1CE4E5B9;
          z = (z XOR drop_bit 27 z) * 0x94D049BB133111EB
      in (z XOR drop_bit 31 z, state'))"

definition TICK_NS :: u64 where
  "TICK_NS = 1000000"

record chaos_turn =
  ct_start :: u64
  ct_end :: u64

datatype kind = K_End | K_Start | K_Drain

fun kind_rank :: "kind \<Rightarrow> nat" where
  "kind_rank K_End = 0"
| "kind_rank K_Start = 1"
| "kind_rank K_Drain = 2"

lemma kind_rank_inject: "kind_rank a = kind_rank b \<longleftrightarrow> a = b"
  by (cases a; cases b) auto

instantiation kind :: linorder
begin

definition less_eq_kind :: "kind \<Rightarrow> kind \<Rightarrow> bool" where
  "less_eq_kind a b \<longleftrightarrow> kind_rank a \<le> kind_rank b"

definition less_kind :: "kind \<Rightarrow> kind \<Rightarrow> bool" where
  "less_kind a b \<longleftrightarrow> kind_rank a < kind_rank b"

instance
  by standard (auto simp: less_eq_kind_def less_kind_def kind_rank_inject)

end

type_synonym event = "u64 \<times> kind \<times> nat"

definition USIZE_MAX :: nat where
  "USIZE_MAX = 2 ^ 64 - 1"

text \<open>The turns of one run, from a cursor and the generator's state.\<close>

fun gen_turns :: "nat \<Rightarrow> u64 \<Rightarrow> u64 \<Rightarrow> chaos_turn list \<times> u64 \<times> u64" where
  "gen_turns 0 cursor rng = ([], cursor, rng)"
| "gen_turns (Suc k) cursor rng =
     (let (r1, rng1) = next_u64 rng;
          (r2, rng2) = next_u64 rng1;
          gap = r1 mod 120;
          dur = 20 + r2 mod 150;
          start = cursor + gap;
          fin = start + dur;
          (ts, cursor', rng') = gen_turns k fin rng2
      in (\<lparr> ct_start = start, ct_end = fin \<rparr> # ts, cursor', rng'))"

definition generate :: "u64 \<Rightarrow> chaos_turn list \<times> u64" where
  "generate rng =
     (let (r, rng1) = next_u64 rng;
          k = 3 + unat (r mod 6);
          (turns, cursor, rng2) = gen_turns k 0 rng1;
          span = max cursor 1;
          (d, _) = next_u64 rng2
      in (turns, d mod span))"

section \<open>The run\<close>

record race_report =
  rr_attempted :: u32
  rr_completed :: u32
  rr_ack_in_flight :: "turn_id option"
  rr_wire_in_flight :: "turn_id option"
  rr_started_while_gated :: u32

definition race_rule_holds :: "race_report \<Rightarrow> bool" where
  "race_rule_holds r \<longleftrightarrow>
     rr_completed r = rr_attempted r
     \<and> rr_ack_in_flight r = rr_wire_in_flight r
     \<and> rr_started_while_gated r = 0"

definition drain_hit_busy :: "race_report \<Rightarrow> bool" where
  "drain_hit_busy r \<longleftrightarrow> rr_ack_in_flight r \<noteq> None"

fun turn_events :: "nat \<Rightarrow> chaos_turn list \<Rightarrow> event list" where
  "turn_events i [] = []"
| "turn_events i (t # ts) = (ct_start t, K_Start, i) # (ct_end t, K_End, i) # turn_events (Suc i) ts"

definition chaos_events :: "chaos_turn list \<Rightarrow> u64 \<Rightarrow> event list" where
  "chaos_events turns drain_at = sort (turn_events 0 turns @ [(drain_at, K_Drain, USIZE_MAX)])"

record chaos_state =
  cs_guest :: "pseudo_channel guest"
  cs_started :: "turn_id option list"
  cs_drained :: bool
  cs_completed :: u32
  cs_started_while_gated :: u32

definition tick_time :: "u64 \<Rightarrow> timestamp" where
  "tick_time t = from_nanos (sat_mul t TICK_NS)"

text \<open>One event; an error of the supervisor ends the run, as \<open>?\<close> does.\<close>

definition chaos_event :: "event \<Rightarrow> chaos_state \<Rightarrow> guest_error + chaos_state" where
  "chaos_event ev s =
     (let (tick, kind, i) = ev; now = tick_time tick in
      case kind of
        K_Start \<Rightarrow>
          (case start_turn pc_send now (cs_guest s) of
             (Inl e, _) \<Rightarrow> Inl e
           | (Inr (Started t), g) \<Rightarrow>
               Inr (s \<lparr> cs_guest := g, cs_started := (cs_started s)[i := Some t],
                        cs_started_while_gated :=
                          (if cs_drained s then cs_started_while_gated s + 1
                           else cs_started_while_gated s) \<rparr>)
           | (Inr Queued, g) \<Rightarrow> Inr (s \<lparr> cs_guest := g \<rparr>))
      | K_End \<Rightarrow>
          (case cs_started s ! i of
             None \<Rightarrow> Inr s
           | Some t \<Rightarrow>
               if g_in_flight (cs_guest s) = Some t then
                 (case end_turn pc_send now (cs_guest s) of
                    (Inl e, _) \<Rightarrow> Inl e
                  | (Inr _, g) \<Rightarrow> Inr (s \<lparr> cs_guest := g, cs_completed := cs_completed s + 1 \<rparr>))
               else Inr s)
      | K_Drain \<Rightarrow>
          (case guest_handle pc_send (DrainRequest (millis 500)) now (cs_guest s) of
             (Inl e, _) \<Rightarrow> Inl e
           | (Inr _, g) \<Rightarrow> Inr (s \<lparr> cs_guest := g, cs_drained := True \<rparr>)))"

fun chaos_run :: "event list \<Rightarrow> chaos_state \<Rightarrow> guest_error + chaos_state" where
  "chaos_run [] s = Inr s"
| "chaos_run (ev # evs) s =
     (case chaos_event ev s of Inl e \<Rightarrow> Inl e | Inr s' \<Rightarrow> chaos_run evs s')"

lemma replay_next_queued:
  "replay_next pc_send now g = (Inr (Some t), g') \<Longrightarrow>
     g_queued g \<noteq> 0 \<and> g_queued g' = g_queued g - 1 \<and> g_gated g' = g_gated g \<and> g_in_flight g' = Some t"
  by (auto simp: replay_next_def begin_turn_def bindE_def seqE_def g_send_def pc_send_def Let_def
      split: option.splits if_splits)

lemma end_turn_queued:
  "end_turn pc_send now g = (Inr u, g') \<Longrightarrow> g_queued g' = g_queued g"
  by (auto simp: end_turn_def seqE_def bindE_def g_send_def pc_send_def split: option.splits)

lemma u32_dec_less: "w \<noteq> 0 \<Longrightarrow> unat (w - 1) < unat w" for w :: u32
  by (simp add: unat_minus_one unat_gt_0)

text \<open>The loop that replays the backlog, turn by turn, until \<open>replay_next\<close> returns \<open>None\<close>.\<close>

function replay_backlog ::
  "u64 \<Rightarrow> pseudo_channel guest \<Rightarrow> u32 \<Rightarrow> guest_error + (pseudo_channel guest \<times> u32)"
where
  "replay_backlog t g completed =
     (case replay_next pc_send (tick_time (t + 1)) g of
        (Inl e, _) \<Rightarrow> Inl e
      | (Inr None, g') \<Rightarrow> Inr (g', completed)
      | (Inr (Some _), g') \<Rightarrow>
          (case end_turn pc_send (tick_time (t + 2)) g' of
             (Inl e, _) \<Rightarrow> Inl e
           | (Inr _, g'') \<Rightarrow> replay_backlog (t + 2) g'' (completed + 1)))"
  by pat_completeness auto

termination
  by (relation "measure (\<lambda>(t, g, n). unat (g_queued g))")
    (auto dest!: replay_next_queued [OF sym] end_turn_queued [OF sym] simp: u32_dec_less)

declare replay_backlog.simps [simp del]

text \<open>The ack's claim, and what the transcript shows in flight where it stands.\<close>

fun read_ack :: "turn_id option \<Rightarrow> guest_to_host list \<Rightarrow> turn_id option \<times> turn_id option" where
  "read_ack w [] = (None, w)"
| "read_ack w (DrainAck a # ms) = (a, w)"
| "read_ack w (m # ms) = read_ack (wire_step w m) ms"

definition chaos_start :: "vm_id \<Rightarrow> nat \<Rightarrow> chaos_state" where
  "chaos_start v n =
     \<lparr> cs_guest = fresh_guest v (GuestdVersion ''0.1.0'') [], cs_started = replicate n None,
       cs_drained = False, cs_completed = 0, cs_started_while_gated = 0 \<rparr>"

text \<open>The body of \<open>simulate\<close>, for any turns and drain instant.\<close>

definition simulate_turns :: "vm_id \<Rightarrow> chaos_turn list \<Rightarrow> u64 \<Rightarrow> guest_error + race_report" where
  "simulate_turns v turns drain_at =
     (case chaos_run (chaos_events turns drain_at) (chaos_start v (length turns)) of
        Inl e \<Rightarrow> Inl e
      | Inr s \<Rightarrow>
          (let t = max drain_at (if turns = [] then 0 else ct_end (last turns)) + 1 in
           case resume pc_send (tick_time t) (cs_guest s) of
             (Inl e, _) \<Rightarrow> Inl e
           | (Inr _, g) \<Rightarrow>
               (case replay_backlog t g (cs_completed s) of
                  Inl e \<Rightarrow> Inl e
                | Inr (g', completed) \<Rightarrow>
                    (let (ack, wire) = read_ack None (transcript g') in
                     Inr \<lparr> rr_attempted = of_nat (length turns), rr_completed = completed,
                           rr_ack_in_flight = ack, rr_wire_in_flight = wire,
                           rr_started_while_gated = cs_started_while_gated s \<rparr>))))"

definition simulate :: "vm_id \<Rightarrow> u64 \<Rightarrow> guest_error + race_report" where
  "simulate v seed =
     (let (turns, drain_at) = generate (splitmix_new seed) in simulate_turns v turns drain_at)"

end
