(* ===== verification/Race_Rule.thy ===== *)
theory Race_Rule
  imports Chaos_Harness
begin

text \<open>
  The race rule, proved for \<open>Chaos_Harness\<close>: first the shape of the sorted event list, then what one
  turn does before and after the drain, then the replay, and last the generator's bounds.
\<close>

declare less_eq_prod_simp [simp del] less_prod_simp [simp del]

section \<open>Sequential turns and their events\<close>

fun turns_from :: "u64 \<Rightarrow> chaos_turn list \<Rightarrow> bool" where
  "turns_from c [] = True"
| "turns_from c (t # ts) = (c \<le> ct_start t \<and> ct_start t < ct_end t \<and> turns_from (ct_end t) ts)"

definition sequential_turns :: "chaos_turn list \<Rightarrow> bool" where
  "sequential_turns ts = turns_from 0 ts"

lemma less_event_iff:
  "(a, k, i) < (b, k', j) \<longleftrightarrow> a < b \<or> a = b \<and> (k < k' \<or> k = k' \<and> i < j)"
  for a b :: u64 and k k' :: kind and i j :: nat
  by (auto simp: less_prod_simp)

lemma le_event_iff:
  "(a, k, i) \<le> (b, k', j) \<longleftrightarrow> a < b \<or> a = b \<and> (k < k' \<or> k = k' \<and> i \<le> j)"
  for a b :: u64 and k k' :: kind and i j :: nat
  by (auto simp: less_eq_prod_simp)

lemma kind_less [simp]: "K_End < K_Start" "K_End < K_Drain" "K_Start < K_Drain"
  "\<not> K_Start < K_End" "\<not> K_Drain < K_End" "\<not> K_Drain < K_Start"
  by (simp_all add: less_kind_def)

text \<open>Later turns' events come after: they start no earlier, and a start beats an end on a tie.\<close>

lemma turn_events_after:
  "turns_from c ts \<Longrightarrow> ev \<in> set (turn_events i ts) \<Longrightarrow> (c, K_End, j) \<le> ev \<and> (c, K_End, j) \<noteq> ev"
proof (induction ts arbitrary: c i j)
  case (Cons t ts)
  have c: "c \<le> ct_start t" "ct_start t < ct_end t" and ts: "turns_from (ct_end t) ts"
    using Cons.prems(1) by simp_all
  consider "ev = (ct_start t, K_Start, i)" | "ev = (ct_end t, K_End, i)"
    | "ev \<in> set (turn_events (Suc i) ts)" using Cons.prems(2) by auto
  then show ?case
  proof cases
    case 3
    from Cons.IH [OF ts 3, of j] have "(ct_end t, K_End, j) \<le> ev" by simp
    moreover have "(c, K_End, j) < (ct_end t, K_End, j)" using c by (auto simp: less_event_iff)
    ultimately show ?thesis by (meson leD less_le_trans less_imp_le)
  qed (use c in \<open>auto simp: le_event_iff\<close>)
qed simp

lemma sorted_turn_events: "turns_from c ts \<Longrightarrow> sorted (turn_events i ts)"
proof (induction ts arbitrary: c i)
  case (Cons t ts)
  have ts: "turns_from (ct_end t) ts" and lt: "ct_start t < ct_end t" using Cons.prems by simp_all
  have "(ct_end t, K_End, i) \<le> ev" if "ev \<in> set (turn_events (Suc i) ts)" for ev
    using turn_events_after [OF ts that, of i] by simp
  moreover have "(ct_start t, K_Start, i) \<le> (ct_end t, K_End, i)" using lt by (simp add: le_event_iff)
  ultimately show ?case using Cons.IH [OF ts] by (auto intro: order_trans)
qed simp

lemma sort_insert_split:
  fixes xs :: "'a::linorder list"
  assumes "sorted xs"
  shows "\<exists>pre post. xs = pre @ post \<and> sort (xs @ [d]) = pre @ d # post"
proof -
  let ?pre = "takeWhile (\<lambda>x. x \<le> d) xs" and ?post = "dropWhile (\<lambda>x. x \<le> d) xs"
  have "sorted (?pre @ d # ?post)"
  proof -
    have "sorted ?pre" "sorted ?post" using assms by (simp_all add: sorted_takeWhile sorted_dropWhile)
    moreover have "\<forall>x \<in> set ?pre. x \<le> d" by (auto dest: set_takeWhileD)
    moreover have "\<forall>y \<in> set ?post. d \<le> y"
    proof
      fix y assume "y \<in> set ?post"
      then obtain z zs where z: "?post = z # zs" by (cases ?post) auto
      then have "\<not> z \<le> d" by (metis hd_dropWhile list.sel(1) list.distinct(1))
      with \<open>sorted ?post\<close> \<open>y \<in> set ?post\<close> z show "d \<le> y" by (auto intro: order_trans)
    qed
    ultimately show ?thesis by (auto simp: sorted_append intro: order_trans)
  qed
  moreover have "mset (?pre @ d # ?post) = mset (xs @ [d])"
  proof -
    have "mset ?pre + mset ?post = mset xs" by (metis mset_append takeWhile_dropWhile_id)
    then show ?thesis by simp
  qed
  ultimately have "sort (xs @ [d]) = ?pre @ d # ?post" by (metis properties_for_sort)
  then show ?thesis by (metis takeWhile_dropWhile_id)
qed

text \<open>Where the drain lands: between two turns, or inside one.\<close>

lemma turn_events_append: "turn_events i (ts @ us) = turn_events i ts @ turn_events (i + length ts) us"
  by (induction ts arbitrary: i) auto

lemma turn_events_split:
  "turn_events i ts = pre @ post \<Longrightarrow>
     (\<exists>as bs. ts = as @ bs \<and> pre = turn_events i as \<and> post = turn_events (i + length as) bs)
   \<or> (\<exists>as t bs. ts = as @ t # bs \<and> pre = turn_events i as @ [(ct_start t, K_Start, i + length as)]
        \<and> post = (ct_end t, K_End, i + length as) # turn_events (Suc (i + length as)) bs)"
proof (induction ts arbitrary: i pre)
  case Nil
  then show ?case by simp
next
  case (Cons t ts)
  show ?case
  proof (cases pre)
    case Nil
    with Cons.prems show ?thesis by (intro disjI1 exI [of _ "[]"] exI [of _ "t # ts"]) simp
  next
    case p1: (Cons e1 pre1)
    show ?thesis
    proof (cases pre1)
      case Nil
      with Cons.prems p1 show ?thesis by (intro disjI2 exI [of _ "[]"] exI [of _ t] exI [of _ ts]) simp
    next
      case (Cons e2 pre2)
      with p1 Cons.prems have "turn_events (Suc i) ts = pre2 @ post"
        and e: "pre = (ct_start t, K_Start, i) # (ct_end t, K_End, i) # pre2" by auto
      from Cons.IH [OF this(1)] show ?thesis
      proof (elim disjE exE conjE)
        fix as bs
        assume "ts = as @ bs" "pre2 = turn_events (Suc i) as" "post = turn_events (Suc i + length as) bs"
        then show ?thesis using e by (intro disjI1 exI [of _ "t # as"] exI [of _ bs]) auto
      next
        fix as u bs
        assume "ts = as @ u # bs" "pre2 = turn_events (Suc i) as @ [(ct_start u, K_Start, Suc i + length as)]"
          "post = (ct_end u, K_End, Suc i + length as) # turn_events (Suc (Suc i + length as)) bs"
        then show ?thesis using e by (intro disjI2 exI [of _ "t # as"] exI [of _ u] exI [of _ bs]) auto
      qed
    qed
  qed
qed

lemma chaos_events_split:
  assumes "sequential_turns ts"
  obtains (idle) as bs where "ts = as @ bs"
      "chaos_events ts d = turn_events 0 as @ (d, K_Drain, USIZE_MAX) # turn_events (length as) bs"
    | (busy) as t bs where "ts = as @ t # bs"
      "chaos_events ts d = turn_events 0 as @ (ct_start t, K_Start, length as) # (d, K_Drain, USIZE_MAX)
         # (ct_end t, K_End, length as) # turn_events (Suc (length as)) bs"
proof -
  from assms have "sorted (turn_events 0 ts)" using sorted_turn_events sequential_turns_def by blast
  from sort_insert_split [OF this, of "(d, K_Drain, USIZE_MAX)"] obtain pre post where
    pp: "turn_events 0 ts = pre @ post" "chaos_events ts d = pre @ (d, K_Drain, USIZE_MAX) # post"
    unfolding chaos_events_def by blast
  from turn_events_split [OF pp(1)] show thesis
    using idle busy pp(2) by (elim disjE exE conjE) auto
qed

section \<open>What the events do\<close>

lemma chaos_run_append:
  "chaos_run (es @ fs) s = (case chaos_run es s of Inl e \<Rightarrow> Inl e | Inr s' \<Rightarrow> chaos_run fs s')"
  by (induction es arbitrary: s) (auto split: sum.splits)

text \<open>Each call on the scripted channel, as an equation on the supervisor.\<close>

definition say :: "guest_to_host \<Rightarrow> pseudo_channel guest \<Rightarrow> pseudo_channel guest" where
  "say m g = g \<lparr> g_chan := (g_chan g) \<lparr> pc_sent := pc_sent (g_chan g) @ [m] \<rparr> \<rparr>"

lemma g_send_pc: "g_send pc_send m g = (Inr (), say m g)"
  by (simp add: g_send_def pc_send_def say_def)

lemma say_simps [simp]:
  "g_in_flight (say m g) = g_in_flight g" "g_gated (say m g) = g_gated g"
  "g_queued (say m g) = g_queued g" "g_next_turn (say m g) = g_next_turn g"
  "transcript (say m g) = transcript g @ [m]"
  by (simp_all add: say_def)

lemma pc_calls:
  "g_in_flight g = None \<Longrightarrow> \<not> g_gated g \<Longrightarrow> start_turn pc_send now g =
     (Inr (Started (g_next_turn g)), say (TurnStarted (g_next_turn g) now)
        (g \<lparr> g_next_turn := turn_next (g_next_turn g), g_in_flight := Some (g_next_turn g) \<rparr>))"
  "g_in_flight g = None \<Longrightarrow> g_gated g \<Longrightarrow>
     start_turn pc_send now g = (Inr Queued, g \<lparr> g_queued := g_queued g + 1 \<rparr>)"
  "g_in_flight g = Some t \<Longrightarrow>
     end_turn pc_send now g = (Inr (), (say (TurnEnded t now) g) \<lparr> g_in_flight := None \<rparr>)"
  "guest_handle pc_send (DrainRequest d) now g =
     (Inr (), say (DrainAck (g_in_flight g)) (g \<lparr> g_gated := True \<rparr>))"
  "resume pc_send now g = (Inr (), (say (Resumed now) g) \<lparr> g_gated := False \<rparr>)"
  by (simp_all add: start_turn_def begin_turn_def end_turn_def guest_handle_def resume_def bindE_def
      seqE_def g_send_pc Let_def)

lemma pc_replay:
  "g_in_flight g = None \<Longrightarrow> \<not> g_gated g \<Longrightarrow> g_queued g = 0 \<Longrightarrow> replay_next pc_send now g = (Inr None, g)"
  "g_in_flight g = None \<Longrightarrow> \<not> g_gated g \<Longrightarrow> g_queued g \<noteq> 0 \<Longrightarrow> replay_next pc_send now g =
     (Inr (Some (g_next_turn g)), say (TurnStarted (g_next_turn g) now)
        (g \<lparr> g_queued := g_queued g - 1, g_next_turn := turn_next (g_next_turn g),
             g_in_flight := Some (g_next_turn g) \<rparr>))"
  by (simp_all add: replay_next_def begin_turn_def bindE_def seqE_def g_send_pc Let_def)

lemma honest_calls:
  assumes "pc.honest g"
  shows "pc.honest (snd (start_turn pc_send now g))" "pc.honest (snd (end_turn pc_send now g))"
    "pc.honest (snd (guest_handle pc_send m now g))" "pc.honest (snd (resume pc_send now g))"
    "pc.honest (snd (replay_next pc_send now g))"
  using pc.honest_step [OF assms, of "Call_Start now"] pc.honest_step [OF assms, of "Call_End now"]
    pc.honest_step [OF assms, of "Call_Handle m now"] pc.honest_step [OF assms, of "Call_Resume now"]
    pc.honest_step [OF assms, of "Call_Replay now"]
  by (simp_all add: pc.snd_void)

text \<open>Between turns before the drain, and between turns after it, with \<open>i\<close> turns behind.\<close>

definition idle_at :: "nat \<Rightarrow> nat \<Rightarrow> chaos_state \<Rightarrow> bool" where
  "idle_at n i s \<longleftrightarrow>
     pc.honest (cs_guest s) \<and> g_in_flight (cs_guest s) = None
     \<and> length (cs_started s) = n \<and> (\<forall>j. i \<le> j \<longrightarrow> j < n \<longrightarrow> cs_started s ! j = None)
     \<and> cs_completed s + g_queued (cs_guest s) = of_nat i \<and> cs_started_while_gated s = 0"

definition open_at :: "nat \<Rightarrow> nat \<Rightarrow> chaos_state \<Rightarrow> bool" where
  "open_at n i s \<longleftrightarrow> idle_at n i s \<and> \<not> cs_drained s \<and> \<not> g_gated (cs_guest s)"

definition acked :: "chaos_state \<Rightarrow> bool" where
  "acked s \<longleftrightarrow> (\<exists>a. DrainAck a \<in> set (transcript (cs_guest s)))"

definition drained_at :: "nat \<Rightarrow> nat \<Rightarrow> chaos_state \<Rightarrow> bool" where
  "drained_at n i s \<longleftrightarrow> idle_at n i s \<and> cs_drained s \<and> g_gated (cs_guest s) \<and> acked s"

lemma open_start:
  assumes "open_at n i s" "i < n"
  shows "\<exists>s' t. chaos_event (a, K_Start, i) s = Inr s' \<and> cs_started s' ! i = Some t
    \<and> g_in_flight (cs_guest s') = Some t \<and> pc.honest (cs_guest s')
    \<and> length (cs_started s') = n \<and> (\<forall>j. Suc i \<le> j \<longrightarrow> j < n \<longrightarrow> cs_started s' ! j = None)
    \<and> cs_completed s' + g_queued (cs_guest s') = of_nat i \<and> cs_started_while_gated s' = 0
    \<and> \<not> cs_drained s' \<and> \<not> g_gated (cs_guest s')"
proof -
  let ?g = "cs_guest s"
  have g: "g_in_flight ?g = None" "\<not> g_gated ?g" "pc.honest ?g"
    using assms by (simp_all add: open_at_def idle_at_def)
  show ?thesis
    using assms honest_calls(1) [OF g(3), of "tick_time a"]
    by (simp add: chaos_event_def Let_def pc_calls(1) [OF g(1,2)] open_at_def idle_at_def nth_list_update)
qed

lemma end_in_flight:
  assumes "cs_started s ! i = Some t" "g_in_flight (cs_guest s) = Some t" "pc.honest (cs_guest s)"
  shows "\<exists>s'. chaos_event (b, K_End, i) s = Inr s' \<and> g_in_flight (cs_guest s') = None
    \<and> pc.honest (cs_guest s') \<and> cs_started s' = cs_started s
    \<and> cs_completed s' = cs_completed s + 1 \<and> g_queued (cs_guest s') = g_queued (cs_guest s)
    \<and> cs_started_while_gated s' = cs_started_while_gated s \<and> cs_drained s' = cs_drained s
    \<and> g_gated (cs_guest s') = g_gated (cs_guest s) \<and> (acked s \<longrightarrow> acked s')"
  using assms honest_calls(2) [OF assms(3), of "tick_time b"]
  by (simp add: chaos_event_def Let_def pc_calls(3) [OF assms(2)] acked_def)

lemma open_turn:
  assumes "open_at n i s" "i < n"
  shows "\<exists>s'. chaos_run [(a, K_Start, i), (b, K_End, i)] s = Inr s' \<and> open_at n (Suc i) s'"
proof -
  from open_start [OF assms, of a] obtain s1 t where
    s1: "chaos_event (a, K_Start, i) s = Inr s1" "cs_started s1 ! i = Some t"
      "g_in_flight (cs_guest s1) = Some t" "pc.honest (cs_guest s1)" and
    r1: "length (cs_started s1) = n" "\<forall>j. Suc i \<le> j \<longrightarrow> j < n \<longrightarrow> cs_started s1 ! j = None"
      "cs_completed s1 + g_queued (cs_guest s1) = of_nat i" "cs_started_while_gated s1 = 0"
      "\<not> cs_drained s1" "\<not> g_gated (cs_guest s1)"
    by blast
  from end_in_flight [OF s1(2,3,4), of b] obtain s2 where
    s2: "chaos_event (b, K_End, i) s1 = Inr s2" "g_in_flight (cs_guest s2) = None"
      "pc.honest (cs_guest s2)" "cs_started s2 = cs_started s1" "cs_completed s2 = cs_completed s1 + 1"
      "g_queued (cs_guest s2) = g_queued (cs_guest s1)"
      "cs_started_while_gated s2 = cs_started_while_gated s1" "cs_drained s2 = cs_drained s1"
      "g_gated (cs_guest s2) = g_gated (cs_guest s1)"
    by blast
  have "cs_completed s2 + g_queued (cs_guest s2) = 1 + (cs_completed s1 + g_queued (cs_guest s1))"
    by (simp only: s2 add.commute add.left_commute)
  then have "open_at n (Suc i) s2" using s2 r1 by (simp add: open_at_def idle_at_def)
  with s1(1) s2(1) show ?thesis by simp
qed

lemma drained_turn:
  assumes "drained_at n i s" "i < n"
  shows "\<exists>s'. chaos_run [(a, K_Start, i), (b, K_End, i)] s = Inr s' \<and> drained_at n (Suc i) s'"
proof -
  let ?g = "cs_guest s"
  have g: "g_in_flight ?g = None" "g_gated ?g" "pc.honest ?g"
    using assms by (simp_all add: drained_at_def idle_at_def)
  let ?s = "s \<lparr> cs_guest := ?g \<lparr> g_queued := g_queued ?g + 1 \<rparr> \<rparr>"
  have 1: "chaos_event (a, K_Start, i) s = Inr ?s"
    by (simp add: chaos_event_def Let_def pc_calls(2) [OF g(1,2)])
  have 2: "chaos_event (b, K_End, i) ?s = Inr ?s"
    using assms by (simp add: chaos_event_def Let_def drained_at_def idle_at_def)
  have "pc.honest (?g \<lparr> g_queued := g_queued ?g + 1 \<rparr>)"
    using honest_calls(1) [OF g(3), of "tick_time a"] by (simp add: pc_calls(2) [OF g(1,2)])
  moreover have "cs_completed s + (g_queued ?g + 1) = 1 + (cs_completed s + g_queued ?g)"
    by (simp add: add.commute add.left_commute)
  ultimately have "drained_at n (Suc i) ?s"
    using assms by (simp add: drained_at_def idle_at_def acked_def)
  with 1 2 show ?thesis by simp
qed

lemma chaos_run_two:
  "chaos_run (e # f # es) s = (case chaos_run [e, f] s of Inl x \<Rightarrow> Inl x | Inr s' \<Rightarrow> chaos_run es s')"
  using chaos_run_append [of "[e, f]" es s] by simp

lemma open_turns:
  "open_at n i s \<Longrightarrow> i + length ts \<le> n \<Longrightarrow>
     \<exists>s'. chaos_run (turn_events i ts) s = Inr s' \<and> open_at n (i + length ts) s'"
proof (induction ts arbitrary: i s)
  case (Cons t ts)
  then obtain s1 where s1: "chaos_run [(ct_start t, K_Start, i), (ct_end t, K_End, i)] s = Inr s1"
    "open_at n (Suc i) s1" using open_turn [of n i s "ct_start t" "ct_end t"] by auto
  from Cons.IH [OF s1(2)] Cons.prems show ?case
    by (simp add: chaos_run_two [of _ _ "turn_events (Suc i) ts"] s1(1) del: chaos_run.simps)
qed simp

lemma drained_turns:
  "drained_at n i s \<Longrightarrow> i + length ts \<le> n \<Longrightarrow>
     \<exists>s'. chaos_run (turn_events i ts) s = Inr s' \<and> drained_at n (i + length ts) s'"
proof (induction ts arbitrary: i s)
  case (Cons t ts)
  then obtain s1 where s1: "chaos_run [(ct_start t, K_Start, i), (ct_end t, K_End, i)] s = Inr s1"
    "drained_at n (Suc i) s1" using drained_turn [of n i s "ct_start t" "ct_end t"] by auto
  from Cons.IH [OF s1(2)] Cons.prems show ?case
    by (simp add: chaos_run_two [of _ _ "turn_events (Suc i) ts"] s1(1) del: chaos_run.simps)
qed simp

section \<open>The drain\<close>

lemma drain_event:
  assumes "pc.honest (cs_guest s)"
  shows "\<exists>s'. chaos_event (d, K_Drain, j) s = Inr s' \<and> pc.honest (cs_guest s') \<and> acked s'
    \<and> g_in_flight (cs_guest s') = g_in_flight (cs_guest s) \<and> cs_drained s' \<and> g_gated (cs_guest s')
    \<and> cs_started s' = cs_started s \<and> cs_completed s' = cs_completed s
    \<and> g_queued (cs_guest s') = g_queued (cs_guest s)
    \<and> cs_started_while_gated s' = cs_started_while_gated s"
  using honest_calls(3) [OF assms, of "DrainRequest (millis 500)" "tick_time d"]
  by (simp add: chaos_event_def Let_def pc_calls(4) acked_def) blast

lemma drain_when_idle:
  assumes "open_at n i s"
  shows "\<exists>s'. chaos_event (d, K_Drain, j) s = Inr s' \<and> drained_at n i s'"
  using drain_event [of s d j] assms by (auto simp: open_at_def idle_at_def drained_at_def)

lemma drain_when_busy:
  assumes "open_at n i s" "i < n"
  shows "\<exists>s'. chaos_run [(a, K_Start, i), (d, K_Drain, j), (b, K_End, i)] s = Inr s' \<and> drained_at n (Suc i) s'"
proof -
  from open_start [OF assms, of a] obtain s1 t where
    s1: "chaos_event (a, K_Start, i) s = Inr s1" "cs_started s1 ! i = Some t"
      "g_in_flight (cs_guest s1) = Some t" "pc.honest (cs_guest s1)" and
    r1: "length (cs_started s1) = n" "\<forall>j. Suc i \<le> j \<longrightarrow> j < n \<longrightarrow> cs_started s1 ! j = None"
      "cs_completed s1 + g_queued (cs_guest s1) = of_nat i" "cs_started_while_gated s1 = 0"
    by blast
  from drain_event [OF s1(4), of d j] obtain s2 where
    s2: "chaos_event (d, K_Drain, j) s1 = Inr s2" "pc.honest (cs_guest s2)" "acked s2"
      "g_in_flight (cs_guest s2) = g_in_flight (cs_guest s1)" "cs_drained s2" "g_gated (cs_guest s2)"
      "cs_started s2 = cs_started s1" "cs_completed s2 = cs_completed s1"
      "g_queued (cs_guest s2) = g_queued (cs_guest s1)"
      "cs_started_while_gated s2 = cs_started_while_gated s1"
    by blast
  have "cs_started s2 ! i = Some t" "g_in_flight (cs_guest s2) = Some t" using s1 s2 by simp_all
  from end_in_flight [OF this s2(2), of b] obtain s3 where
    s3: "chaos_event (b, K_End, i) s2 = Inr s3" "g_in_flight (cs_guest s3) = None"
      "pc.honest (cs_guest s3)" "cs_started s3 = cs_started s2" "cs_completed s3 = cs_completed s2 + 1"
      "g_queued (cs_guest s3) = g_queued (cs_guest s2)"
      "cs_started_while_gated s3 = cs_started_while_gated s2" "cs_drained s3 = cs_drained s2"
      "g_gated (cs_guest s3) = g_gated (cs_guest s2)" "acked s2 \<longrightarrow> acked s3"
    by blast
  have "cs_completed s3 + g_queued (cs_guest s3) = 1 + (cs_completed s1 + g_queued (cs_guest s1))"
    by (simp only: s3 s2 add.commute add.left_commute)
  then have "drained_at n (Suc i) s3"
    using s3 s2 r1 by (simp add: drained_at_def idle_at_def)
  with s1(1) s2(1) s3(1) show ?thesis by simp
qed

lemma chaos_events_run:
  assumes "sequential_turns ts"
  shows "\<exists>s. chaos_run (chaos_events ts d) (chaos_start v (length ts)) = Inr s
    \<and> drained_at (length ts) (length ts) s"
proof -
  let ?s = "chaos_start v (length ts)"
  have s0: "open_at (length ts) 0 ?s"
    by (simp add: open_at_def idle_at_def chaos_start_def fresh_honest)
  show ?thesis
  proof (cases rule: chaos_events_split [OF assms, of d])
    case (1 as bs)
    from open_turns [OF s0, of as] 1(1) obtain s1 where
      s1: "chaos_run (turn_events 0 as) ?s = Inr s1" "open_at (length ts) (length as) s1" by auto
    from drain_when_idle [OF s1(2), of d USIZE_MAX] obtain s2 where
      s2: "chaos_event (d, K_Drain, USIZE_MAX) s1 = Inr s2" "drained_at (length ts) (length as) s2" by blast
    from drained_turns [OF s2(2), of bs] 1(1) obtain s3 where
      "chaos_run (turn_events (length as) bs) s2 = Inr s3" "drained_at (length ts) (length ts) s3" by auto
    with s1(1) s2(1) show ?thesis by (simp add: 1(2) chaos_run_append)
  next
    case (2 as t bs)
    from open_turns [OF s0, of as] 2(1) obtain s1 where
      s1: "chaos_run (turn_events 0 as) ?s = Inr s1" "open_at (length ts) (length as) s1" by auto
    let ?mid = "[(ct_start t, K_Start, length as), (d, K_Drain, USIZE_MAX), (ct_end t, K_End, length as)]"
    have "length as < length ts" using 2(1) by simp
    from drain_when_busy [OF s1(2) this] obtain s2 where
      s2: "chaos_run ?mid s1 = Inr s2" "drained_at (length ts) (Suc (length as)) s2" by blast
    from drained_turns [OF s2(2), of bs] 2(1) obtain s3 where
      s3: "chaos_run (turn_events (Suc (length as)) bs) s2 = Inr s3" "drained_at (length ts) (length ts) s3"
      by auto
    have "chaos_events ts d = turn_events 0 as @ ?mid @ turn_events (Suc (length as)) bs"
      by (simp add: 2(2))
    then show ?thesis
      using s1(1) s2(1) s3 by (simp only: chaos_run_append sum.case) blast
  qed
qed

section \<open>Resume and replay\<close>

lemma transcript_grows:
  "pc.honest g \<Longrightarrow> \<not> g_gated g \<Longrightarrow> g_in_flight g = None \<Longrightarrow>
     \<exists>g' ms. replay_backlog t g n = Inr (g', n + g_queued g) \<and> pc.honest g'
       \<and> transcript g' = transcript g @ ms"
proof (induction "unat (g_queued g)" arbitrary: t g n rule: less_induct)
  case less
  show ?case
  proof (cases "g_queued g = 0")
    case True
    with less.prems show ?thesis by (subst replay_backlog.simps) (simp add: pc_replay(1))
  next
    case False
    let ?t = "g_next_turn g"
    let ?g1 = "say (TurnStarted ?t (tick_time (t + 1)))
        (g \<lparr> g_queued := g_queued g - 1, g_next_turn := turn_next ?t, g_in_flight := Some ?t \<rparr>)"
    let ?g2 = "(say (TurnEnded ?t (tick_time (t + 2))) ?g1) \<lparr> g_in_flight := None \<rparr>"
    note r = pc_replay(2) [OF less.prems(3,2) False, of "tick_time (t + 1)"]
    have e: "end_turn pc_send (tick_time (t + 2)) ?g1 = (Inr (), ?g2)" by (rule pc_calls(3)) simp
    have h1: "pc.honest ?g1" using honest_calls(5) [OF less.prems(1), of "tick_time (t + 1)"] by (simp add: r)
    have h2: "pc.honest ?g2" using honest_calls(2) [OF h1, of "tick_time (t + 2)"] by (simp add: e)
    have lt: "unat (g_queued ?g2) < unat (g_queued g)" using False by (simp add: u32_dec_less)
    have st: "\<not> g_gated ?g2" "g_in_flight ?g2 = None" using less.prems(2) by simp_all
    from less.hyps [OF lt h2 st, where t = "t + 2" and n = "n + 1"] obtain g' ms where
      ih: "replay_backlog (t + 2) ?g2 (n + 1) = Inr (g', (n + 1) + g_queued ?g2)" "pc.honest g'"
        "transcript g' = transcript ?g2 @ ms" by blast
    have "replay_backlog t g n = Inr (g', n + g_queued g)"
      by (subst replay_backlog.simps) (simp add: r e ih(1))
    then show ?thesis using ih(2,3) by auto
  qed
qed

lemma read_ack_truthful:
  "read_ack (wire_in_flight pre) ms = (a, w) \<Longrightarrow> acks_truthful (pre @ ms) \<Longrightarrow>
     DrainAck b \<in> set ms \<Longrightarrow> a = w"
proof (induction ms arbitrary: pre)
  case (Cons m ms)
  show ?case
  proof (cases m)
    case (DrainAck c)
    with Cons.prems(1) have "a = c" "w = wire_in_flight pre" by simp_all
    moreover have "(pre @ m # ms) ! length pre = DrainAck c" using DrainAck by simp
    then have "c = wire_in_flight (take (length pre) (pre @ m # ms))"
      using Cons.prems(2) unfolding acks_truthful_def by (metis length_append length_Cons less_add_Suc1 add_Suc_right)
    ultimately show ?thesis by simp
  qed (use Cons.prems Cons.IH [of "pre @ [m]"] in simp_all)
qed simp

section \<open>The theorem\<close>

lemma simulate_turns_ok:
  assumes "sequential_turns turns"
  shows "\<exists>r. simulate_turns v turns drain_at = Inr r \<and> race_rule_holds r
    \<and> rr_attempted r = of_nat (length turns)"
proof -
  from chaos_events_run [OF assms, of drain_at v] obtain s where
    s: "chaos_run (chaos_events turns drain_at) (chaos_start v (length turns)) = Inr s"
      "drained_at (length turns) (length turns) s" by blast
  let ?t = "max drain_at (if turns = [] then 0 else ct_end (last turns)) + 1"
  let ?g = "(say (Resumed (tick_time ?t)) (cs_guest s)) \<lparr> g_gated := False \<rparr>"
  have h: "pc.honest (cs_guest s)" "g_in_flight (cs_guest s) = None"
    "cs_completed s + g_queued (cs_guest s) = of_nat (length turns)"
    "cs_started_while_gated s = 0" "acked s"
    using s(2) by (simp_all add: drained_at_def idle_at_def)
  have "pc.honest ?g" using honest_calls(4) [OF h(1), of "tick_time ?t"] by (simp add: pc_calls(5))
  from transcript_grows [OF this, of ?t "cs_completed s"] h(2) obtain g' ms where
    g': "replay_backlog ?t ?g (cs_completed s) = Inr (g', cs_completed s + g_queued (cs_guest s))"
      "pc.honest g'" "transcript g' = transcript ?g @ ms" by auto
  obtain ack wire where ra: "read_ack None (transcript g') = (ack, wire)" by fastforce
  have "ack = wire"
  proof -
    from h(5) g'(3) obtain b where "DrainAck b \<in> set (transcript g')" by (auto simp: acked_def)
    with read_ack_truthful [of "[]" "transcript g'" ack wire b] ra g'(2) show ?thesis
      by (simp add: pc.honest_def pc.said_def)
  qed
  then show ?thesis
    using s(1) g'(1) ra h(3,4) by (simp add: simulate_turns_def pc_calls(5) Let_def race_rule_holds_def)
qed

text \<open>
  C18. The race rule, for every schedule. For any sequential turns, fewer than \<open>2 ^ 32\<close>, and a drain at any
  instant, the run ends without an error of the supervisor, and its report shows what the rule
  demands: as many turns completed as were attempted, an ack that names the turn in flight on the
  wire, and no start behind the gate.
\<close>

theorem race_rule_any_schedule:
  assumes "sequential_turns turns"
  shows "\<exists>r. simulate_turns v turns drain_at = Inr r \<and> race_rule_holds r
    \<and> rr_attempted r = of_nat (length turns)"
  using assms by (rule simulate_turns_ok)

lemma race_rule_any_schedule_witness:
  "\<exists>r. simulate_turns (VmId 1) [\<lparr> ct_start = 5, ct_end = 30 \<rparr>, \<lparr> ct_start = 30, ct_end = 60 \<rparr>] 30 = Inr r
     \<and> race_rule_holds r \<and> rr_attempted r = of_nat 2"
  using race_rule_any_schedule
    [of "[\<lparr> ct_start = 5, ct_end = 30 \<rparr>, \<lparr> ct_start = 30, ct_end = 60 \<rparr>]" "VmId 1" 30]
  by (simp add: sequential_turns_def)

text \<open>The generator's turns are sequential: the cursor stays far below \<open>2 ^ 64\<close>.\<close>

lemma unat_mod_less: "0 < m \<Longrightarrow> unat (r mod m) < unat m" for r m :: u64
  by (metis unat_mod_distrib mod_less_divisor unat_gt_0 word_gt_0 not_gr_zero)

lemma gen_step_bounds:
  fixes c r1 r2 st fin :: u64
  assumes "unat c + 289 < 2 ^ 64" and st_def: "st = c + r1 mod 120"
    and fin_def: "fin = st + (20 + r2 mod 150)"
  shows "c \<le> st" "st < fin" "unat fin < unat c + 289"
proof -
  have a: "unat (r1 mod 120) < 120" and b: "unat (r2 mod 150) < 150"
    using unat_mod_less [of 120 r1] unat_mod_less [of 150 r2] by (simp_all add: word_gt_0)
  have st: "unat st = unat c + unat (r1 mod 120)"
    unfolding st_def using assms(1) a by (intro unat_add_no_overflow) simp
  have d: "unat (20 + r2 mod 150) = 20 + unat (r2 mod 150)"
    using b unat_add_no_overflow [of 20 "r2 mod 150"] by simp
  have fin: "unat fin = unat st + (20 + unat (r2 mod 150))"
    unfolding fin_def using assms(1) a b st d by (subst unat_add_no_overflow) simp_all
  show "c \<le> st" "st < fin" "unat fin < unat c + 289"
    using st fin a b by (simp_all add: word_le_nat_alt word_less_nat_alt)
qed

lemma gen_turns_sequential:
  "gen_turns k c rng = (ts, c', rng') \<Longrightarrow> unat c + 289 * k < 2 ^ 64 \<Longrightarrow>
     turns_from c ts \<and> length ts = k"
proof (induction k arbitrary: c rng ts)
  case (Suc k)
  obtain r1 g1 where r1: "next_u64 rng = (r1, g1)" by fastforce
  obtain r2 g2 where r2: "next_u64 g1 = (r2, g2)" by fastforce
  let ?st = "c + r1 mod 120"
  let ?fin = "?st + (20 + r2 mod 150)"
  obtain us where us: "gen_turns k ?fin g2 = (us, c', rng')" and
    ts: "ts = \<lparr> ct_start = ?st, ct_end = ?fin \<rparr> # us"
    using Suc.prems(1) r1 r2 by (auto simp: Let_def split: prod.splits)
  have b: "c \<le> ?st" "?st < ?fin" "unat ?fin < unat c + 289"
    using gen_step_bounds [of c ?st r1 ?fin r2] Suc.prems(2) by simp_all
  with Suc.prems(2) have "unat ?fin + 289 * k < 2 ^ 64" by simp
  from Suc.IH [OF us this] b ts show ?case by simp
qed simp

lemma generate_sequential:
  assumes "generate rng = (turns, d)"
  shows "sequential_turns turns \<and> 3 \<le> length turns \<and> length turns \<le> 8"
proof -
  obtain r rng1 where r: "next_u64 rng = (r, rng1)" by fastforce
  let ?k = "3 + unat (r mod 6)"
  have k: "unat (r mod 6) < 6" using unat_mod_less [of 6 r] by (simp add: word_gt_0)
  obtain ts c rng2 where g: "gen_turns ?k 0 rng1 = (ts, c, rng2)" by (metis prod_cases3)
  then have "turns = ts" using assms r by (auto simp: generate_def Let_def split: prod.splits)
  with gen_turns_sequential [OF g] k show ?thesis by (simp add: sequential_turns_def)
qed

text \<open>
  C1. The race rule, for every seed: all \<open>2 ^ 64\<close> runs the harness can draw, not the two thousand it samples,
  complete without an error and uphold the rule, over three to eight turns each.
\<close>

theorem race_rule_all_seeds:
  "\<exists>r. simulate v seed = Inr r \<and> race_rule_holds r
     \<and> 3 \<le> unat (rr_attempted r) \<and> unat (rr_attempted r) \<le> 8"
proof -
  obtain turns d where g: "generate (splitmix_new seed) = (turns, d)" by fastforce
  from generate_sequential [OF g] have ts: "sequential_turns turns" "3 \<le> length turns" "length turns \<le> 8"
    by simp_all
  from simulate_turns_ok [OF ts(1), of v d] obtain r where
    "simulate v seed = Inr r" "race_rule_holds r" "rr_attempted r = of_nat (length turns)"
    by (auto simp: simulate_def g)
  moreover have "unat (of_nat (length turns) :: u32) = length turns"
    using ts(3) by (simp add: unsigned_of_nat take_bit_nat_eq_self_iff)
  ultimately show ?thesis using ts by auto
qed

end
