(* ===== verification/Proto_Fsm.thy ===== *)
theory Proto_Fsm
  imports Proto_Ids
begin

text \<open>
  The migration state machine of \<open>crates/proto/src/fsm.rs\<close>.

  In the code the phase is a type parameter and the methods of \<open>Migration\<close> at a phase are the legal
  transitions. Here the phase is a field; a transition that does not exist at a phase, a compile
  error in the code, is \<open>None\<close>. The step relation collects the transitions.
\<close>

datatype migration_state =
    St_Stable | St_Intent | St_Draining | St_Quiescent | St_Snapshotting | St_Transferring
  | St_Restoring | St_CutOver | St_Cleanup | St_Aborted

datatype phase =
    Ph_Intent | Ph_Draining | Ph_Quiescent | Ph_Snapshotting | Ph_Transferring | Ph_Restoring
  | Ph_CutOver | Ph_Cleanup | Ph_Stable

fun phase_STATE :: "phase \<Rightarrow> migration_state" where
  "phase_STATE Ph_Intent = St_Intent"
| "phase_STATE Ph_Draining = St_Draining"
| "phase_STATE Ph_Quiescent = St_Quiescent"
| "phase_STATE Ph_Snapshotting = St_Snapshotting"
| "phase_STATE Ph_Transferring = St_Transferring"
| "phase_STATE Ph_Restoring = St_Restoring"
| "phase_STATE Ph_CutOver = St_CutOver"
| "phase_STATE Ph_Cleanup = St_Cleanup"
| "phase_STATE Ph_Stable = St_Aborted"

fun abortable :: "phase \<Rightarrow> bool" where
  "abortable Ph_Intent = True"
| "abortable Ph_Draining = True"
| "abortable Ph_Quiescent = True"
| "abortable _ = False"

record migration =
  mig_vm :: vm_id
  mig_from :: host_id
  mig_to :: host_id
  mig_phase :: phase

definition mig_state :: "migration \<Rightarrow> migration_state" where
  "mig_state m = phase_STATE (mig_phase m)"

definition advance :: "phase \<Rightarrow> migration \<Rightarrow> migration" where
  "advance t m = \<lparr> mig_vm = mig_vm m, mig_from = mig_from m, mig_to = mig_to m, mig_phase = t \<rparr>"

definition mig_intent :: "vm_id \<Rightarrow> host_id \<Rightarrow> host_id \<Rightarrow> migration" where
  "mig_intent vm a b = \<lparr> mig_vm = vm, mig_from = a, mig_to = b, mig_phase = Ph_Intent \<rparr>"

text \<open>A method of \<open>Migration<p>\<close> that returns \<open>Migration<q>\<close>.\<close>

definition method_at :: "phase \<Rightarrow> phase \<Rightarrow> migration \<Rightarrow> migration option" where
  "method_at p q m = (if mig_phase m = p then Some (advance q m) else None)"

definition mig_drain :: "migration \<Rightarrow> migration option" where
  "mig_drain = method_at Ph_Intent Ph_Draining"

definition mig_quiescent :: "migration \<Rightarrow> migration option" where
  "mig_quiescent = method_at Ph_Draining Ph_Quiescent"

definition mig_snapshot :: "migration \<Rightarrow> migration option" where
  "mig_snapshot = method_at Ph_Quiescent Ph_Snapshotting"

definition mig_transfer :: "migration \<Rightarrow> migration option" where
  "mig_transfer = method_at Ph_Snapshotting Ph_Transferring"

definition mig_restore :: "migration \<Rightarrow> migration option" where
  "mig_restore = method_at Ph_Transferring Ph_Restoring"

definition mig_cutover :: "migration \<Rightarrow> migration option" where
  "mig_cutover = method_at Ph_Restoring Ph_CutOver"

definition mig_cleanup :: "migration \<Rightarrow> migration option" where
  "mig_cleanup = method_at Ph_CutOver Ph_Cleanup"

definition mig_abort :: "migration \<Rightarrow> migration option" where
  "mig_abort m = (if abortable (mig_phase m) then Some (advance Ph_Stable m) else None)"

lemmas mig_methods = mig_drain_def mig_quiescent_def mig_snapshot_def mig_transfer_def
  mig_restore_def mig_cutover_def mig_cleanup_def

section \<open>The step relation\<close>

inductive fsm_step :: "migration \<Rightarrow> migration \<Rightarrow> bool" where
  fsm_drain: "mig_drain m = Some m' \<Longrightarrow> fsm_step m m'"
| fsm_quiescent: "mig_quiescent m = Some m' \<Longrightarrow> fsm_step m m'"
| fsm_snapshot: "mig_snapshot m = Some m' \<Longrightarrow> fsm_step m m'"
| fsm_transfer: "mig_transfer m = Some m' \<Longrightarrow> fsm_step m m'"
| fsm_restore: "mig_restore m = Some m' \<Longrightarrow> fsm_step m m'"
| fsm_cutover: "mig_cutover m = Some m' \<Longrightarrow> fsm_step m m'"
| fsm_cleanup: "mig_cleanup m = Some m' \<Longrightarrow> fsm_step m m'"
| fsm_abort: "mig_abort m = Some m' \<Longrightarrow> fsm_step m m'"

inductive_cases fsm_stepE: "fsm_step m m'"

text \<open>The phases after memory has been dumped.\<close>

fun past_snapshot :: "phase \<Rightarrow> bool" where
  "past_snapshot Ph_Snapshotting = True"
| "past_snapshot Ph_Transferring = True"
| "past_snapshot Ph_Restoring = True"
| "past_snapshot Ph_CutOver = True"
| "past_snapshot Ph_Cleanup = True"
| "past_snapshot _ = False"

fun phase_succ :: "phase \<Rightarrow> phase option" where
  "phase_succ Ph_Intent = Some Ph_Draining"
| "phase_succ Ph_Draining = Some Ph_Quiescent"
| "phase_succ Ph_Quiescent = Some Ph_Snapshotting"
| "phase_succ Ph_Snapshotting = Some Ph_Transferring"
| "phase_succ Ph_Transferring = Some Ph_Restoring"
| "phase_succ Ph_Restoring = Some Ph_CutOver"
| "phase_succ Ph_CutOver = Some Ph_Cleanup"
| "phase_succ _ = None"

lemma fsm_step_iff:
  "fsm_step m m' \<longleftrightarrow>
     (\<exists>q. m' = advance q m
        \<and> (phase_succ (mig_phase m) = Some q \<or> abortable (mig_phase m) \<and> q = Ph_Stable))"
proof
  show "fsm_step m m' \<Longrightarrow> \<exists>q. m' = advance q m
        \<and> (phase_succ (mig_phase m) = Some q \<or> abortable (mig_phase m) \<and> q = Ph_Stable)"
    by (erule fsm_stepE) (auto simp: mig_methods method_at_def mig_abort_def split: if_splits)
next
  assume "\<exists>q. m' = advance q m
        \<and> (phase_succ (mig_phase m) = Some q \<or> abortable (mig_phase m) \<and> q = Ph_Stable)"
  then show "fsm_step m m'"
    by (cases "mig_phase m")
      (auto simp: mig_methods method_at_def mig_abort_def intro: fsm_step.intros)
qed

lemma advance_simps [simp]:
  "mig_vm (advance q m) = mig_vm m" "mig_from (advance q m) = mig_from m"
  "mig_to (advance q m) = mig_to m" "mig_phase (advance q m) = q"
  "advance q (advance p m) = advance q m"
  by (simp_all add: advance_def)

lemma advance_same: "mig_phase m = p \<Longrightarrow> advance p m = m"
  by (cases m) (simp add: advance_def)

lemma fsm_step_identity:
  "fsm_step m m' \<Longrightarrow> mig_vm m' = mig_vm m \<and> mig_from m' = mig_from m \<and> mig_to m' = mig_to m"
  by (auto simp: fsm_step_iff)

lemma fsm_steps_identity:
  "fsm_step\<^sup>*\<^sup>* m m' \<Longrightarrow> mig_vm m' = mig_vm m \<and> mig_from m' = mig_from m \<and> mig_to m' = mig_to m"
  by (induction rule: rtranclp_induct) (auto dest: fsm_step_identity)

lemma past_snapshot_step: "fsm_step m m' \<Longrightarrow> past_snapshot (mig_phase m) \<Longrightarrow> past_snapshot (mig_phase m')"
  by (cases "mig_phase m") (auto simp: fsm_step_iff)

lemma past_snapshot_steps:
  "fsm_step\<^sup>*\<^sup>* m m' \<Longrightarrow> past_snapshot (mig_phase m) \<Longrightarrow> past_snapshot (mig_phase m')"
  by (induction rule: rtranclp_induct) (auto dest: past_snapshot_step)

lemma not_abortable_past_snapshot: "past_snapshot p \<Longrightarrow> \<not> abortable p"
  by (cases p) auto

lemma fsm_forward: "phase_succ (mig_phase m) = Some q \<Longrightarrow> fsm_step\<^sup>*\<^sup>* (advance q m) m' \<Longrightarrow> fsm_step\<^sup>*\<^sup>* m m'"
  by (rule converse_rtranclp_into_rtranclp) (auto simp: fsm_step_iff)

lemma fsm_reaches_cleanup:
  assumes "past_snapshot (mig_phase m)"
  shows "fsm_step\<^sup>*\<^sup>* m (advance Ph_Cleanup m)"
proof -
  have cl: "fsm_step\<^sup>*\<^sup>* m (advance Ph_Cleanup m)" if "mig_phase m = Ph_Cleanup" for m
    using that by (simp add: advance_same)
  have co: "fsm_step\<^sup>*\<^sup>* m (advance Ph_Cleanup m)" if "mig_phase m = Ph_CutOver" for m
    using fsm_forward [of m Ph_Cleanup] cl [of "advance Ph_Cleanup m"] that by simp
  have re: "fsm_step\<^sup>*\<^sup>* m (advance Ph_Cleanup m)" if "mig_phase m = Ph_Restoring" for m
    using fsm_forward [of m Ph_CutOver] co [of "advance Ph_CutOver m"] that by simp
  have tr: "fsm_step\<^sup>*\<^sup>* m (advance Ph_Cleanup m)" if "mig_phase m = Ph_Transferring" for m
    using fsm_forward [of m Ph_Restoring] re [of "advance Ph_Restoring m"] that by simp
  have sn: "fsm_step\<^sup>*\<^sup>* m (advance Ph_Cleanup m)" if "mig_phase m = Ph_Snapshotting" for m
    using fsm_forward [of m Ph_Transferring] tr [of "advance Ph_Transferring m"] that by simp
  from assms cl co re tr sn show ?thesis by (cases "mig_phase m") auto
qed

section \<open>The point of no return\<close>

text \<open>
  The abort boundary. Whatever transitions a migration has taken from its intent: it still is the
  migration of that VM between those hosts; \<open>abort\<close> exists exactly when no snapshot has been begun
  on the way and the migration was not aborted before; and once snapshotting has begun, every later
  state has no abort, is never the aborted one, and can still be carried to \<open>Cleanup\<close>.
\<close>

theorem abort_boundary:
  assumes "fsm_step\<^sup>*\<^sup>* (mig_intent vm a b) m"
  shows "mig_vm m = vm \<and> mig_from m = a \<and> mig_to m = b
    \<and> (mig_abort m = None \<longleftrightarrow> past_snapshot (mig_phase m) \<or> mig_state m = St_Aborted)
    \<and> (mig_phase m = Ph_Snapshotting \<longrightarrow> (\<forall>m'. fsm_step\<^sup>*\<^sup>* m m' \<longrightarrow>
          mig_abort m' = None \<and> mig_state m' \<noteq> St_Aborted
          \<and> (\<exists>m''. fsm_step\<^sup>*\<^sup>* m' m'' \<and> mig_state m'' = St_Cleanup)))"
proof (intro conjI impI allI)
  show "mig_vm m = vm" and "mig_from m = a" and "mig_to m = b"
    using fsm_steps_identity [OF assms] by (simp_all add: mig_intent_def)
  show "mig_abort m = None \<longleftrightarrow> past_snapshot (mig_phase m) \<or> mig_state m = St_Aborted"
    by (cases "mig_phase m") (simp_all add: mig_abort_def mig_state_def)
next
  fix m'
  assume "mig_phase m = Ph_Snapshotting" and "fsm_step\<^sup>*\<^sup>* m m'"
  then have p: "past_snapshot (mig_phase m')" using past_snapshot_steps by simp
  then show "mig_abort m' = None" and "mig_state m' \<noteq> St_Aborted"
    by (cases "mig_phase m'"; simp add: mig_abort_def mig_state_def)+
  have "mig_state (advance Ph_Cleanup m') = St_Cleanup" by (simp add: mig_state_def)
  then show "\<exists>m''. fsm_step\<^sup>*\<^sup>* m' m'' \<and> mig_state m'' = St_Cleanup"
    using fsm_reaches_cleanup [OF p] by blast
qed

lemma abort_boundary_witness:
  "mig_abort (advance Ph_Transferring (mig_intent (VmId 1) (HostId ''a'') (HostId ''b''))) = None"
proof -
  let ?i = "mig_intent (VmId 1) (HostId ''a'') (HostId ''b'')"
  have step: "fsm_step m (advance q m)" if "phase_succ (mig_phase m) = Some q" for m q
    using that by (auto simp: fsm_step_iff)
  have "fsm_step ?i (advance Ph_Draining ?i)"
    by (rule step) (simp add: mig_intent_def)
  moreover have "fsm_step (advance Ph_Draining ?i) (advance Ph_Quiescent ?i)"
    using step [of "advance Ph_Draining ?i" Ph_Quiescent] by simp
  moreover have "fsm_step (advance Ph_Quiescent ?i) (advance Ph_Snapshotting ?i)"
    using step [of "advance Ph_Quiescent ?i" Ph_Snapshotting] by simp
  ultimately have "fsm_step\<^sup>*\<^sup>* ?i (advance Ph_Snapshotting ?i)" by (meson r_into_rtranclp rtranclp_trans)
  moreover have "fsm_step\<^sup>*\<^sup>* (advance Ph_Snapshotting ?i) (advance Ph_Transferring ?i)"
    using step [of "advance Ph_Snapshotting ?i" Ph_Transferring] by (simp add: r_into_rtranclp)
  ultimately show ?thesis
    using abort_boundary [of "VmId 1" "HostId ''a''" "HostId ''b''" "advance Ph_Snapshotting ?i"]
    by simp
qed

end
