(* ===== verification/Migration_Driver.thy ===== *)
theory Migration_Driver
  imports Proto_Fsm "HOL-Library.Sublist"
begin

text \<open>
  The migration driver: the executor port of \<open>crates/rebalancer/src/executor.rs\<close> as a record of
  effects over the executor's state, \<open>drive\<close> of \<open>driver.rs\<close>, and the recording fake of
  \<open>pseudo_executor.rs\<close>.

  \<open>drive\<close> carries the typestate migration along. A transition that the type system would reject is the
  outcome \<open>Untyped\<close>, which is shown never to occur. \<open>logged\<close> wraps any executor and writes down every
  effect with its answer, so the properties hold for every executor, whatever it does inside.
\<close>

section \<open>The port\<close>

datatype drain_outcome = Drain_Quiescent | Drain_Busy "turn_id option"

record exec_error =
  ee_op :: string
  ee_vm :: vm_id
  ee_detail :: string

record 'x executor =
  ex_request_drain :: "vm_id \<Rightarrow> duration \<Rightarrow> ('x, exec_error, drain_outcome) eff"
  ex_cancel_drain :: "vm_id \<Rightarrow> ('x, exec_error, unit) eff"
  ex_snapshot :: "vm_id \<Rightarrow> ('x, exec_error, unit) eff"
  ex_transfer :: "vm_id \<Rightarrow> host_id \<Rightarrow> ('x, exec_error, unit) eff"
  ex_restore :: "vm_id \<Rightarrow> host_id \<Rightarrow> ('x, exec_error, unit) eff"
  ex_cutover :: "vm_id \<Rightarrow> host_id \<Rightarrow> ('x, exec_error, unit) eff"
  ex_cleanup :: "vm_id \<Rightarrow> host_id \<Rightarrow> ('x, exec_error, unit) eff"

datatype abort_reason = NotQuiescent

datatype migration_outcome = Completed | Aborted abort_reason

datatype migration_error = Executor exec_error

datatype drive_stop = Stopped migration_error | Untyped

section \<open>The driver\<close>

definition effect :: "('x, exec_error, 'a) eff \<Rightarrow> ('x, drive_stop, 'a) eff" where
  "effect m = map_errE (\<lambda>e. Stopped (Executor e)) m"

definition typed :: "migration option \<Rightarrow> ('x, drive_stop, migration) eff" where
  "typed m = (case m of None \<Rightarrow> errE Untyped | Some m' \<Rightarrow> okE m')"

definition drive ::
  "migration \<Rightarrow> 'x executor \<Rightarrow> duration \<Rightarrow> ('x, drive_stop, migration_outcome \<times> migration) eff"
where
  "drive mig exec drain_deadline =
     (let vm = mig_vm mig; to = mig_to mig; frm = mig_from mig in
      bindE (typed (mig_drain mig)) (\<lambda>draining.
      bindE (effect (ex_request_drain exec vm drain_deadline)) (\<lambda>outcome.
      case outcome of
        Drain_Busy _ \<Rightarrow>
          seqE (effect (ex_cancel_drain exec vm))
            (bindE (typed (mig_abort draining)) (\<lambda>stable. okE (Aborted NotQuiescent, stable)))
      | Drain_Quiescent \<Rightarrow>
          bindE (typed (mig_quiescent draining)) (\<lambda>quiescent.
          seqE (effect (ex_snapshot exec vm)) (
          bindE (typed (mig_snapshot quiescent)) (\<lambda>snapshotting.
          seqE (effect (ex_transfer exec vm to)) (
          bindE (typed (mig_transfer snapshotting)) (\<lambda>transferring.
          seqE (effect (ex_restore exec vm to)) (
          bindE (typed (mig_restore transferring)) (\<lambda>restoring.
          seqE (effect (ex_cutover exec vm to)) (
          bindE (typed (mig_cutover restoring)) (\<lambda>cutover.
          seqE (effect (ex_cleanup exec vm frm)) (
          bindE (typed (mig_cleanup cutover)) (\<lambda>cleaned.
          okE (Completed, cleaned)))))))))))))))"

section \<open>The recording fake\<close>

record pseudo_executor =
  pe_calls :: "string list"
  pe_drain :: drain_outcome
  pe_fail :: "(string \<times> string) option"

definition pe_with_drain :: "drain_outcome \<Rightarrow> pseudo_executor" where
  "pe_with_drain d = \<lparr> pe_calls = [], pe_drain = d, pe_fail = None \<rparr>"

definition pe_new :: pseudo_executor where
  "pe_new = pe_with_drain Drain_Quiescent"

definition pe_fail_on :: "string \<Rightarrow> string \<Rightarrow> pseudo_executor \<Rightarrow> pseudo_executor" where
  "pe_fail_on op detail s = s \<lparr> pe_fail := Some (op, detail) \<rparr>"

definition pe_record :: "string \<Rightarrow> vm_id \<Rightarrow> (pseudo_executor, exec_error, unit) eff" where
  "pe_record op vm s =
     (let st = s \<lparr> pe_calls := pe_calls s @ [op] \<rparr> in
      case pe_fail st of
        Some (failed_op, detail) \<Rightarrow>
          if failed_op = op
          then (Inl \<lparr> ee_op = op, ee_vm = vm, ee_detail = detail \<rparr>, st \<lparr> pe_fail := None \<rparr>)
          else (Inr (), st)
      | None \<Rightarrow> (Inr (), st))"

definition pseudo_exec :: "pseudo_executor executor" where
  "pseudo_exec =
     \<lparr> ex_request_drain = (\<lambda>vm _. seqE (pe_record ''request_drain'' vm) (\<lambda>s. (Inr (pe_drain s), s))),
       ex_cancel_drain = (\<lambda>vm. pe_record ''cancel_drain'' vm),
       ex_snapshot = (\<lambda>vm. pe_record ''snapshot'' vm),
       ex_transfer = (\<lambda>vm _. pe_record ''transfer'' vm),
       ex_restore = (\<lambda>vm _. pe_record ''restore'' vm),
       ex_cutover = (\<lambda>vm _. pe_record ''cutover'' vm),
       ex_cleanup = (\<lambda>vm _. pe_record ''cleanup'' vm) \<rparr>"

section \<open>Logging any executor\<close>

datatype effect_call =
    Do_request_drain vm_id duration
  | Do_cancel_drain vm_id
  | Do_snapshot vm_id
  | Do_transfer vm_id host_id
  | Do_restore vm_id host_id
  | Do_cutover vm_id host_id
  | Do_cleanup vm_id host_id

datatype answer = Ok_unit | Ok_drain drain_outcome | Failed exec_error

type_synonym effect_log = "(effect_call \<times> answer) list"

definition log_eff ::
  "effect_call \<Rightarrow> ('a \<Rightarrow> answer) \<Rightarrow> ('x, exec_error, 'a) eff \<Rightarrow> ('x \<times> effect_log, exec_error, 'a) eff"
where
  "log_eff c ok m s =
     (case m (fst s) of
        (Inl e, x) \<Rightarrow> (Inl e, (x, snd s @ [(c, Failed e)]))
      | (Inr a, x) \<Rightarrow> (Inr a, (x, snd s @ [(c, ok a)])))"

definition logged :: "'x executor \<Rightarrow> ('x \<times> effect_log) executor" where
  "logged exec =
     \<lparr> ex_request_drain = (\<lambda>vm d. log_eff (Do_request_drain vm d) Ok_drain (ex_request_drain exec vm d)),
       ex_cancel_drain = (\<lambda>vm. log_eff (Do_cancel_drain vm) (\<lambda>_. Ok_unit) (ex_cancel_drain exec vm)),
       ex_snapshot = (\<lambda>vm. log_eff (Do_snapshot vm) (\<lambda>_. Ok_unit) (ex_snapshot exec vm)),
       ex_transfer = (\<lambda>vm h. log_eff (Do_transfer vm h) (\<lambda>_. Ok_unit) (ex_transfer exec vm h)),
       ex_restore = (\<lambda>vm h. log_eff (Do_restore vm h) (\<lambda>_. Ok_unit) (ex_restore exec vm h)),
       ex_cutover = (\<lambda>vm h. log_eff (Do_cutover vm h) (\<lambda>_. Ok_unit) (ex_cutover exec vm h)),
       ex_cleanup = (\<lambda>vm h. log_eff (Do_cleanup vm h) (\<lambda>_. Ok_unit) (ex_cleanup exec vm h)) \<rparr>"

text \<open>The calls of a migration that nothing stops, with the answers that let it go on.\<close>

definition happy_path :: "migration \<Rightarrow> duration \<Rightarrow> effect_log" where
  "happy_path m d =
     [(Do_request_drain (mig_vm m) d, Ok_drain Drain_Quiescent),
      (Do_snapshot (mig_vm m), Ok_unit),
      (Do_transfer (mig_vm m) (mig_to m), Ok_unit),
      (Do_restore (mig_vm m) (mig_to m), Ok_unit),
      (Do_cutover (mig_vm m) (mig_to m), Ok_unit),
      (Do_cleanup (mig_vm m) (mig_from m), Ok_unit)]"

text \<open>Every log a driven migration can leave, with the result it leaves.\<close>

inductive drive_ends ::
  "migration \<Rightarrow> duration \<Rightarrow> effect_log \<Rightarrow> drive_stop + migration_outcome \<times> migration \<Rightarrow> bool"
  for m d
where
  completed: "drive_ends m d (happy_path m d) (Inr (Completed, advance Ph_Cleanup m))"
| stood_down:
    "drive_ends m d
       [(Do_request_drain (mig_vm m) d, Ok_drain (Drain_Busy t)), (Do_cancel_drain (mig_vm m), Ok_unit)]
       (Inr (Aborted NotQuiescent, advance Ph_Stable m))"
| effect_failed:
    "k < 6 \<Longrightarrow> drive_ends m d (take k (happy_path m d) @ [(fst (happy_path m d ! k), Failed e)])
       (Inl (Stopped (Executor e)))"
| cancel_failed:
    "drive_ends m d
       [(Do_request_drain (mig_vm m) d, Ok_drain (Drain_Busy t)), (Do_cancel_drain (mig_vm m), Failed e)]
       (Inl (Stopped (Executor e)))"

inductive_cases drive_endsE: "drive_ends m d l r"

lemma effect_log:
  "effect (log_eff c ok m) s =
     (case m (fst s) of
        (Inl e, x) \<Rightarrow> (Inl (Stopped (Executor e)), (x, snd s @ [(c, Failed e)]))
      | (Inr a, x) \<Rightarrow> (Inr a, (x, snd s @ [(c, ok a)])))"
  by (auto simp: effect_def map_errE_def log_eff_def split: prod.splits sum.splits)

lemma drive_transitions:
  assumes "mig_phase m = Ph_Intent"
  shows "mig_drain m = Some (advance Ph_Draining m)"
    "mig_abort (advance Ph_Draining m) = Some (advance Ph_Stable m)"
    "mig_quiescent (advance Ph_Draining m) = Some (advance Ph_Quiescent m)"
    "mig_snapshot (advance Ph_Quiescent m) = Some (advance Ph_Snapshotting m)"
    "mig_transfer (advance Ph_Snapshotting m) = Some (advance Ph_Transferring m)"
    "mig_restore (advance Ph_Transferring m) = Some (advance Ph_Restoring m)"
    "mig_cutover (advance Ph_Restoring m) = Some (advance Ph_CutOver m)"
    "mig_cleanup (advance Ph_CutOver m) = Some (advance Ph_Cleanup m)"
  using assms by (simp_all add: mig_methods method_at_def mig_abort_def)

text \<open>One effect of the happy path: it fails and the log ends there, or the rest goes on.\<close>

lemma seq_effect:
  assumes "seqE (effect (log_eff c (\<lambda>_. Ok_unit) m)) n (x, l) = (r, (x', l'))"
  obtains (failed) e where "r = Inl (Stopped (Executor e))" "l' = l @ [(c, Failed e)]"
    | (ok) y where "n (y, l @ [(c, Ok_unit)]) = (r, (x', l'))"
  using assms by (auto simp: seqE_def bindE_def effect_log split: prod.splits sum.splits)

lemma drive_ends_logged:
  assumes ph: "mig_phase m = Ph_Intent" and run: "drive m (logged exec) d (x, []) = (r, (x', l))"
  shows "drive_ends m d l r"
proof -
  note t = drive_transitions [OF ph]
  note fail = effect_failed [where m = m and d = d]
  let ?vm = "mig_vm m"
  have eqs: "typed (Some y) = okE y" for y :: migration by (simp add: typed_def)
  let ?rest = "\<lambda>s. seqE (effect (ex_snapshot (logged exec) ?vm))
     (seqE (effect (ex_transfer (logged exec) ?vm (mig_to m)))
     (seqE (effect (ex_restore (logged exec) ?vm (mig_to m)))
     (seqE (effect (ex_cutover (logged exec) ?vm (mig_to m)))
     (seqE (effect (ex_cleanup (logged exec) ?vm (mig_from m)))
     (okE (Completed, advance Ph_Cleanup m)))))) s"
  have seven: "seqE a (bindE (okE y) f) = seqE a (f y)" for a :: "('b, drive_stop, unit) eff" and y f
    by simp
  show ?thesis
  proof (cases "ex_request_drain exec ?vm d x")
    case (Pair a y)
    show ?thesis
    proof (cases a)
      case (Inl e)
      with Pair run have "r = Inl (Stopped (Executor e))" "l = [(Do_request_drain ?vm d, Failed e)]"
        by (simp_all add: drive_def Let_def t eqs bindE_def logged_def effect_log)
      then show ?thesis using fail [of 0 e] by (simp add: happy_path_def)
    next
      case (Inr out)
      let ?l1 = "[(Do_request_drain ?vm d, Ok_drain out)]"
      show ?thesis
      proof (cases out)
        case (Drain_Busy b)
        with Pair Inr run have "seqE (effect (log_eff (Do_cancel_drain ?vm) (\<lambda>_. Ok_unit) (ex_cancel_drain exec ?vm)))
            (okE (Aborted NotQuiescent, advance Ph_Stable m)) (y, ?l1) = (r, (x', l))"
          by (simp add: drive_def Let_def t eqs logged_def del: okE_apply) (simp add: bindE_def effect_log)
        then show ?thesis
          by (cases rule: seq_effect) (auto simp: Drain_Busy intro: stood_down cancel_failed)
      next
        case Drain_Quiescent
        with Pair Inr run have "?rest (y, ?l1) = (r, (x', l))"
          by (simp add: drive_def Let_def t eqs logged_def del: okE_apply) (simp add: bindE_def effect_log)
        then show ?thesis unfolding logged_def executor.simps
          by (elim seq_effect)
            (use fail [of 1] fail [of 2] fail [of 3] fail [of 4] fail [of 5] completed [of m d] in
              \<open>auto simp: happy_path_def Drain_Quiescent eval_nat_numeral\<close>)
      qed
    qed
  qed
qed

text \<open>
  C2. What a driven migration does, for every executor and every way its effects can answer. The type
  system's refusals never arise; the migration completes exactly when all six effects succeed in the
  order drain, snapshot, transfer, restore, cut over, clean up; a busy drain is cancelled and leaves
  the migration aborted with nothing snapshotted; and a failing effect is the last one issued, its
  error the result, so nothing is cancelled or cleaned up after the point of no return.
\<close>

theorem drive_spec:
  assumes "drive (mig_intent vm a b) (logged exec) d (x, []) = (r, (x', l))"
  shows "drive_ends (mig_intent vm a b) d l r"
  using drive_ends_logged [OF _ assms] by (simp add: mig_intent_def)

lemma drive_spec_witness:
  "drive_ends (mig_intent (VmId 1) (HostId ''a'') (HostId ''b'')) 5
     [(Do_request_drain (VmId 1) 5, Ok_drain (Drain_Busy (Some (TurnId 4)))), (Do_cancel_drain (VmId 1), Ok_unit)]
     (Inr (Aborted NotQuiescent, advance Ph_Stable (mig_intent (VmId 1) (HostId ''a'') (HostId ''b''))))"
proof (rule drive_spec)
  show "drive (mig_intent (VmId 1) (HostId ''a'') (HostId ''b'')) (logged pseudo_exec) 5
      (pe_with_drain (Drain_Busy (Some (TurnId 4))), []) =
    (Inr (Aborted NotQuiescent, advance Ph_Stable (mig_intent (VmId 1) (HostId ''a'') (HostId ''b''))),
     (pe_with_drain (Drain_Busy (Some (TurnId 4)))) \<lparr> pe_calls := [''request_drain'', ''cancel_drain''] \<rparr>,
     [(Do_request_drain (VmId 1) 5, Ok_drain (Drain_Busy (Some (TurnId 4)))), (Do_cancel_drain (VmId 1), Ok_unit)])"
    by (simp add: drive_def Let_def drive_transitions mig_intent_def typed_def logged_def pseudo_exec_def
        bindE_def seqE_def effect_log pe_record_def pe_with_drain_def)
qed

end
