(* ===== verification/Comparators.thy ===== *)
theory Comparators
  imports Prelude "HOL-Library.Product_Lexorder"
begin

text \<open>
  Rust's \<open>Ordering\<close> values, the \<open>Iterator\<close> methods \<open>max_by\<close> and \<open>min_by\<close> that take a comparator,
  and the \<open>f64\<close> values that are compared.

  \<open>max_by\<close> keeps the later of two equal elements and \<open>min_by\<close> the earlier one, as the standard
  library documents; the locale \<open>total_cmp\<close> is what a comparator must satisfy for the result to be an
  extremum, and it is interpreted on every comparator the placement heuristic builds.

  An \<open>f64\<close> is one of its finite values, one of the two zeros, an infinity or a NaN. Comparing and
  clamping do not round, so a finite value is the rational it denotes. The sign of a NaN is kept,
  because \<open>total_cmp\<close> orders by it; NaN payloads are not.
\<close>

datatype cmp = Lt | Eq | Gt

definition cmp_of :: "'a::linorder \<Rightarrow> 'a \<Rightarrow> cmp" where
  "cmp_of a b = (if a < b then Lt else if a = b then Eq else Gt)"

fun cmp_then :: "cmp \<Rightarrow> cmp \<Rightarrow> cmp" where
  "cmp_then Eq c = c"
| "cmp_then c _ = c"

lemma cmp_of_simps [simp]:
  "cmp_of a b = Lt \<longleftrightarrow> a < b"
  "cmp_of a b = Eq \<longleftrightarrow> a = b"
  "cmp_of a b = Gt \<longleftrightarrow> b < a"
  by (auto simp: cmp_of_def)

lemma cmp_then_simps [simp]:
  "cmp_then c d = Lt \<longleftrightarrow> c = Lt \<or> c = Eq \<and> d = Lt"
  "cmp_then c d = Eq \<longleftrightarrow> c = Eq \<and> d = Eq"
  "cmp_then c d = Gt \<longleftrightarrow> c = Gt \<or> c = Eq \<and> d = Gt"
  by (cases c; simp)+

fun max_by :: "('a \<Rightarrow> 'a \<Rightarrow> cmp) \<Rightarrow> 'a list \<Rightarrow> 'a option" where
  "max_by c [] = None"
| "max_by c (x # xs) = Some (foldl (\<lambda>m y. if c m y = Gt then m else y) x xs)"

fun min_by :: "('a \<Rightarrow> 'a \<Rightarrow> cmp) \<Rightarrow> 'a list \<Rightarrow> 'a option" where
  "min_by c [] = None"
| "min_by c (x # xs) = Some (foldl (\<lambda>m y. if c m y = Gt then y else m) x xs)"

lemma max_by_None_iff [simp]: "max_by c xs = None \<longleftrightarrow> xs = []"
  by (cases xs) auto

lemma min_by_None_iff [simp]: "min_by c xs = None \<longleftrightarrow> xs = []"
  by (cases xs) auto

section \<open>The comparator contract\<close>

locale total_cmp =
  fixes c :: "'a \<Rightarrow> 'a \<Rightarrow> cmp"
  assumes flip_Gt: "c a b = Gt \<longleftrightarrow> c b a = Lt"
    and trans_le: "c a b \<noteq> Gt \<Longrightarrow> c b d \<noteq> Gt \<Longrightarrow> c a d \<noteq> Gt"
begin

lemma le_refl: "c a a \<noteq> Gt"
  using flip_Gt [of a a] by auto

lemma flip_not_Gt: "c a b = Gt \<Longrightarrow> c b a \<noteq> Gt"
  using flip_Gt by force

lemma foldl_max:
  "m = foldl (\<lambda>m y. if c m y = Gt then m else y) x xs \<Longrightarrow>
     m \<in> insert x (set xs) \<and> (\<forall>y \<in> insert x (set xs). c y m \<noteq> Gt)"
proof (induction xs arbitrary: x)
  case Nil
  then show ?case by (simp add: le_refl)
next
  case (Cons y ys)
  let ?z = "if c x y = Gt then x else y"
  from Cons.prems have m: "m = foldl (\<lambda>m y. if c m y = Gt then m else y) ?z ys" by simp
  note IH = Cons.IH [OF m]
  have "c x ?z \<noteq> Gt" and "c y ?z \<noteq> Gt"
    using le_refl flip_not_Gt by auto
  moreover have "c ?z m \<noteq> Gt" using IH by blast
  ultimately have "c x m \<noteq> Gt \<and> c y m \<noteq> Gt" by (metis trans_le)
  moreover have "m \<in> insert x (insert y (set ys))" using IH by (metis insert_iff)
  ultimately show ?case using IH by simp
qed

lemma foldl_min:
  "m = foldl (\<lambda>m y. if c m y = Gt then y else m) x xs \<Longrightarrow>
     m \<in> insert x (set xs) \<and> (\<forall>y \<in> insert x (set xs). c m y \<noteq> Gt)"
proof (induction xs arbitrary: x)
  case Nil
  then show ?case by (simp add: le_refl)
next
  case (Cons y ys)
  let ?z = "if c x y = Gt then y else x"
  from Cons.prems have m: "m = foldl (\<lambda>m y. if c m y = Gt then y else m) ?z ys" by simp
  note IH = Cons.IH [OF m]
  have "c ?z x \<noteq> Gt" and "c ?z y \<noteq> Gt"
    using le_refl flip_not_Gt by auto
  moreover have "c m ?z \<noteq> Gt" using IH by blast
  ultimately have "c m x \<noteq> Gt \<and> c m y \<noteq> Gt" by (metis trans_le)
  moreover have "m \<in> insert x (insert y (set ys))" using IH by (metis insert_iff)
  ultimately show ?case using IH by simp
qed

lemma max_by_Some:
  assumes "max_by c xs = Some m"
  shows "m \<in> set xs" and "y \<in> set xs \<Longrightarrow> c y m \<noteq> Gt"
proof -
  from assms obtain x ys where xs: "xs = x # ys"
    and m: "m = foldl (\<lambda>m y. if c m y = Gt then m else y) x ys"
    by (cases xs) auto
  from foldl_max [OF m] show "m \<in> set xs" and "y \<in> set xs \<Longrightarrow> c y m \<noteq> Gt"
    by (auto simp: xs)
qed

lemma min_by_Some:
  assumes "min_by c xs = Some m"
  shows "m \<in> set xs" and "y \<in> set xs \<Longrightarrow> c m y \<noteq> Gt"
proof -
  from assms obtain x ys where xs: "xs = x # ys"
    and m: "m = foldl (\<lambda>m y. if c m y = Gt then y else m) x ys"
    by (cases xs) auto
  from foldl_min [OF m] show "m \<in> set xs" and "y \<in> set xs \<Longrightarrow> c m y \<noteq> Gt"
    by (auto simp: xs)
qed

end

interpretation cmp_of: total_cmp "cmp_of :: 'a::linorder \<Rightarrow> 'a \<Rightarrow> cmp"
  by unfold_locales (auto simp: not_less)

text \<open>Comparators that compare by one key first and by another on a tie, and reversed comparators.\<close>

lemma total_cmp_key: "total_cmp c \<Longrightarrow> total_cmp (\<lambda>a b. c (f a) (f b))"
  unfolding total_cmp_def by blast

lemma total_cmp_rev: "total_cmp c \<Longrightarrow> total_cmp (\<lambda>a b. c b a)"
  unfolding total_cmp_def by blast

lemma total_cmp_then:
  assumes "total_cmp c" "total_cmp d"
  shows "total_cmp (\<lambda>a b. cmp_then (c a b) (d a b))"
proof
  have fc: "c x y = Gt \<longleftrightarrow> c y x = Lt" and fd: "d x y = Gt \<longleftrightarrow> d y x = Lt" for x y
    using assms unfolding total_cmp_def by blast+
  have Eq: "c x y = Eq \<longleftrightarrow> c y x = Eq" for x y
    using fc [of x y] fc [of y x] by (cases "c x y"; cases "c y x") auto
  show "cmp_then (c x y) (d x y) = Gt \<longleftrightarrow> cmp_then (c y x) (d y x) = Lt" for x y
    using fc [of x y] fd [of x y] Eq [of x y] by auto
  have tc: "c x z \<noteq> Gt" if "c x y \<noteq> Gt" "c y z \<noteq> Gt" for x y z
    using assms(1) that unfolding total_cmp_def by blast
  have td: "d x z \<noteq> Gt" if "d x y \<noteq> Gt" "d y z \<noteq> Gt" for x y z
    using assms(2) that unfolding total_cmp_def by blast
  have sub: "c z y = c z x" if "c x y = Eq" for x y z
    using tc fc Eq that by (metis cmp.exhaust cmp.distinct)
  show "cmp_then (c x z) (d x z) \<noteq> Gt"
    if "cmp_then (c x y) (d x y) \<noteq> Gt" "cmp_then (c y z) (d y z) \<noteq> Gt" for x y z
  proof
    assume "cmp_then (c x z) (d x z) = Gt"
    then have "c x z = Gt \<or> c x z = Eq \<and> d x z = Gt" by simp
    moreover have "c x z \<noteq> Gt" using that tc by auto
    ultimately have xz: "c x z = Eq" "d x z = Gt" by auto
    have "c x y \<noteq> Gt" "c y z \<noteq> Gt" using that by auto
    moreover have "c z y \<noteq> Lt" "c z x = Eq" using \<open>c y z \<noteq> Gt\<close> fc [of y z] xz(1) Eq by auto
    moreover have "c y x = c y z" by (rule sub [OF Eq [THEN iffD1, OF xz(1)]])
    ultimately have "c x y = Eq" "c y z = Eq" using fc [of x y] fc [of y x] Eq [of x y]
      by (metis cmp.exhaust)+
    with that have "d x y \<noteq> Gt" "d y z \<noteq> Gt" by auto
    with td xz(2) show False by blast
  qed
qed

lemma max_by_eq:
  assumes "total_cmp c" "m \<in> set xs" "\<And>y. y \<in> set xs \<Longrightarrow> c y m \<noteq> Gt"
    and "\<And>y. y \<in> set xs \<Longrightarrow> c y m = Eq \<Longrightarrow> y = m"
  shows "max_by c xs = Some m"
proof -
  from assms(2) obtain n where n: "max_by c xs = Some n" by (cases "max_by c xs") auto
  have "n \<in> set xs" "c m n \<noteq> Gt"
    using total_cmp.max_by_Some [OF assms(1) n] assms(2) by blast+
  then have "c n m = Eq"
    using assms(1) assms(3) [of n] unfolding total_cmp_def by (metis cmp.exhaust)
  with assms(4) \<open>n \<in> set xs\<close> n show ?thesis by blast
qed

lemma min_by_eq:
  assumes "total_cmp c" "m \<in> set xs" "\<And>y. y \<in> set xs \<Longrightarrow> c m y \<noteq> Gt"
    and "\<And>y. y \<in> set xs \<Longrightarrow> c m y = Eq \<Longrightarrow> y = m"
  shows "min_by c xs = Some m"
proof -
  from assms(2) obtain n where n: "min_by c xs = Some n" by (cases "min_by c xs") auto
  have "n \<in> set xs" "c n m \<noteq> Gt"
    using total_cmp.min_by_Some [OF assms(1) n] assms(2) by blast+
  then have "c m n = Eq"
    using assms(1) assms(3) [of n] unfolding total_cmp_def by (metis cmp.exhaust)
  with assms(4) \<open>n \<in> set xs\<close> n show ?thesis by blast
qed

section \<open>Floating-point values\<close>

datatype f64 = Fin rat | NegZero | PosInf | NegInf | NaN | NegNaN

fun f64_is_finite :: "f64 \<Rightarrow> bool" where
  "f64_is_finite (Fin _) = True"
| "f64_is_finite NegZero = True"
| "f64_is_finite _ = False"

fun f64_is_nan :: "f64 \<Rightarrow> bool" where
  "f64_is_nan NaN = True"
| "f64_is_nan NegNaN = True"
| "f64_is_nan _ = False"

text \<open>The position of a value on the extended line; the third component separates the two zeros.\<close>

fun f64_key :: "f64 \<Rightarrow> int \<times> rat \<times> int" where
  "f64_key NegNaN = (- 2, 0, 0)"
| "f64_key NegInf = (- 1, 0, 0)"
| "f64_key NegZero = (0, 0, 0)"
| "f64_key (Fin q) = (0, q, 1)"
| "f64_key PosInf = (1, 0, 0)"
| "f64_key NaN = (2, 0, 0)"

text \<open>IEEE comparison: false whenever a NaN takes part, and the two zeros are equal.\<close>

definition f64_num :: "f64 \<Rightarrow> int \<times> rat" where
  "f64_num x = (fst (f64_key x), fst (snd (f64_key x)))"

definition f64_less :: "f64 \<Rightarrow> f64 \<Rightarrow> bool" where
  "f64_less x y \<longleftrightarrow> \<not> f64_is_nan x \<and> \<not> f64_is_nan y \<and> f64_num x < f64_num y"

definition f64_le :: "f64 \<Rightarrow> f64 \<Rightarrow> bool" where
  "f64_le x y \<longleftrightarrow> \<not> f64_is_nan x \<and> \<not> f64_is_nan y \<and> f64_num x \<le> f64_num y"

definition f64_total_cmp :: "f64 \<Rightarrow> f64 \<Rightarrow> cmp" where
  "f64_total_cmp x y = cmp_of (f64_key x) (f64_key y)"

text \<open>\<open>f64::clamp\<close>: two comparisons, so a negative zero passes through a lower bound of zero.\<close>

definition f64_clamp :: "f64 \<Rightarrow> f64 \<Rightarrow> f64 \<Rightarrow> f64" where
  "f64_clamp x lo hi = (let y = (if f64_less x lo then lo else x) in if f64_less hi y then hi else y)"

lemma f64_key_inject: "f64_key x = f64_key y \<longleftrightarrow> x = y"
  by (cases x; cases y) auto

interpretation f64_cmp: total_cmp f64_total_cmp
  by unfold_locales (auto simp: f64_total_cmp_def not_less)

lemma f64_total_cmp_Eq [simp]: "f64_total_cmp x y = Eq \<longleftrightarrow> x = y"
  by (simp add: f64_total_cmp_def f64_key_inject)

text \<open>Between finite values the total order refines the IEEE order.\<close>

lemma f64_total_cmp_finite:
  assumes "f64_is_finite x" "f64_is_finite y"
  shows "f64_less x y \<Longrightarrow> f64_total_cmp x y = Lt"
    and "f64_total_cmp x y = Lt \<Longrightarrow> f64_le x y"
    and "f64_total_cmp x y \<noteq> Gt \<Longrightarrow> f64_le x y"
  using assms
  by (cases x; cases y; auto simp: f64_less_def f64_le_def f64_num_def f64_total_cmp_def)+

lemma f64_not_le: "\<not> f64_is_nan x \<Longrightarrow> \<not> f64_is_nan y \<Longrightarrow> \<not> f64_le x y \<longleftrightarrow> f64_less y x"
  by (auto simp: f64_less_def f64_le_def not_le)

lemma f64_finite_not_nan [simp]: "f64_is_finite x \<Longrightarrow> \<not> f64_is_nan x"
  by (cases x) auto

lemma f64_le_refl: "f64_is_finite x \<Longrightarrow> f64_le x x"
  by (simp add: f64_le_def)

lemma f64_le_trans: "f64_le x y \<Longrightarrow> f64_le y z \<Longrightarrow> f64_le x z"
  by (auto simp: f64_le_def)

lemma f64_less_le_trans: "f64_less x y \<Longrightarrow> f64_le y z \<Longrightarrow> f64_less x z"
  by (auto simp: f64_le_def f64_less_def)

lemma f64_le_less_trans: "f64_le x y \<Longrightarrow> f64_less y z \<Longrightarrow> f64_less x z"
  by (auto simp: f64_le_def f64_less_def)

lemma f64_less_irrefl [simp]: "\<not> f64_less x x"
  by (simp add: f64_less_def)

end
