(* ===== verification/Compat_Class.thy ===== *)
theory Compat_Class
  imports Byte_Strings
begin

text \<open>
  Host compatibility classes: the record and the comparison of \<open>crates/proto/src/compat.rs\<close>. The
  integers keep their width, so the tolerance check is shown not to saturate.
\<close>

record compat_class =
  cc_vendor :: string
  cc_model :: string
  cc_tsc_khz :: u32
  cc_kernel :: string

definition TSC_TOLERANCE_PPM :: u64 where
  "TSC_TOLERANCE_PPM = 250"

definition tsc_within_tolerance :: "u32 \<Rightarrow> u32 \<Rightarrow> bool" where
  "tsc_within_tolerance a b =
     (let (hi, lo) = (if b \<le> a then (a, b) else (b, a));
          diff = (ucast (hi - lo) :: u64)
      in sat_mul diff 1000000 \<le> sat_mul (ucast hi) TSC_TOLERANCE_PPM)"

definition kernel_tier :: "string \<Rightarrow> string" where
  "kernel_tier release =
     (case split_on (CHR ''.'') release of
        major # minor # _ \<Rightarrow> major @ CHR ''.'' # takeWhile is_dec_digit minor
      | [major] \<Rightarrow> major
      | [] \<Rightarrow> release)"

definition compatible_with :: "compat_class \<Rightarrow> compat_class \<Rightarrow> bool" where
  "compatible_with a b \<longleftrightarrow>
     cc_vendor a = cc_vendor b
     \<and> cc_model a = cc_model b
     \<and> kernel_tier (cc_kernel a) = kernel_tier (cc_kernel b)
     \<and> tsc_within_tolerance (cc_tsc_khz a) (cc_tsc_khz b)"

definition compat_label :: "compat_class \<Rightarrow> string" where
  "compat_label c =
     cc_vendor c @ ''/'' @ cc_model c @ ''/'' @ show_nat (unat (cc_tsc_khz c div 1000)) @ ''MHz/''
     @ kernel_tier (cc_kernel c)"

section \<open>The frequency check\<close>

lemma unat_u32_less: "unat (x :: u32) < 2 ^ 32"
proof -
  have "unat x < 2 ^ LENGTH(32)" by (rule unsigned_less)
  then show ?thesis by simp
qed

lemma unat_ucast_32_64: "unat (ucast (x :: u32) :: u64) = unat x"
  using unat_u32_less [of x] by (simp add: unsigned_ucast_eq take_bit_nat_eq_self_iff)

text \<open>The comparison on natural numbers; the products of 32-bit values stay below \<open>2 ^ 64\<close>.\<close>

lemma tsc_products:
  "sat_mul (ucast (x :: u32) :: u64) 1000000 \<le> sat_mul (ucast (y :: u32)) TSC_TOLERANCE_PPM
     \<longleftrightarrow> unat x * 1000000 \<le> unat y * 250"
  using unat_u32_less [of x] unat_u32_less [of y]
  by (simp add: word_le_nat_alt unat_sat_mul unat_ucast_32_64 TSC_TOLERANCE_PPM_def min_def)

lemma tsc_within_tolerance_iff:
  "tsc_within_tolerance a b \<longleftrightarrow>
     \<bar>int (unat a) - int (unat b)\<bar> * 1000000 \<le> max (int (unat a)) (int (unat b)) * 250"
proof -
  have nat: "tsc_within_tolerance a b \<longleftrightarrow>
      (if unat b \<le> unat a then (unat a - unat b) * 1000000 \<le> unat a * 250
       else (unat b - unat a) * 1000000 \<le> unat b * 250)"
  proof (cases "b \<le> a")
    case True
    then show ?thesis
      by (simp add: tsc_within_tolerance_def tsc_products unat_diff_le) (simp add: word_le_nat_alt)
  next
    case False
    then have "a \<le> b" by simp
    with False show ?thesis
      by (simp add: tsc_within_tolerance_def tsc_products unat_diff_le) (simp add: word_le_nat_alt)
  qed
  have "(if n \<le> m then (m - n) * 1000000 \<le> m * 250 else (n - m) * 1000000 \<le> n * 250)
      \<longleftrightarrow> \<bar>int m - int n\<bar> * 1000000 \<le> max (int m) (int n) * 250" for m n :: nat
    by (auto simp: max_def)
  with nat show ?thesis by blast
qed

section \<open>Kernel tiers\<close>

lemma kernel_tier_no_dot: "CHR ''.'' \<notin> set s \<Longrightarrow> kernel_tier s = s"
  by (simp add: kernel_tier_def split_on_absent)

lemma kernel_tier_dotted:
  assumes "CHR ''.'' \<notin> set major" "CHR ''.'' \<notin> set minor"
  shows "kernel_tier (major @ CHR ''.'' # minor) = major @ CHR ''.'' # takeWhile is_dec_digit minor"
    and "kernel_tier (major @ CHR ''.'' # minor @ CHR ''.'' # rest)
           = major @ CHR ''.'' # takeWhile is_dec_digit minor"
  using assms by (simp_all add: kernel_tier_def split_on_append_sep split_on_absent)

lemma takeWhile_digits_no_dot: "CHR ''.'' \<notin> set (takeWhile is_dec_digit s)"
  using dec_digit_neq by (auto dest: set_takeWhileD)

lemma kernel_tier_idem [simp]: "kernel_tier (kernel_tier s) = kernel_tier s"
proof (cases "split_on (CHR ''.'') s")
  case (Cons major rest)
  have nd: "CHR ''.'' \<notin> set major"
    using split_on_no_sep [of major "CHR ''.''" s] Cons by simp
  show ?thesis
  proof (cases rest)
    case Nil
    with Cons have "kernel_tier s = major" by (simp add: kernel_tier_def)
    with nd show ?thesis by (simp add: kernel_tier_no_dot)
  next
    case (Cons minor r)
    with \<open>split_on (CHR ''.'') s = major # rest\<close>
    have "kernel_tier s = major @ CHR ''.'' # takeWhile is_dec_digit minor"
      by (simp add: kernel_tier_def)
    with nd show ?thesis
      using kernel_tier_dotted(1) [of major "takeWhile is_dec_digit minor"]
      by (simp add: takeWhile_digits_no_dot)
  qed
qed simp


text \<open>
  Compatibility is reflexive and symmetric but does not compose: each of three hosts can restore
  the next one's snapshots while the first and the last are too far apart, so a chain of legal moves
  may reach a host the first one could never have moved to.
\<close>

theorem compatible_not_transitive:
  "compatible_with a a \<and> compatible_with a b = compatible_with b a
   \<and> (\<exists>x y z. compatible_with x y \<and> compatible_with y z \<and> \<not> compatible_with x z)"
proof (intro conjI)
  show "compatible_with a a" by (simp add: compatible_with_def tsc_within_tolerance_iff)
  show "compatible_with a b = compatible_with b a"
    by (auto simp: compatible_with_def tsc_within_tolerance_iff abs_minus_commute max.commute)
  let ?h = "\<lambda>k. \<lparr> cc_vendor = ''GenuineIntel'', cc_model = ''Xeon'', cc_tsc_khz = k,
     cc_kernel = ''6.1.155'' \<rparr>"
  have "compatible_with (?h 2000000) (?h 2000400)" "compatible_with (?h 2000400) (?h 2000800)"
    "\<not> compatible_with (?h 2000000) (?h 2000800)"
    by (simp_all add: compatible_with_def tsc_within_tolerance_iff)
  then show "\<exists>x y z. compatible_with x y \<and> compatible_with y z \<and> \<not> compatible_with x z"
    by blast
qed

end
