(* ===== verification/Pick_Victim.thy ===== *)
theory Pick_Victim
  imports Comparators Btree_Map Compat_Class Proto_Ids
begin

text \<open>
  Placement and the choice of the next migration: \<open>crates/rebalancer/src/placement.rs\<close>. Maps keyed by
  host or VM are sorted association lists, so the iterators visit their entries in key order as in the
  code. The specification of \<open>pick_victim\<close> is stated with bounded quantifiers over those entries and
  is an equivalence: it says which move is chosen and when none is.
\<close>

datatype pressure = Pressure (pressure_get: f64)

definition pressure_new :: "f64 \<Rightarrow> pressure" where
  "pressure_new v =
     (if f64_is_finite v then Pressure (f64_clamp v (Fin 0) (Fin 1)) else Pressure (Fin 0))"

type_synonym placement = "(host_id, vm_id list) btree"

definition placement_new :: placement where
  "placement_new = []"

definition assign :: "host_id \<Rightarrow> vm_id \<Rightarrow> placement \<Rightarrow> placement" where
  "assign h vm p = bt_insert h ((case bt_get p h of None \<Rightarrow> [] | Some vs \<Rightarrow> vs) @ [vm]) p"

definition vms_on :: "placement \<Rightarrow> host_id \<Rightarrow> vm_id list" where
  "vms_on p h = (case bt_get p h of None \<Rightarrow> [] | Some vs \<Rightarrow> vs)"

definition placement_hosts :: "placement \<Rightarrow> host_id list" where
  "placement_hosts p = map fst p"

record rebalance =
  rb_vm :: vm_id
  rb_from :: host_id
  rb_to :: host_id

section \<open>The heuristic\<close>

definition hot_cmp :: "host_id \<times> pressure \<Rightarrow> host_id \<times> pressure \<Rightarrow> cmp" where
  "hot_cmp a b =
     cmp_then (f64_total_cmp (pressure_get (snd a)) (pressure_get (snd b))) (cmp_of (fst b) (fst a))"

definition cool_cmp :: "host_id \<times> pressure \<Rightarrow> host_id \<times> pressure \<Rightarrow> cmp" where
  "cool_cmp a b =
     cmp_then (f64_total_cmp (pressure_get (snd a)) (pressure_get (snd b))) (cmp_of (fst a) (fst b))"

definition idle_of :: "(vm_id, duration) btree \<Rightarrow> vm_id \<Rightarrow> duration" where
  "idle_of idle v = (case bt_get idle v of None \<Rightarrow> 0 | Some d \<Rightarrow> d)"

definition idle_cmp :: "(vm_id, duration) btree \<Rightarrow> vm_id \<Rightarrow> vm_id \<Rightarrow> cmp" where
  "idle_cmp idle a b = cmp_then (cmp_of (idle_of idle a) (idle_of idle b)) (cmp_of b a)"

definition hottest_host :: "(host_id, pressure) btree \<Rightarrow> host_id option" where
  "hottest_host pr = map_option fst (max_by hot_cmp pr)"

definition coolest_compatible_host ::
  "(host_id, pressure) btree \<Rightarrow> host_id \<Rightarrow> compat_class \<Rightarrow> (host_id, compat_class) btree \<Rightarrow> host_id option"
where
  "coolest_compatible_host pr except src cc =
     map_option fst
       (min_by cool_cmp
         (filter (\<lambda>e. case bt_get cc (fst e) of None \<Rightarrow> False | Some t \<Rightarrow> compatible_with src t)
           (filter (\<lambda>e. fst e \<noteq> except) pr)))"

definition most_idle_vm :: "vm_id list \<Rightarrow> (vm_id, duration) btree \<Rightarrow> vm_id option" where
  "most_idle_vm vms idle = max_by (idle_cmp idle) vms"

definition pressure_of :: "(host_id, pressure) btree \<Rightarrow> host_id \<Rightarrow> f64" where
  "pressure_of pr h = (case bt_get pr h of None \<Rightarrow> Fin 0 | Some p \<Rightarrow> pressure_get p)"

definition pick_victim ::
  "placement \<Rightarrow> (host_id, pressure) btree \<Rightarrow> (vm_id, duration) btree \<Rightarrow> pressure
     \<Rightarrow> (host_id, compat_class) btree \<Rightarrow> rebalance option"
where
  "pick_victim pl pr idle high_watermark cc =
     (case hottest_host pr of
        None \<Rightarrow> None
      | Some hottest \<Rightarrow>
          if f64_le (pressure_of pr hottest) (pressure_get high_watermark) then None
          else case bt_get cc hottest of
            None \<Rightarrow> None
          | Some source_class \<Rightarrow>
              (case coolest_compatible_host pr hottest source_class cc of
                 None \<Rightarrow> None
               | Some coolest \<Rightarrow>
                   if f64_le (pressure_of pr hottest) (pressure_of pr coolest) then None
                   else case most_idle_vm (vms_on pl hottest) idle of
                     None \<Rightarrow> None
                   | Some vm \<Rightarrow> Some \<lparr> rb_vm = vm, rb_from = hottest, rb_to = coolest \<rparr>))"

section \<open>The comparators are total\<close>

lemmas pressure_key = total_cmp_key [OF f64_cmp.total_cmp_axioms, of "\<lambda>a. pressure_get (snd a)"]

interpretation hot: total_cmp hot_cmp
proof -
  have eq: "hot_cmp = (\<lambda>a b. cmp_then (f64_total_cmp (pressure_get (snd a)) (pressure_get (snd b)))
      (cmp_of (fst b) (fst a)))" by (simp add: hot_cmp_def fun_eq_iff)
  show "total_cmp hot_cmp" unfolding eq
    by (rule total_cmp_then [OF pressure_key
        total_cmp_key [OF total_cmp_rev [OF cmp_of.total_cmp_axioms], of fst]])
qed

interpretation cool: total_cmp cool_cmp
proof -
  have eq: "cool_cmp = (\<lambda>a b. cmp_then (f64_total_cmp (pressure_get (snd a)) (pressure_get (snd b)))
      (cmp_of (fst a) (fst b)))" by (simp add: cool_cmp_def fun_eq_iff)
  show "total_cmp cool_cmp" unfolding eq
    by (rule total_cmp_then [OF pressure_key total_cmp_key [OF cmp_of.total_cmp_axioms, of fst]])
qed

interpretation idle: total_cmp "idle_cmp idle" for idle
proof -
  have eq: "idle_cmp idle = (\<lambda>a b. cmp_then (cmp_of (idle_of idle a) (idle_of idle b)) (cmp_of b a))"
    by (simp add: idle_cmp_def fun_eq_iff)
  show "total_cmp (idle_cmp idle)" unfolding eq
    by (rule total_cmp_then [OF total_cmp_key [OF cmp_of.total_cmp_axioms, of "idle_of idle"]
        total_cmp_rev [OF cmp_of.total_cmp_axioms]])
qed

text \<open>A comparator that is equal only on equal elements has one extremum.\<close>

lemma max_by_iff:
  assumes "total_cmp c" "\<And>a b. c a b = Eq \<longleftrightarrow> a = b"
  shows "max_by c xs = Some m \<longleftrightarrow> m \<in> set xs \<and> (\<forall>y \<in> set xs. c y m \<noteq> Gt)"
proof
  show "max_by c xs = Some m \<Longrightarrow> m \<in> set xs \<and> (\<forall>y \<in> set xs. c y m \<noteq> Gt)"
    using total_cmp.max_by_Some [OF assms(1), of xs m] by blast
  show "m \<in> set xs \<and> (\<forall>y \<in> set xs. c y m \<noteq> Gt) \<Longrightarrow> max_by c xs = Some m"
    by (rule max_by_eq [OF assms(1)]) (simp_all add: assms(2))
qed

lemma min_by_iff:
  assumes "total_cmp c" "\<And>a b. c a b = Eq \<longleftrightarrow> a = b"
  shows "min_by c xs = Some m \<longleftrightarrow> m \<in> set xs \<and> (\<forall>y \<in> set xs. c m y \<noteq> Gt)"
proof
  show "min_by c xs = Some m \<Longrightarrow> m \<in> set xs \<and> (\<forall>y \<in> set xs. c m y \<noteq> Gt)"
    using total_cmp.min_by_Some [OF assms(1), of xs m] by blast
  show "m \<in> set xs \<and> (\<forall>y \<in> set xs. c m y \<noteq> Gt) \<Longrightarrow> min_by c xs = Some m"
    by (rule min_by_eq [OF assms(1)]) (simp_all add: assms(2))
qed

lemma pressure_get_inject: "pressure_get p = pressure_get q \<longleftrightarrow> p = q"
  by (cases p; cases q) simp

lemma hot_cmp_Eq: "hot_cmp a b = Eq \<longleftrightarrow> a = b"
  by (simp add: hot_cmp_def prod_eq_iff pressure_get_inject) (rule iffI; simp)

lemma cool_cmp_Eq: "cool_cmp a b = Eq \<longleftrightarrow> a = b"
  by (simp add: cool_cmp_def prod_eq_iff pressure_get_inject) (rule iffI; simp)

lemma idle_cmp_Eq: "idle_cmp idle a b = Eq \<longleftrightarrow> a = b"
  by (auto simp: idle_cmp_def)

lemma hottest_host_iff:
  "hottest_host pr = Some h \<longleftrightarrow> (\<exists>p. (h, p) \<in> set pr \<and> (\<forall>e \<in> set pr. hot_cmp e (h, p) \<noteq> Gt))"
  by (auto simp: hottest_host_def max_by_iff [OF hot.total_cmp_axioms hot_cmp_Eq])

definition can_take :: "(host_id, compat_class) btree \<Rightarrow> host_id \<Rightarrow> compat_class \<Rightarrow> host_id \<Rightarrow> bool" where
  "can_take cc f src t \<longleftrightarrow> t \<noteq> f \<and> (\<exists>c. bt_get cc t = Some c \<and> compatible_with src c)"

lemma coolest_iff:
  "coolest_compatible_host pr f src cc = Some t \<longleftrightarrow>
     (\<exists>p. (t, p) \<in> set pr \<and> can_take cc f src t
        \<and> (\<forall>e \<in> set pr. can_take cc f src (fst e) \<longrightarrow> cool_cmp (t, p) e \<noteq> Gt))"
proof -
  let ?xs = "filter (\<lambda>e. case bt_get cc (fst e) of None \<Rightarrow> False | Some t \<Rightarrow> compatible_with src t)
           (filter (\<lambda>e. fst e \<noteq> f) pr)"
  have xs: "e \<in> set ?xs \<longleftrightarrow> e \<in> set pr \<and> can_take cc f src (fst e)" for e
    by (auto simp: can_take_def split: option.splits)
  have "coolest_compatible_host pr f src cc = Some t \<longleftrightarrow> (\<exists>p. min_by cool_cmp ?xs = Some (t, p))"
    by (auto simp: coolest_compatible_host_def)
  also have "\<dots> \<longleftrightarrow> (\<exists>p. (t, p) \<in> set ?xs \<and> (\<forall>e \<in> set ?xs. cool_cmp (t, p) e \<noteq> Gt))"
    by (simp only: min_by_iff [OF cool.total_cmp_axioms cool_cmp_Eq])
  also have "\<dots> \<longleftrightarrow> (\<exists>p. (t, p) \<in> set pr \<and> can_take cc f src t
        \<and> (\<forall>e \<in> set pr. can_take cc f src (fst e) \<longrightarrow> cool_cmp (t, p) e \<noteq> Gt))"
    unfolding Ball_def xs by auto
  finally show ?thesis .
qed

lemma most_idle_iff:
  "most_idle_vm vms idle = Some v \<longleftrightarrow> v \<in> set vms \<and> (\<forall>u \<in> set vms. idle_cmp idle u v \<noteq> Gt)"
  by (simp only: most_idle_vm_def max_by_iff [OF idle.total_cmp_axioms idle_cmp_Eq])

section \<open>The specification\<close>

text \<open>Readings that went through \<open>Pressure::new\<close>: finite and within the unit interval.\<close>

definition pressure_ok :: "pressure \<Rightarrow> bool" where
  "pressure_ok p \<longleftrightarrow> f64_is_finite (pressure_get p) \<and> f64_le (Fin 0) (pressure_get p)
     \<and> f64_le (pressure_get p) (Fin 1)"

lemma pressure_new_ok: "pressure_ok (pressure_new v)"
  by (cases v) (auto simp: pressure_ok_def pressure_new_def f64_clamp_def Let_def f64_less_def f64_le_def
      f64_num_def)

lemma pressure_ok_not_nan [simp]: "pressure_ok p \<Longrightarrow> \<not> f64_is_nan (pressure_get p)"
  by (simp add: pressure_ok_def)

definition hotter :: "pressure \<Rightarrow> pressure \<Rightarrow> bool" where
  "hotter p q \<longleftrightarrow> f64_total_cmp (pressure_get q) (pressure_get p) = Lt"

definition is_hottest :: "(host_id, pressure) btree \<Rightarrow> host_id \<Rightarrow> pressure \<Rightarrow> bool" where
  "is_hottest pr h p \<longleftrightarrow> (h, p) \<in> set pr
     \<and> (\<forall>e \<in> set pr. hotter p (snd e) \<or> snd e = p \<and> h \<le> fst e)"

definition is_coolest ::
  "(host_id, pressure) btree \<Rightarrow> (host_id \<Rightarrow> bool) \<Rightarrow> host_id \<Rightarrow> pressure \<Rightarrow> bool"
where
  "is_coolest pr ok h p \<longleftrightarrow> (h, p) \<in> set pr \<and> ok h
     \<and> (\<forall>e \<in> set pr. ok (fst e) \<longrightarrow> hotter (snd e) p \<or> snd e = p \<and> h \<le> fst e)"

definition is_most_idle :: "(vm_id, duration) btree \<Rightarrow> vm_id list \<Rightarrow> vm_id \<Rightarrow> bool" where
  "is_most_idle idle vms v \<longleftrightarrow> v \<in> set vms
     \<and> (\<forall>u \<in> set vms. idle_of idle u < idle_of idle v \<or> idle_of idle u = idle_of idle v \<and> v \<le> u)"

lemma tie_iff: "q = p \<longleftrightarrow> f64_total_cmp (pressure_get q) (pressure_get p) = Eq"
  by (simp add: pressure_get_inject)

lemma hot_cmp_not_Gt: "hot_cmp e (h, p) \<noteq> Gt \<longleftrightarrow> hotter p (snd e) \<or> snd e = p \<and> h \<le> fst e"
  unfolding hot_cmp_def hotter_def tie_iff
  by (cases "f64_total_cmp (pressure_get (snd e)) (pressure_get p)")
    (simp_all add: not_less del: f64_total_cmp_Eq)

lemma cool_cmp_not_Gt: "cool_cmp (h, p) e \<noteq> Gt \<longleftrightarrow> hotter (snd e) p \<or> snd e = p \<and> h \<le> fst e"
  unfolding cool_cmp_def hotter_def eq_commute [of "snd e" p] tie_iff [of p "snd e"]
  by (cases "f64_total_cmp (pressure_get p) (pressure_get (snd e))")
    (simp_all add: not_less del: f64_total_cmp_Eq)

lemma idle_cmp_not_Gt:
  "idle_cmp idle u v \<noteq> Gt \<longleftrightarrow> idle_of idle u < idle_of idle v \<or> idle_of idle u = idle_of idle v \<and> v \<le> u"
  by (auto simp: idle_cmp_def not_less)

lemma hottest_spec: "hottest_host pr = Some h \<longleftrightarrow> (\<exists>p. is_hottest pr h p)"
  by (auto simp: hottest_host_iff is_hottest_def hot_cmp_not_Gt)

lemma coolest_spec:
  "coolest_compatible_host pr f src cc = Some t \<longleftrightarrow> (\<exists>p. is_coolest pr (can_take cc f src) t p)"
  by (auto simp: coolest_iff is_coolest_def cool_cmp_not_Gt)

lemma most_idle_spec: "most_idle_vm vms idle = Some v \<longleftrightarrow> is_most_idle idle vms v"
  by (auto simp: most_idle_iff is_most_idle_def idle_cmp_not_Gt)

lemma pressure_of_entry: "bt_ok pr \<Longrightarrow> (h, p) \<in> set pr \<Longrightarrow> pressure_of pr h = pressure_get p"
  using bt.entries_get [of pr h p] by (simp add: pressure_of_def)

text \<open>What a move must satisfy to be the one that is chosen.\<close>

definition best_move ::
  "placement \<Rightarrow> (host_id, pressure) btree \<Rightarrow> (vm_id, duration) btree \<Rightarrow> pressure
     \<Rightarrow> (host_id, compat_class) btree \<Rightarrow> rebalance \<Rightarrow> bool"
where
  "best_move pl pr idle hw cc m \<longleftrightarrow>
     (\<exists>pf pt src. is_hottest pr (rb_from m) pf \<and> f64_less (pressure_get hw) (pressure_get pf)
        \<and> bt_get cc (rb_from m) = Some src
        \<and> is_coolest pr (can_take cc (rb_from m) src) (rb_to m) pt
        \<and> f64_less (pressure_get pt) (pressure_get pf)
        \<and> is_most_idle idle (vms_on pl (rb_from m)) (rb_vm m))"

lemma pick_victim_iff:
  assumes "bt_ok pr" "\<forall>(h, p) \<in> set pr. pressure_ok p" "pressure_ok hw"
  shows "pick_victim pl pr idle hw cc = Some m \<longleftrightarrow> best_move pl pr idle hw cc m"
proof -
  have lt: "\<not> f64_le (pressure_get p) (pressure_get q) \<longleftrightarrow> f64_less (pressure_get q) (pressure_get p)"
    if "pressure_ok p" "pressure_ok q" for p q
    using that by (simp add: f64_not_le)
  have ok: "pressure_ok p" if "(h, p) \<in> set pr" for h p using that assms(2) by auto
  have "pick_victim pl pr idle hw cc = Some m \<longleftrightarrow>
     (\<exists>src. hottest_host pr = Some (rb_from m)
        \<and> \<not> f64_le (pressure_of pr (rb_from m)) (pressure_get hw)
        \<and> bt_get cc (rb_from m) = Some src
        \<and> coolest_compatible_host pr (rb_from m) src cc = Some (rb_to m)
        \<and> \<not> f64_le (pressure_of pr (rb_from m)) (pressure_of pr (rb_to m))
        \<and> most_idle_vm (vms_on pl (rb_from m)) idle = Some (rb_vm m))"
    by (cases m) (auto simp: pick_victim_def split: option.splits)
  also have "\<dots> \<longleftrightarrow> best_move pl pr idle hw cc m"
  proof -
    have "pressure_of pr h = pressure_get p \<and> pressure_ok p" if "is_hottest pr h p" for h p
      using that pressure_of_entry [OF assms(1)] ok by (auto simp: is_hottest_def)
    moreover have "pressure_of pr h = pressure_get p \<and> pressure_ok p" if "is_coolest pr P h p" for P h p
      using that pressure_of_entry [OF assms(1)] ok by (auto simp: is_coolest_def)
    ultimately show ?thesis
      unfolding hottest_spec coolest_spec most_idle_spec best_move_def using lt assms(3) by metis
  qed
  finally show ?thesis .
qed

lemma vms_on_assign: "vms_on (assign h v p) h' = (if h' = h then vms_on p h @ [v] else vms_on p h')"
  by (simp add: vms_on_def assign_def bt_get_insert split: option.splits)

lemma assign_ok: "bt_ok p \<Longrightarrow> bt_ok (assign h v p)"
  by (simp add: assign_def bt_ok_insert)

text \<open>
  C12. The choice of the migration, in full. A move is proposed exactly when it is the best one: its
  source is the hottest host (the least id among equals) and strictly above the watermark, its target
  is the coolest of the other hosts whose class can restore the source's snapshots and strictly cooler
  than the source, and its VM is the most idle one on the source (the least id among equals). \<open>None\<close> is
  returned exactly when there is no such move.
\<close>

theorem pick_victim_spec:
  assumes "bt_ok pr" "\<forall>(h, p) \<in> set pr. pressure_ok p" "pressure_ok hw"
  shows "(pick_victim pl pr idle hw cc = Some m \<longleftrightarrow> best_move pl pr idle hw cc m)
    \<and> (pick_victim pl pr idle hw cc = None \<longleftrightarrow> (\<nexists>m. best_move pl pr idle hw cc m))"
  using pick_victim_iff [OF assms] by (metis not_None_eq option.exhaust)

definition sample_class :: compat_class where
  "sample_class = \<lparr> cc_vendor = ''GenuineIntel'', cc_model = ''Xeon'', cc_tsc_khz = 2000000, cc_kernel = ''6.1'' \<rparr>"

definition sample_pressure :: "(host_id, pressure) btree" where
  "sample_pressure = [(HostId ''a'', pressure_new (Fin (9/10))), (HostId ''b'', pressure_new (Fin (1/10)))]"

definition sample_compat :: "(host_id, compat_class) btree" where
  "sample_compat = [(HostId ''a'', sample_class), (HostId ''b'', sample_class)]"

lemma sample_pressure_ok:
  "bt_ok sample_pressure" "\<forall>(h, p) \<in> set sample_pressure. pressure_ok p"
  by (auto simp: sample_pressure_def bt_ok_def less_host_id_def pressure_new_ok)

lemma sample_pick:
  "pick_victim [(HostId ''a'', [VmId 1])] sample_pressure [] (pressure_new (Fin (1/2))) sample_compat
     = Some \<lparr> rb_vm = VmId 1, rb_from = HostId ''a'', rb_to = HostId ''b'' \<rparr>"
proof -
  have "compatible_with sample_class sample_class" by (simp add: compatible_with_def tsc_within_tolerance_iff)
  then show ?thesis
    by (simp add: pick_victim_def hottest_host_def coolest_compatible_host_def most_idle_vm_def vms_on_def
        sample_pressure_def sample_compat_def hot_cmp_def f64_total_cmp_def pressure_new_def f64_clamp_def
        f64_less_def f64_le_def f64_num_def pressure_of_def bt_get_def)
qed

lemma pick_victim_spec_witness:
  "best_move [(HostId ''a'', [VmId 1])] sample_pressure [] (pressure_new (Fin (1/2))) sample_compat
     \<lparr> rb_vm = VmId 1, rb_from = HostId ''a'', rb_to = HostId ''b'' \<rparr>"
  using pick_victim_spec [OF sample_pressure_ok pressure_new_ok, of "[(HostId ''a'', [VmId 1])]" "[]"
      "Fin (1/2)" sample_compat "\<lparr> rb_vm = VmId 1, rb_from = HostId ''a'', rb_to = HostId ''b'' \<rparr>"]
    sample_pick by blast

text \<open>
  Missing evidence does not protect a VM. When none of the VMs on the source has an idle reading,
  one of them is moved all the same, the one with the least id: a missing reading counts as zero idle
  time, which only loses against a positive reading of another VM.
\<close>

theorem unread_vm_is_moved:
  assumes "bt_ok pr" "\<forall>(h, p) \<in> set pr. pressure_ok p" "pressure_ok hw"
    and "best_move pl pr idle hw cc m" "\<forall>v \<in> set (vms_on pl (rb_from m)). bt_get idle v = None"
  shows "pick_victim pl pr idle hw cc = Some m \<and> bt_get idle (rb_vm m) = None
    \<and> rb_vm m = Min (set (vms_on pl (rb_from m)))"
proof -
  from assms(4) have i: "is_most_idle idle (vms_on pl (rb_from m)) (rb_vm m)"
    unfolding best_move_def by blast
  then have v: "rb_vm m \<in> set (vms_on pl (rb_from m))" by (simp add: is_most_idle_def)
  have "idle_of idle u = 0" if "u \<in> set (vms_on pl (rb_from m))" for u
    using assms(5) that by (simp add: idle_of_def)
  then have "\<forall>u \<in> set (vms_on pl (rb_from m)). rb_vm m \<le> u"
    using i v by (auto simp: is_most_idle_def)
  then have "rb_vm m = Min (set (vms_on pl (rb_from m)))"
    using v by (intro Min_eqI [symmetric]) auto
  with pick_victim_iff [OF assms(1-3)] assms(4,5) v show ?thesis by blast
qed

lemma unread_vm_is_moved_witness:
  "bt_get ([] :: (vm_id, duration) btree) (VmId 1) = None
   \<and> pick_victim [(HostId ''a'', [VmId 1])] sample_pressure [] (pressure_new (Fin (1/2))) sample_compat
     = Some \<lparr> rb_vm = VmId 1, rb_from = HostId ''a'', rb_to = HostId ''b'' \<rparr>"
proof -
  let ?m = "\<lparr> rb_vm = VmId 1, rb_from = HostId ''a'', rb_to = HostId ''b'' \<rparr>"
  have "best_move [(HostId ''a'', [VmId 1])] sample_pressure [] (pressure_new (Fin (1/2))) sample_compat ?m"
    using pick_victim_iff [OF sample_pressure_ok pressure_new_ok] sample_pick by blast
  from unread_vm_is_moved [OF sample_pressure_ok pressure_new_ok this]
  show ?thesis by (simp add: bt_get_def)
qed

end
