(* ===== verification/Rebalance_Control.thy ===== *)
theory Rebalance_Control
  imports Pick_Victim
begin

text \<open>
  The control loop: \<open>rebalance_once\<close> and the fleet of \<open>crates/rebalancer/src/control.rs\<close>, the fake
  daemon used by its tests, and the loop of the \<open>rebalance\<close> binary. The daemon surface is a record of
  effects over the daemons' state; HTTP and the text of a UUID are parameters. The locale
  \<open>recording_daemon\<close> describes a daemon surface whose state shows every call it received.
\<close>

datatype ctl_error = UnknownHost host_id | Daemon host_id string string

record host_endpoint =
  he_control_url :: string
  he_data_listen :: string
  he_data_addr :: string

type_synonym fleet = "(host_id, host_endpoint) btree"

definition fleet_new :: fleet where
  "fleet_new = []"

definition fleet_add :: "host_id \<Rightarrow> host_endpoint \<Rightarrow> fleet \<Rightarrow> fleet" where
  "fleet_add h e f = bt_insert h e f"

definition fleet_endpoint :: "fleet \<Rightarrow> host_id \<Rightarrow> ctl_error + host_endpoint" where
  "fleet_endpoint f h = (case bt_get f h of None \<Rightarrow> Inl (UnknownHost h) | Some e \<Rightarrow> Inr e)"

record 'd daemon_api =
  da_recv :: "string \<Rightarrow> string \<Rightarrow> ('d, string, unit) eff"
  da_send :: "string \<Rightarrow> string \<Rightarrow> string \<Rightarrow> ('d, string, unit) eff"

definition rebalance_once ::
  "(vm_id \<Rightarrow> string) \<Rightarrow> placement \<Rightarrow> (host_id, pressure) btree \<Rightarrow> (vm_id, duration) btree \<Rightarrow> pressure
     \<Rightarrow> (host_id, compat_class) btree \<Rightarrow> fleet \<Rightarrow> 'd daemon_api \<Rightarrow> ('d, ctl_error, rebalance option) eff"
where
  "rebalance_once show_vm pl pr idle hw cc fl api d =
     (case pick_victim pl pr idle hw cc of
        None \<Rightarrow> (Inr None, d)
      | Some mv \<Rightarrow>
          (case fleet_endpoint fl (rb_to mv) of
             Inl e \<Rightarrow> (Inl e, d)
           | Inr target \<Rightarrow>
               (case fleet_endpoint fl (rb_from mv) of
                  Inl e \<Rightarrow> (Inl e, d)
                | Inr source \<Rightarrow>
                    seqE (map_errE (\<lambda>detail. Daemon (rb_to mv) ''recv'' detail)
                            (da_recv api (he_control_url target) (he_data_listen target)))
                      (seqE (map_errE (\<lambda>detail. Daemon (rb_from mv) ''send'' detail)
                              (da_send api (he_control_url source) (show_vm (rb_vm mv)) (he_data_addr target)))
                        (okE (Some mv))) d)))"

section \<open>The fake daemon\<close>

record pseudo_daemon =
  pd_calls :: "string list"
  pd_fail :: "string option"

definition pd_new :: pseudo_daemon where
  "pd_new = \<lparr> pd_calls = [], pd_fail = None \<rparr>"

definition pd_fail_on :: "string \<Rightarrow> pseudo_daemon \<Rightarrow> pseudo_daemon" where
  "pd_fail_on op d = d \<lparr> pd_fail := Some op \<rparr>"

definition pd_record :: "string \<Rightarrow> string \<Rightarrow> string \<Rightarrow> (pseudo_daemon, string, unit) eff" where
  "pd_record op url arg d =
     (let d1 = d \<lparr> pd_calls := pd_calls d @ [op @ '' '' @ url @ '' '' @ arg] \<rparr> in
      if pd_fail d1 = Some op then (Inl (''injected failure on '' @ op), d1 \<lparr> pd_fail := None \<rparr>)
      else (Inr (), d1))"

definition pseudo_daemon_api :: "pseudo_daemon daemon_api" where
  "pseudo_daemon_api =
     \<lparr> da_recv = (\<lambda>url listen. pd_record ''recv'' url listen),
       da_send = (\<lambda>url vm to. pd_record ''send'' url (vm @ '' '' @ to)) \<rparr>"

text \<open>The HTTP client: the request URLs it posts to.\<close>

definition http_daemon :: "(string \<Rightarrow> ('d, string, unit) eff) \<Rightarrow> 'd daemon_api" where
  "http_daemon post =
     \<lparr> da_recv = (\<lambda>url listen. post (url @ ''/migrate/recv?listen='' @ listen)),
       da_send = (\<lambda>url vm to. post (url @ ''/migrate/send?vm='' @ vm @ ''&to='' @ to)) \<rparr>"

section \<open>A daemon surface that records\<close>

locale recording_daemon =
  fixes api :: "'d daemon_api"
    and seen :: "'d \<Rightarrow> 'e list"
    and recv_entry :: "string \<Rightarrow> string \<Rightarrow> bool \<Rightarrow> 'e"
    and send_entry :: "string \<Rightarrow> string \<Rightarrow> string \<Rightarrow> bool \<Rightarrow> 'e"
  assumes recv_seen: "da_recv api u l d = (r, d') \<Longrightarrow> seen d' = seen d @ [recv_entry u l (\<not> isl r)]"
    and send_seen: "da_send api u v t d = (r, d') \<Longrightarrow> seen d' = seen d @ [send_entry u v t (\<not> isl r)]"
begin

text \<open>What one rebalance step can do, given the move that was picked.\<close>

definition step_ends ::
  "(vm_id \<Rightarrow> string) \<Rightarrow> fleet \<Rightarrow> rebalance option \<Rightarrow> 'd \<Rightarrow> ctl_error + rebalance option \<Rightarrow> 'd \<Rightarrow> bool"
where
  "step_ends show_vm fl pick d r d' \<longleftrightarrow>
     (case pick of
        None \<Rightarrow> r = Inr None \<and> seen d' = seen d
      | Some mv \<Rightarrow>
          (case (bt_get fl (rb_to mv), bt_get fl (rb_from mv)) of
             (None, _) \<Rightarrow> r = Inl (UnknownHost (rb_to mv)) \<and> seen d' = seen d
           | (Some t, None) \<Rightarrow> r = Inl (UnknownHost (rb_from mv)) \<and> seen d' = seen d
           | (Some t, Some s) \<Rightarrow>
               (\<exists>e. r = Inl (Daemon (rb_to mv) ''recv'' e)
                  \<and> seen d' = seen d @ [recv_entry (he_control_url t) (he_data_listen t) False])
             \<or> (\<exists>e. r = Inl (Daemon (rb_from mv) ''send'' e)
                  \<and> seen d' = seen d @ [recv_entry (he_control_url t) (he_data_listen t) True,
                       send_entry (he_control_url s) (show_vm (rb_vm mv)) (he_data_addr t) False])
             \<or> r = Inr (Some mv)
                  \<and> seen d' = seen d @ [recv_entry (he_control_url t) (he_data_listen t) True,
                       send_entry (he_control_url s) (show_vm (rb_vm mv)) (he_data_addr t) True]))"

lemma seen_recv_then:
  assumes "seqE (map_errE f (da_recv api u l)) n d = (r, d')"
  shows "(\<exists>e. r = Inl (f e) \<and> seen d' = seen d @ [recv_entry u l False])
    \<or> (\<exists>d1. seen d1 = seen d @ [recv_entry u l True] \<and> n d1 = (r, d'))"
proof (cases "da_recv api u l d")
  case (Pair r1 d1)
  with recv_seen [OF Pair] assms show ?thesis
    by (cases r1) (auto simp: seqE_def bindE_def map_errE_def)
qed

lemma seen_send_then:
  assumes "seqE (map_errE f (da_send api u v t)) (okE a) d = (r, d')"
  shows "(\<exists>e. r = Inl (f e) \<and> seen d' = seen d @ [send_entry u v t False])
    \<or> r = Inr a \<and> seen d' = seen d @ [send_entry u v t True]"
proof (cases "da_send api u v t d")
  case (Pair r1 d1)
  with send_seen [OF Pair] assms show ?thesis
    by (cases r1) (auto simp: seqE_def bindE_def map_errE_def)
qed

lemma rebalance_once_ends:
  assumes "rebalance_once show_vm pl pr idle hw cc fl api d = (r, d')"
  shows "step_ends show_vm fl (pick_victim pl pr idle hw cc) d r d'"
proof (cases "pick_victim pl pr idle hw cc")
  case None
  with assms show ?thesis by (simp add: rebalance_once_def step_ends_def)
next
  case (Some mv)
  show ?thesis
  proof (cases "bt_get fl (rb_to mv)")
    case None
    with assms Some show ?thesis by (simp add: rebalance_once_def step_ends_def fleet_endpoint_def)
  next
    case t: (Some t)
    show ?thesis
    proof (cases "bt_get fl (rb_from mv)")
      case None
      with assms Some t show ?thesis by (simp add: rebalance_once_def step_ends_def fleet_endpoint_def)
    next
      case s: (Some s)
      from assms Some t s have "seqE (map_errE (\<lambda>detail. Daemon (rb_to mv) ''recv'' detail)
            (da_recv api (he_control_url t) (he_data_listen t)))
          (seqE (map_errE (\<lambda>detail. Daemon (rb_from mv) ''send'' detail)
            (da_send api (he_control_url s) (show_vm (rb_vm mv)) (he_data_addr t))) (okE (Some mv))) d = (r, d')"
        by (simp add: rebalance_once_def fleet_endpoint_def)
      from seen_recv_then [OF this] show ?thesis
      proof
        assume "\<exists>d1. seen d1 = seen d @ [recv_entry (he_control_url t) (he_data_listen t) True]
          \<and> seqE (map_errE (\<lambda>detail. Daemon (rb_from mv) ''send'' detail)
            (da_send api (he_control_url s) (show_vm (rb_vm mv)) (he_data_addr t))) (okE (Some mv)) d1 = (r, d')"
        then obtain d1 where d1: "seen d1 = seen d @ [recv_entry (he_control_url t) (he_data_listen t) True]"
          and "seqE (map_errE (\<lambda>detail. Daemon (rb_from mv) ''send'' detail)
            (da_send api (he_control_url s) (show_vm (rb_vm mv)) (he_data_addr t))) (okE (Some mv)) d1 = (r, d')"
          by blast
        from seen_send_then [OF this(2)] d1 Some t s show ?thesis by (auto simp: step_ends_def)
      qed (use Some t s in \<open>auto simp: step_ends_def\<close>)
    qed
  qed
qed

end

interpretation pd: recording_daemon pseudo_daemon_api pd_calls
  "\<lambda>u l _. ''recv '' @ u @ '' '' @ l" "\<lambda>u v t _. ''send '' @ u @ '' '' @ v @ '' '' @ t"
  by unfold_locales (auto simp: pseudo_daemon_api_def pd_record_def Let_def split: if_splits)

text \<open>Any daemon surface records when its calls are logged beside its state.\<close>

datatype daemon_call = Called_recv string string | Called_send string string string

definition logged_api :: "'d daemon_api \<Rightarrow> ('d \<times> (daemon_call \<times> bool) list) daemon_api" where
  "logged_api api =
     \<lparr> da_recv = (\<lambda>u l s. case da_recv api u l (fst s) of
          (r, d) \<Rightarrow> (r, (d, snd s @ [(Called_recv u l, \<not> isl r)]))),
       da_send = (\<lambda>u v t s. case da_send api u v t (fst s) of
          (r, d) \<Rightarrow> (r, (d, snd s @ [(Called_send u v t, \<not> isl r)]))) \<rparr>"

interpretation lg: recording_daemon "logged_api api" snd
  "\<lambda>u l ok. (Called_recv u l, ok)" "\<lambda>u v t ok. (Called_send u v t, ok)" for api
  by unfold_locales (auto simp: logged_api_def split: prod.splits)

text \<open>
  C21. One rebalance step, for every daemon surface. Without a best move no daemon is called; a chosen
  host that is not in the fleet is an error before any call; otherwise the target is told to receive
  first, the source to send only once the target has accepted, and the move is reported only when
  both succeeded, with the error naming the host and operation that failed.
\<close>

theorem rebalance_once_spec:
  assumes "rebalance_once show_vm pl pr idle hw cc fl (logged_api api) (d, []) = (r, (d', calls))"
  shows "case pick_victim pl pr idle hw cc of
      None \<Rightarrow> r = Inr None \<and> calls = []
    | Some mv \<Rightarrow>
        (case (bt_get fl (rb_to mv), bt_get fl (rb_from mv)) of
           (None, _) \<Rightarrow> r = Inl (UnknownHost (rb_to mv)) \<and> calls = []
         | (Some t, None) \<Rightarrow> r = Inl (UnknownHost (rb_from mv)) \<and> calls = []
         | (Some t, Some s) \<Rightarrow>
             let recv = Called_recv (he_control_url t) (he_data_listen t);
                 send = Called_send (he_control_url s) (show_vm (rb_vm mv)) (he_data_addr t)
             in (\<exists>e. r = Inl (Daemon (rb_to mv) ''recv'' e) \<and> calls = [(recv, False)])
                \<or> (\<exists>e. r = Inl (Daemon (rb_from mv) ''send'' e) \<and> calls = [(recv, True), (send, False)])
                \<or> r = Inr (Some mv) \<and> calls = [(recv, True), (send, True)])"
  using lg.rebalance_once_ends [OF assms]
  by (auto simp: lg.step_ends_def Let_def split: option.splits)

definition sample_fleet :: fleet where
  "sample_fleet =
     [(HostId ''a'', \<lparr> he_control_url = ''ua'', he_data_listen = ''la'', he_data_addr = ''da'' \<rparr>),
      (HostId ''b'', \<lparr> he_control_url = ''ub'', he_data_listen = ''lb'', he_data_addr = ''db'' \<rparr>)]"

lemma rebalance_once_spec_witness:
  "let r = rebalance_once (\<lambda>_. ''vm'') [(HostId ''a'', [VmId 1])] sample_pressure [] (pressure_new (Fin (1/2)))
       sample_compat sample_fleet (logged_api pseudo_daemon_api) (pd_fail_on ''recv'' pd_new, [])
   in snd (snd r) = [(Called_recv ''ub'' ''lb'', False)]"
proof -
  obtain r d calls where run: "rebalance_once (\<lambda>_. ''vm'') [(HostId ''a'', [VmId 1])] sample_pressure []
      (pressure_new (Fin (1/2))) sample_compat sample_fleet (logged_api pseudo_daemon_api)
      (pd_fail_on ''recv'' pd_new, []) = (r, (d, calls))" by (metis prod_cases3)
  have "isl r" using run
    by (simp add: rebalance_once_def sample_pick fleet_endpoint_def sample_fleet_def bt_get_def seqE_def
        bindE_def map_errE_def logged_api_def pseudo_daemon_api_def pd_record_def pd_fail_on_def Let_def)
      (auto simp: isl_def)
  moreover have "length calls = 1" using run
    by (simp add: rebalance_once_def sample_pick fleet_endpoint_def sample_fleet_def bt_get_def seqE_def
        bindE_def map_errE_def logged_api_def pseudo_daemon_api_def pd_record_def pd_fail_on_def Let_def)
      auto
  ultimately show ?thesis
    using rebalance_once_spec [OF run] run
    by (auto simp: sample_pick sample_fleet_def bt_get_def Let_def)
qed

section \<open>The rebalance loop\<close>

record host_cfg =
  hc_id :: string
  hc_control_url :: string
  hc_data_listen :: string
  hc_data_addr :: string

record rebalance_config =
  rc_watermark :: f64
  rc_max_steps :: u32
  rc_hosts :: "host_cfg list"

definition default_max_steps :: u32 where
  "default_max_steps = 10"

record status_resp =
  sr_host :: string
  sr_vms :: "string list"
  sr_pressure :: f64
  sr_compat :: compat_class

record fleet_view =
  fv_placement :: placement
  fv_pressure :: "(host_id, pressure) btree"
  fv_idle :: "(vm_id, duration) btree"
  fv_compat :: "(host_id, compat_class) btree"

datatype loop_error = Status_of string string | Bad_vm_id string | Step_failed ctl_error

datatype loop_end = Converged | No_eligible_move | Max_reached

definition fleet_of :: "host_cfg list \<Rightarrow> fleet" where
  "fleet_of hs = foldl (\<lambda>f h. fleet_add (HostId (hc_id h))
      \<lparr> he_control_url = hc_control_url h, he_data_listen = hc_data_listen h, he_data_addr = hc_data_addr h \<rparr> f)
      fleet_new hs"

fun add_vms :: "(string \<Rightarrow> vm_id option) \<Rightarrow> host_id \<Rightarrow> string list \<Rightarrow> fleet_view \<Rightarrow> loop_error + fleet_view" where
  "add_vms parse_vm host [] v = Inr v"
| "add_vms parse_vm host (vm # vms) v =
     (case parse_vm vm of
        None \<Rightarrow> Inl (Bad_vm_id vm)
      | Some i \<Rightarrow> add_vms parse_vm host vms
          (v \<lparr> fv_placement := assign host i (fv_placement v),
               fv_idle := bt_insert i (secs 60) (fv_idle v) \<rparr>))"

fun read_fleet ::
  "(string \<Rightarrow> vm_id option) \<Rightarrow> (string \<Rightarrow> ('d, string, status_resp) eff) \<Rightarrow> host_cfg list \<Rightarrow> fleet_view
     \<Rightarrow> ('d, loop_error, fleet_view) eff"
where
  "read_fleet parse_vm fetch [] v = okE v"
| "read_fleet parse_vm fetch (h # hs) v =
     bindE (map_errE (Status_of (hc_id h)) (fetch (hc_control_url h))) (\<lambda>st.
       let host = HostId (hc_id h) in
       case add_vms parse_vm host (sr_vms st)
           (v \<lparr> fv_pressure := bt_insert host (pressure_new (sr_pressure st)) (fv_pressure v) \<rparr>) of
         Inl e \<Rightarrow> errE e
       | Inr v' \<Rightarrow> read_fleet parse_vm fetch hs
           (v' \<lparr> fv_compat := bt_insert host (sr_compat st) (fv_compat v') \<rparr>))"

definition empty_view :: fleet_view where
  "empty_view = \<lparr> fv_placement = placement_new, fv_pressure = [], fv_idle = [], fv_compat = [] \<rparr>"

text \<open>
  The steps that are left, with the readings and moves so far; \<open>pause\<close> is the five-second sleep after a
  move, during which the daemons go on.
\<close>

fun rebalance_steps ::
  "(string \<Rightarrow> vm_id option) \<Rightarrow> (vm_id \<Rightarrow> string) \<Rightarrow> (string \<Rightarrow> ('d, string, status_resp) eff)
     \<Rightarrow> ('d \<Rightarrow> 'd) \<Rightarrow> 'd daemon_api \<Rightarrow> rebalance_config \<Rightarrow> nat \<Rightarrow> 'd
     \<Rightarrow> (fleet_view \<times> rebalance) list \<times> (loop_error + loop_end) \<times> 'd"
where
  "rebalance_steps parse_vm show_vm fetch pause api cfg 0 s = ([], Inr Max_reached, s)"
| "rebalance_steps parse_vm show_vm fetch pause api cfg (Suc n) s =
     (case read_fleet parse_vm fetch (rc_hosts cfg) empty_view s of
        (Inl e, s1) \<Rightarrow> ([], Inl e, s1)
      | (Inr v, s1) \<Rightarrow>
          (case rebalance_once show_vm (fv_placement v) (fv_pressure v) (fv_idle v)
                  (pressure_new (rc_watermark cfg)) (fv_compat v) (fleet_of (rc_hosts cfg)) api s1 of
             (Inl e, s2) \<Rightarrow> ([], Inl (Step_failed e), s2)
           | (Inr (Some mv), s2) \<Rightarrow>
               (case rebalance_steps parse_vm show_vm fetch pause api cfg n (pause s2) of
                  (ms, r, s3) \<Rightarrow> ((v, mv) # ms, r, s3))
           | (Inr None, s2) \<Rightarrow>
               ([], Inr (if list_ex (\<lambda>e. f64_less (rc_watermark cfg) (pressure_get (snd e))) (fv_pressure v)
                         then No_eligible_move else Converged), s2)))"

definition rebalance_main where
  "rebalance_main parse_vm show_vm fetch pause api cfg s =
     rebalance_steps parse_vm show_vm fetch pause api cfg (unat (rc_max_steps cfg)) s"

text \<open>Readings built from status replies are sorted and went through \<open>Pressure::new\<close>.\<close>

definition view_ok :: "fleet_view \<Rightarrow> bool" where
  "view_ok v \<longleftrightarrow> bt_ok (fv_pressure v) \<and> (\<forall>(h, p) \<in> set (fv_pressure v). pressure_ok p)"

lemma set_bt_insert: "set (bt_insert k x m) \<subseteq> insert (k, x) (set m)"
  by (induction k x m rule: bt_insert.induct) auto

lemma view_ok_insert:
  "view_ok v \<Longrightarrow> view_ok (v \<lparr> fv_pressure := bt_insert h (pressure_new x) (fv_pressure v) \<rparr>)"
  using set_bt_insert [of h "pressure_new x" "fv_pressure v"]
  by (auto simp: view_ok_def bt_ok_insert pressure_new_ok)

lemma view_ok_add_vms: "add_vms parse_vm h vms v = Inr v' \<Longrightarrow> view_ok v \<Longrightarrow> view_ok v'"
  by (induction parse_vm h vms v rule: add_vms.induct) (auto simp: view_ok_def split: option.splits)

lemma view_ok_read: "read_fleet parse_vm fetch hs v s = (Inr v', s') \<Longrightarrow> view_ok v \<Longrightarrow> view_ok v'"
proof (induction hs arbitrary: v s)
  case (Cons h hs)
  let ?p = "\<lambda>st :: status_resp. v \<lparr> fv_pressure := bt_insert (HostId (hc_id h)) (pressure_new (sr_pressure st)) (fv_pressure v) \<rparr>"
  from Cons.prems(1) obtain st s1 where
    st: "(case add_vms parse_vm (HostId (hc_id h)) (sr_vms st) (?p st) of
         Inl e \<Rightarrow> errE e
       | Inr v' \<Rightarrow> read_fleet parse_vm fetch hs
           (v' \<lparr> fv_compat := bt_insert (HostId (hc_id h)) (sr_compat st) (fv_compat v') \<rparr>)) s1 = (Inr v', s')"
    by (simp add: bindE_Inr_iff Let_def) blast
  then obtain v1 where v1: "add_vms parse_vm (HostId (hc_id h)) (sr_vms st) (?p st) = Inr v1"
    by (cases "add_vms parse_vm (HostId (hc_id h)) (sr_vms st) (?p st)") auto
  with st have rest: "read_fleet parse_vm fetch hs
      (v1 \<lparr> fv_compat := bt_insert (HostId (hc_id h)) (sr_compat st) (fv_compat v1) \<rparr>) s1 = (Inr v', s')"
    by simp
  have "view_ok v1" using view_ok_add_vms [OF v1] view_ok_insert [OF Cons.prems(2)] by blast
  then show ?case using Cons.IH [OF rest] by (simp add: view_ok_def)
qed simp

lemma view_ok_empty: "view_ok empty_view"
  by (simp add: view_ok_def empty_view_def)

text \<open>A move that was carried out was the best one for the readings it was decided on.\<close>

definition justified :: "rebalance_config \<Rightarrow> fleet_view \<times> rebalance \<Rightarrow> bool" where
  "justified cfg e \<longleftrightarrow> best_move (fv_placement (fst e)) (fv_pressure (fst e)) (fv_idle (fst e))
     (pressure_new (rc_watermark cfg)) (fv_compat (fst e)) (snd e)"

lemma step_justified:
  assumes "read_fleet parse_vm fetch (rc_hosts cfg) empty_view s = (Inr v, s1)"
    and "rebalance_once show_vm (fv_placement v) (fv_pressure v) (fv_idle v)
            (pressure_new (rc_watermark cfg)) (fv_compat v) fl api s1 = (Inr (Some mv), s2)"
  shows "justified cfg (v, mv)"
proof -
  have "view_ok v" using view_ok_read [OF assms(1) view_ok_empty] .
  moreover have "pick_victim (fv_placement v) (fv_pressure v) (fv_idle v) (pressure_new (rc_watermark cfg))
      (fv_compat v) = Some mv"
    using assms(2) by (auto simp: rebalance_once_def seqE_Inr_iff split: option.splits sum.splits)
  ultimately show ?thesis
    using pick_victim_iff pressure_new_ok unfolding justified_def view_ok_def by force
qed

lemma rebalance_steps_moves:
  "rebalance_steps parse_vm show_vm fetch pause api cfg n s = (ms, r, s') \<Longrightarrow>
     length ms \<le> n \<and> (r = Inr Max_reached \<longleftrightarrow> length ms = n) \<and> (\<forall>e \<in> set ms. justified cfg e)"
proof (induction n arbitrary: s ms)
  case (Suc n)
  from Suc.prems show ?case
    by (auto split: prod.splits sum.splits option.splits if_splits dest!: Suc.IH intro: step_justified)
qed simp

text \<open>
  C22. The loop only makes moves the heuristic stands behind. Whatever the daemons answer, a run makes
  at most \<open>max_steps\<close> moves, each of them the best move for the readings taken in its own step, and it
  reports that it stopped at the limit exactly after that many moves.
\<close>

theorem rebalance_main_moves:
  assumes "rebalance_main parse_vm show_vm fetch pause api cfg s = (ms, r, s')"
  shows "length ms \<le> unat (rc_max_steps cfg)
    \<and> (r = Inr Max_reached \<longleftrightarrow> length ms = unat (rc_max_steps cfg))
    \<and> (\<forall>e \<in> set ms. best_move (fv_placement (fst e)) (fv_pressure (fst e)) (fv_idle (fst e))
          (pressure_new (rc_watermark cfg)) (fv_compat (fst e)) (snd e))"
  using rebalance_steps_moves [OF assms [unfolded rebalance_main_def]] unfolding justified_def .

definition two_hosts :: rebalance_config where
  "two_hosts = \<lparr> rc_watermark = Fin (1/2), rc_max_steps = 1, rc_hosts =
     [\<lparr> hc_id = ''a'', hc_control_url = ''ua'', hc_data_listen = ''la'', hc_data_addr = ''da'' \<rparr>,
      \<lparr> hc_id = ''b'', hc_control_url = ''ub'', hc_data_listen = ''lb'', hc_data_addr = ''db'' \<rparr>] \<rparr>"

definition two_statuses :: "string \<Rightarrow> (pseudo_daemon, string, status_resp) eff" where
  "two_statuses url d =
     (Inr (if url = ''ua''
           then \<lparr> sr_host = ''a'', sr_vms = [''v''], sr_pressure = Fin (9/10), sr_compat = sample_class \<rparr>
           else \<lparr> sr_host = ''b'', sr_vms = [], sr_pressure = Fin (1/10), sr_compat = sample_class \<rparr>), d)"

lemma two_hosts_run:
  "\<exists>v s'. rebalance_main (\<lambda>_. Some (VmId 1)) (\<lambda>_. ''v'') two_statuses id pseudo_daemon_api two_hosts pd_new =
     ([(v, \<lparr> rb_vm = VmId 1, rb_from = HostId ''a'', rb_to = HostId ''b'' \<rparr>)], Inr Max_reached, s')"
proof -
  have c: "compatible_with sample_class sample_class"
    by (simp add: compatible_with_def tsc_within_tolerance_iff)
  let ?v = "\<lparr> fv_placement = [(HostId ''a'', [VmId 1])], fv_pressure = sample_pressure,
      fv_idle = [(VmId 1, secs 60)], fv_compat = sample_compat \<rparr>"
  have r: "read_fleet (\<lambda>_. Some (VmId 1)) two_statuses (rc_hosts two_hosts) empty_view pd_new = (Inr ?v, pd_new)"
    by (simp add: two_hosts_def two_statuses_def empty_view_def bindE_def map_errE_def placement_new_def
        assign_def sample_pressure_def sample_compat_def bt_get_def less_host_id_def Let_def)
  have p: "pick_victim [(HostId ''a'', [VmId 1])] sample_pressure [(VmId 1, 60000000000)] (pressure_new (Fin (1/2)))
      sample_compat = Some \<lparr> rb_vm = VmId 1, rb_from = HostId ''a'', rb_to = HostId ''b'' \<rparr>"
    using c by (simp add: pick_victim_def hottest_host_def coolest_compatible_host_def most_idle_vm_def
        vms_on_def sample_pressure_def sample_compat_def hot_cmp_def f64_total_cmp_def pressure_new_def
        f64_clamp_def f64_less_def f64_le_def f64_num_def pressure_of_def bt_get_def)
  have f: "bt_get (fleet_of (rc_hosts two_hosts)) (HostId ''a'') \<noteq> None"
    "bt_get (fleet_of (rc_hosts two_hosts)) (HostId ''b'') \<noteq> None"
    by (simp_all add: two_hosts_def fleet_of_def fleet_add_def fleet_new_def bt_get_def less_host_id_def)
  then obtain s t where st: "bt_get (fleet_of (rc_hosts two_hosts)) (HostId ''a'') = Some s"
    "bt_get (fleet_of (rc_hosts two_hosts)) (HostId ''b'') = Some t" by auto
  have w: "rc_watermark two_hosts = Fin (1/2)" "rc_max_steps two_hosts = 1" by (simp_all add: two_hosts_def)
  have "\<exists>s2. rebalance_once (\<lambda>_. ''v'') (fv_placement ?v) (fv_pressure ?v) (fv_idle ?v)
      (pressure_new (rc_watermark two_hosts)) (fv_compat ?v) (fleet_of (rc_hosts two_hosts))
      pseudo_daemon_api pd_new = (Inr (Some \<lparr> rb_vm = VmId 1, rb_from = HostId ''a'', rb_to = HostId ''b'' \<rparr>), s2)"
    by (simp add: w rebalance_once_def p fleet_endpoint_def st seqE_def bindE_def
        map_errE_def pseudo_daemon_api_def pd_record_def pd_new_def Let_def)
  then show ?thesis by (auto simp: rebalance_main_def w r)
qed

lemma rebalance_main_moves_witness:
  "\<exists>v :: fleet_view. best_move (fv_placement v) (fv_pressure v) (fv_idle v) (pressure_new (Fin (1/2))) (fv_compat v)
     \<lparr> rb_vm = VmId 1, rb_from = HostId ''a'', rb_to = HostId ''b'' \<rparr>"
proof -
  from two_hosts_run obtain v s' where
    "rebalance_main (\<lambda>_. Some (VmId 1)) (\<lambda>_. ''v'') two_statuses id pseudo_daemon_api two_hosts pd_new =
       ([(v, \<lparr> rb_vm = VmId 1, rb_from = HostId ''a'', rb_to = HostId ''b'' \<rparr>)], Inr Max_reached, s')" by blast
  from rebalance_main_moves [OF this] show ?thesis by (auto simp: two_hosts_def)
qed

end
