(* ===== verification/Quiescence.thy ===== *)
theory Quiescence
  imports Comparators Proto_Messages
begin

text \<open>
  The layered quiescence detector of \<open>crates/hostd/src/quiesce.rs\<close> and the coordinator of
  \<open>drain.rs\<close> that folds one drain's signals into a verdict. The queue of samples is a list, oldest
  first. The locale \<open>evidence_layer\<close> is the detector's design rule, that no layer is quiet before it
  has been told anything; the three layers satisfy it.
\<close>

record app_layer =
  al_gated :: bool
  al_in_flight :: "turn_id option"

definition app_new :: app_layer where
  "app_new = \<lparr> al_gated = False, al_in_flight = None \<rparr>"

definition app_turn_started :: "turn_id \<Rightarrow> app_layer \<Rightarrow> app_layer" where
  "app_turn_started t a = a \<lparr> al_in_flight := Some t \<rparr>"

definition app_turn_ended :: "app_layer \<Rightarrow> app_layer" where
  "app_turn_ended a = a \<lparr> al_in_flight := None \<rparr>"

definition app_drain_acked :: "turn_id option \<Rightarrow> app_layer \<Rightarrow> app_layer" where
  "app_drain_acked i a = a \<lparr> al_gated := True, al_in_flight := i \<rparr>"

definition app_drain_cancelled :: "app_layer \<Rightarrow> app_layer" where
  "app_drain_cancelled a = a \<lparr> al_gated := False \<rparr>"

definition app_is_quiet :: "app_layer \<Rightarrow> bool" where
  "app_is_quiet a \<longleftrightarrow> al_gated a \<and> al_in_flight a = None"

record infra_thresholds =
  it_cpu_pct :: f64
  it_samples :: nat

record infra_layer =
  il_thresholds :: infra_thresholds
  il_recent :: "f64 list"
  il_queues_quiet :: bool

definition infra_new :: "infra_thresholds \<Rightarrow> infra_layer" where
  "infra_new t = \<lparr> il_thresholds = t, il_recent = [], il_queues_quiet = False \<rparr>"

definition infra_record :: "f64 \<Rightarrow> bool \<Rightarrow> infra_layer \<Rightarrow> infra_layer" where
  "infra_record cpu q l =
     (let recent = (if length (il_recent l) = it_samples (il_thresholds l) then tl (il_recent l)
                    else il_recent l)
      in l \<lparr> il_recent := recent @ [cpu], il_queues_quiet := q \<rparr>)"

definition infra_is_quiet :: "infra_layer \<Rightarrow> bool" where
  "infra_is_quiet l \<longleftrightarrow>
     0 < it_samples (il_thresholds l)
     \<and> length (il_recent l) = it_samples (il_thresholds l)
     \<and> il_queues_quiet l
     \<and> list_all (\<lambda>c. f64_less c (it_cpu_pct (il_thresholds l))) (il_recent l)"

record storage_layer =
  sl_caught_up :: bool

definition storage_new :: storage_layer where
  "storage_new = \<lparr> sl_caught_up = False \<rparr>"

definition set_caught_up :: "bool \<Rightarrow> storage_layer \<Rightarrow> storage_layer" where
  "set_caught_up b l = l \<lparr> sl_caught_up := b \<rparr>"

definition storage_is_quiet :: "storage_layer \<Rightarrow> bool" where
  "storage_is_quiet l = sl_caught_up l"

record quiescence_report =
  qr_app :: bool
  qr_infra :: bool
  qr_storage :: bool

definition report_is_quiescent :: "quiescence_report \<Rightarrow> bool" where
  "report_is_quiescent r \<longleftrightarrow> qr_app r \<and> qr_infra r \<and> qr_storage r"

record quiescence_detector =
  qd_app :: app_layer
  qd_infra :: infra_layer
  qd_storage :: storage_layer

definition detector_new :: "infra_thresholds \<Rightarrow> quiescence_detector" where
  "detector_new t = \<lparr> qd_app = app_new, qd_infra = infra_new t, qd_storage = storage_new \<rparr>"

definition detector_report :: "quiescence_detector \<Rightarrow> quiescence_report" where
  "detector_report d = \<lparr> qr_app = app_is_quiet (qd_app d), qr_infra = infra_is_quiet (qd_infra d),
     qr_storage = storage_is_quiet (qd_storage d) \<rparr>"

definition detector_is_quiescent :: "quiescence_detector \<Rightarrow> bool" where
  "detector_is_quiescent d = report_is_quiescent (detector_report d)"

section \<open>The coordinator\<close>

datatype drain_verdict = Quiescent | Busy "turn_id option"

record drain_coordinator =
  dc_detector :: quiescence_detector

definition coordinator_new :: "infra_thresholds \<Rightarrow> drain_coordinator" where
  "coordinator_new t = \<lparr> dc_detector = detector_new t \<rparr>"

definition observe_guest :: "guest_to_host \<Rightarrow> drain_coordinator \<Rightarrow> drain_coordinator" where
  "observe_guest m c =
     (let d = dc_detector c in
      case m of
        TurnStarted t _ \<Rightarrow> c \<lparr> dc_detector := d \<lparr> qd_app := app_turn_started t (qd_app d) \<rparr> \<rparr>
      | TurnEnded _ _ \<Rightarrow> c \<lparr> dc_detector := d \<lparr> qd_app := app_turn_ended (qd_app d) \<rparr> \<rparr>
      | DrainAck i \<Rightarrow> c \<lparr> dc_detector := d \<lparr> qd_app := app_drain_acked i (qd_app d) \<rparr> \<rparr>
      | _ \<Rightarrow> c)"

definition observe_infra :: "f64 \<Rightarrow> bool \<Rightarrow> drain_coordinator \<Rightarrow> drain_coordinator" where
  "observe_infra cpu q c =
     (let d = dc_detector c in c \<lparr> dc_detector := d \<lparr> qd_infra := infra_record cpu q (qd_infra d) \<rparr> \<rparr>)"

definition observe_storage :: "bool \<Rightarrow> drain_coordinator \<Rightarrow> drain_coordinator" where
  "observe_storage b c =
     (let d = dc_detector c in c \<lparr> dc_detector := d \<lparr> qd_storage := set_caught_up b (qd_storage d) \<rparr> \<rparr>)"

definition coordinator_report :: "drain_coordinator \<Rightarrow> quiescence_report" where
  "coordinator_report c = detector_report (dc_detector c)"

definition verdict :: "drain_coordinator \<Rightarrow> drain_verdict" where
  "verdict c = (if detector_is_quiescent (dc_detector c) then Quiescent
     else Busy (al_in_flight (qd_app (dc_detector c))))"

section \<open>Layers need evidence\<close>

locale evidence_layer =
  fixes start :: 'l
    and feed :: "'o \<Rightarrow> 'l \<Rightarrow> 'l"
    and quiet :: "'l \<Rightarrow> bool"
  assumes start_active: "\<not> quiet start"
begin

lemma quiet_needs_evidence: "quiet (foldl (\<lambda>l ob. feed ob l) start obs) \<Longrightarrow> obs \<noteq> []"
  using start_active by (cases obs) auto

lemma quiet_since:
  assumes "quiet (foldl (\<lambda>l ob. feed ob l) start obs)"
  shows "\<exists>pre ob post. obs = pre @ ob # post \<and> \<not> quiet (foldl (\<lambda>l ob. feed ob l) start pre)
    \<and> quiet (foldl (\<lambda>l ob. feed ob l) start (pre @ [ob]))"
  using assms
proof (induction obs rule: rev_induct)
  case Nil
  with start_active show ?case by simp
next
  case (snoc ob obs)
  show ?case
  proof (cases "quiet (foldl (\<lambda>l ob. feed ob l) start obs)")
    case True
    from snoc.IH [OF True] obtain pre o' post where "obs = pre @ o' # post"
      "\<not> quiet (foldl (\<lambda>l ob. feed ob l) start pre)" "quiet (foldl (\<lambda>l ob. feed ob l) start (pre @ [o']))"
      by blast
    then show ?thesis by (intro exI [of _ pre] exI [of _ o'] exI [of _ "post @ [ob]"]) simp
  next
    case False
    with snoc.prems show ?thesis by (intro exI [of _ obs] exI [of _ ob] exI [of _ "[]"]) simp
  qed
qed

end

definition app_feed :: "guest_to_host \<Rightarrow> app_layer \<Rightarrow> app_layer" where
  "app_feed m a = qd_app (dc_detector (observe_guest m
     \<lparr> dc_detector = \<lparr> qd_app = a, qd_infra = infra_new \<lparr> it_cpu_pct = Fin 0, it_samples = 0 \<rparr>,
        qd_storage = storage_new \<rparr> \<rparr>))"

definition infra_feed :: "f64 \<times> bool \<Rightarrow> infra_layer \<Rightarrow> infra_layer" where
  "infra_feed s l = infra_record (fst s) (snd s) l"

interpretation app: evidence_layer app_new app_feed app_is_quiet
  by unfold_locales (simp add: app_new_def app_is_quiet_def)

interpretation infra: evidence_layer "infra_new t" infra_feed infra_is_quiet for t
  by unfold_locales (simp add: infra_new_def infra_is_quiet_def)

interpretation storage: evidence_layer storage_new set_caught_up storage_is_quiet
  by unfold_locales (simp add: storage_new_def storage_is_quiet_def)

section \<open>The verdict of a trace of observations\<close>

datatype observation = Obs_guest guest_to_host | Obs_infra f64 bool | Obs_storage bool

fun observe :: "observation \<Rightarrow> drain_coordinator \<Rightarrow> drain_coordinator" where
  "observe (Obs_guest m) c = observe_guest m c"
| "observe (Obs_infra cpu q) c = observe_infra cpu q c"
| "observe (Obs_storage b) c = observe_storage b c"

definition observe_all :: "observation list \<Rightarrow> drain_coordinator \<Rightarrow> drain_coordinator" where
  "observe_all obs c = foldl (\<lambda>c ob. observe ob c) c obs"

fun guest_obs :: "observation \<Rightarrow> guest_to_host list" where
  "guest_obs (Obs_guest m) = [m]"
| "guest_obs _ = []"

fun infra_obs :: "observation \<Rightarrow> (f64 \<times> bool) list" where
  "infra_obs (Obs_infra cpu q) = [(cpu, q)]"
| "infra_obs _ = []"

fun storage_obs :: "observation \<Rightarrow> bool list" where
  "storage_obs (Obs_storage b) = [b]"
| "storage_obs _ = []"

lemma observe_parts:
  "qd_app (dc_detector (observe ob c)) = foldl (\<lambda>a m. app_feed m a) (qd_app (dc_detector c)) (guest_obs ob)"
  "qd_infra (dc_detector (observe ob c)) = foldl (\<lambda>l s. infra_feed s l) (qd_infra (dc_detector c)) (infra_obs ob)"
  "qd_storage (dc_detector (observe ob c)) = foldl (\<lambda>l b. set_caught_up b l) (qd_storage (dc_detector c)) (storage_obs ob)"
  by (cases ob; simp add: observe_guest_def observe_infra_def observe_storage_def app_feed_def
      infra_feed_def Let_def split: guest_to_host.split)+

lemma observe_all_parts:
  "qd_app (dc_detector (observe_all obs c)) =
     foldl (\<lambda>a m. app_feed m a) (qd_app (dc_detector c)) (concat (map guest_obs obs))"
  "qd_infra (dc_detector (observe_all obs c)) =
     foldl (\<lambda>l s. infra_feed s l) (qd_infra (dc_detector c)) (concat (map infra_obs obs))"
  "qd_storage (dc_detector (observe_all obs c)) =
     foldl (\<lambda>l b. set_caught_up b l) (qd_storage (dc_detector c)) (concat (map storage_obs obs))"
  unfolding observe_all_def by (induction obs rule: rev_induct) (simp_all add: observe_parts)

text \<open>What the messages say: whether a drain was acked, and which turn is the last one left open.\<close>

fun is_drain_ack :: "guest_to_host \<Rightarrow> bool" where
  "is_drain_ack (DrainAck _) = True"
| "is_drain_ack _ = False"

fun reported_step :: "turn_id option \<Rightarrow> guest_to_host \<Rightarrow> turn_id option" where
  "reported_step _ (TurnStarted t _) = Some t"
| "reported_step _ (TurnEnded _ _) = None"
| "reported_step _ (DrainAck i) = i"
| "reported_step w _ = w"

definition reported_in_flight :: "guest_to_host list \<Rightarrow> turn_id option" where
  "reported_in_flight = foldl reported_step None"

lemma app_fold:
  "foldl (\<lambda>a m. app_feed m a) app_new ms =
     \<lparr> al_gated = list_ex is_drain_ack ms, al_in_flight = reported_in_flight ms \<rparr>"
proof (induction ms rule: rev_induct)
  case Nil
  then show ?case by (simp add: app_new_def reported_in_flight_def)
next
  case (snoc m ms)
  then show ?case
    by (cases m) (simp_all add: app_feed_def observe_guest_def app_turn_started_def app_turn_ended_def
        app_drain_acked_def reported_in_flight_def Let_def)
qed

text \<open>The window holds the last \<open>N\<close> samples, for a positive \<open>N\<close>.\<close>

definition last_n :: "nat \<Rightarrow> 'a list \<Rightarrow> 'a list" where
  "last_n n xs = drop (length xs - n) xs"

lemma last_n_snoc:
  "0 < n \<Longrightarrow> last_n n (xs @ [x]) = (if length (last_n n xs) = n then tl (last_n n xs) else last_n n xs) @ [x]"
proof (cases "n \<le> length xs")
  case True
  assume "0 < n"
  with True have "Suc (length xs) - n \<le> length xs" and eq: "Suc (length xs) - n = Suc (length xs - n)" by simp_all
  then have "last_n n (xs @ [x]) = drop (Suc (length xs - n)) xs @ [x]" by (simp add: last_n_def)
  then show ?thesis using True by (simp add: last_n_def drop_Suc tl_drop)
next
  case False
  then show ?thesis by (simp add: last_n_def)
qed

lemma infra_fold:
  assumes "0 < it_samples t"
  shows "foldl (\<lambda>l s. infra_feed s l) (infra_new t) ss =
     \<lparr> il_thresholds = t, il_recent = last_n (it_samples t) (map fst ss),
       il_queues_quiet = (ss \<noteq> [] \<and> snd (last ss)) \<rparr>"
proof (induction ss rule: rev_induct)
  case Nil
  then show ?case by (simp add: infra_new_def last_n_def)
next
  case (snoc s ss)
  then show ?case
    using assms by (simp add: infra_feed_def infra_record_def Let_def last_n_snoc)
qed

lemma infra_fold_zero:
  assumes "it_samples t = 0"
  shows "il_recent (foldl (\<lambda>l s. infra_feed s l) (infra_new t) ss) = map fst ss
    \<and> il_thresholds (foldl (\<lambda>l s. infra_feed s l) (infra_new t) ss) = t"
  using assms by (induction ss rule: rev_induct) (auto simp: infra_feed_def infra_record_def infra_new_def)

lemma infra_quiet_fold:
  "infra_is_quiet (foldl (\<lambda>l s. infra_feed s l) (infra_new t) ss) \<longleftrightarrow>
     0 < it_samples t \<and> it_samples t \<le> length ss \<and> snd (last ss)
     \<and> (\<forall>s \<in> set (last_n (it_samples t) ss). f64_less (fst s) (it_cpu_pct t))"
proof (cases "0 < it_samples t")
  case True
  have "last_n n (map fst ss) = map fst (last_n n ss)" for n by (simp add: last_n_def drop_map)
  moreover have "length (last_n n ss) = n \<longleftrightarrow> n \<le> length ss" for n by (auto simp: last_n_def)
  ultimately show ?thesis
    using True by (auto simp: infra_fold [OF True] infra_is_quiet_def list_all_iff)
next
  case False
  then show ?thesis using infra_fold_zero [of t ss] by (simp add: infra_is_quiet_def)
qed

lemma storage_fold: "storage_is_quiet (foldl (\<lambda>l b. set_caught_up b l) storage_new bs) \<longleftrightarrow> bs \<noteq> [] \<and> last bs"
  by (induction bs rule: rev_induct) (simp_all add: storage_is_quiet_def storage_new_def set_caught_up_def)

lemma verdict_cases:
  "verdict (observe_all obs (coordinator_new t)) =
     (let gs = concat (map guest_obs obs); is = concat (map infra_obs obs); ss = concat (map storage_obs obs) in
      if list_ex is_drain_ack gs \<and> reported_in_flight gs = None
         \<and> (0 < it_samples t \<and> it_samples t \<le> length is \<and> snd (last is)
            \<and> (\<forall>s \<in> set (last_n (it_samples t) is). f64_less (fst s) (it_cpu_pct t)))
         \<and> ss \<noteq> [] \<and> last ss
      then Quiescent else Busy (reported_in_flight gs))"
  by (simp add: verdict_def detector_is_quiescent_def report_is_quiescent_def detector_report_def
      observe_all_parts coordinator_new_def detector_new_def app_fold infra_quiet_fold storage_fold
      app_is_quiet_def Let_def del: concat.simps)

text \<open>
  C27. The verdict is verified, not assumed. Whatever is observed, in whatever order the guest's
  messages, samples and sync reports interleave, the verdict is \<open>Quiescent\<close> exactly when the guest has
  acked a drain and the turn last reported is over, the last \<open>samples\<close> utilizations, at least one and
  all there, are below the threshold with the queues quiet at the last tick, and the latest sync
  report says caught up. In every other case it is \<open>Busy\<close> with the turn last reported in flight.
\<close>

theorem verdict_spec:
  "verdict (observe_all obs (coordinator_new t)) =
     (let gs = concat (map guest_obs obs); is = concat (map infra_obs obs); ss = concat (map storage_obs obs) in
      if list_ex is_drain_ack gs \<and> reported_in_flight gs = None
         \<and> (0 < it_samples t \<and> it_samples t \<le> length is \<and> snd (last is)
            \<and> list_all (\<lambda>s. f64_less (fst s) (it_cpu_pct t)) (last_n (it_samples t) is))
         \<and> ss \<noteq> [] \<and> last ss
      then Quiescent else Busy (reported_in_flight gs))"
  by (simp only: verdict_cases list_all_iff)

text \<open>
  A window of size zero is no window. With \<open>samples = 0\<close> the infra layer keeps every sample it is
  given, without bound, and never becomes quiet, so such a drain can only time out.
\<close>

theorem zero_window_grows:
  assumes "it_samples t = 0"
  shows "length (il_recent (qd_infra (dc_detector (observe_all obs (coordinator_new t)))))
           = length (concat (map infra_obs obs))
    \<and> verdict (observe_all obs (coordinator_new t)) \<noteq> Quiescent"
proof
  show "verdict (observe_all obs (coordinator_new t)) \<noteq> Quiescent"
    unfolding verdict_cases using assms by (simp add: Let_def)
  show "length (il_recent (qd_infra (dc_detector (observe_all obs (coordinator_new t)))))
      = length (concat (map infra_obs obs))"
    using infra_fold_zero [OF assms]
    by (simp add: observe_all_parts coordinator_new_def detector_new_def del: length_concat)
qed

lemma zero_window_grows_witness:
  "length (il_recent (qd_infra (dc_detector (observe_all
      [Obs_infra (Fin 1) True, Obs_infra (Fin 2) True]
      (coordinator_new \<lparr> it_cpu_pct = Fin 5, it_samples = 0 \<rparr>))))) = 2"
  using zero_window_grows [of "\<lparr> it_cpu_pct = Fin 5, it_samples = 0 \<rparr>"
      "[Obs_infra (Fin 1) True, Obs_infra (Fin 2) True]"]
  by simp

text \<open>
  A \<open>Busy\<close> verdict without a turn does not mean that the app layer is quiet. Before any message
  arrives the verdict is \<open>Busy None\<close> while the report says the app layer is active: the gate has not
  been acknowledged.
\<close>

theorem busy_none_with_active_app:
  "verdict (coordinator_new t) = Busy None \<and> \<not> qr_app (coordinator_report (coordinator_new t))"
  using verdict_cases [of "[]" t]
  by (simp add: observe_all_def reported_in_flight_def coordinator_report_def detector_report_def
      coordinator_new_def detector_new_def app_new_def app_is_quiet_def Let_def)

end
