(* ===== verification/Drain_Safety.thy ===== *)
theory Drain_Safety
  imports Guest_Facts Quiescence
begin

text \<open>
  The two halves of the drain together: the supervisor of \<open>Guest_Supervisor\<close> sends, the coordinator of
  \<open>Quiescence\<close> listens. What the host concludes is true of the guest.
\<close>

lemma reported_is_wire: "acks_truthful ms \<Longrightarrow> reported_in_flight ms = wire_in_flight ms"
proof (induction ms rule: rev_induct)
  case Nil
  then show ?case by (simp add: reported_in_flight_def)
next
  case (snoc m ms)
  from snoc.prems have "acks_truthful ms" and a: "\<And>i. m = DrainAck i \<Longrightarrow> i = wire_in_flight ms"
    by (simp_all add: acks_truthful_snoc)
  with snoc.IH have "reported_in_flight ms = wire_in_flight ms" by simp
  with a show ?case by (cases m) (simp_all add: reported_in_flight_def)
qed

text \<open>Once a drain is acked the gate is closed, and it stays closed while nobody reopens it.\<close>

lemma ack_means_gated_step:
  assumes "list_ex is_drain_ack (transcript g) \<longrightarrow> g_gated g" "\<not> opens_gate c"
  shows "list_ex is_drain_ack (transcript (snd (guest_do pc_send pc_recv c g)))
    \<longrightarrow> g_gated (snd (guest_do pc_send pc_recv c g))"
proof -
  have send: "g_send pc_send m h = (Inr (), h \<lparr> g_chan := (g_chan h) \<lparr> pc_sent := transcript h @ [m] \<rparr> \<rparr>)" for m h
    by (simp add: g_send_def pc_send_def)
  have recv: "g_recv pc_recv h = (r, h') \<Longrightarrow> transcript h' = transcript h \<and> g_gated h' = g_gated h" for h r h'
    by (auto simp: g_recv_def pc_recv_def split: list.splits)
  show ?thesis
  proof (cases c)
    case Call_Handshake
    with assms recv show ?thesis
      by (auto simp: handshake_def seqE_def bindE_def send split: prod.splits sum.splits host_to_guest.splits)
  next
    case (Call_Handle m now)
    with assms show ?thesis
      by (cases m; cases "g_in_flight g")
        (auto simp: guest_handle_def run_turn_def send seqE_def bindE_def Let_def)
  qed (use assms in \<open>auto simp: start_turn_def run_turn_def begin_observed_turn_def replay_next_def
        begin_turn_def end_turn_def void_def send seqE_def bindE_def Let_def split: option.splits\<close>)
qed

lemma ack_means_gated:
  "\<forall>c \<in> set cs. \<not> opens_gate c \<Longrightarrow>
     list_ex is_drain_ack (transcript (guest_run pc_send pc_recv cs (fresh_guest v ver inbox)))
       \<longrightarrow> g_gated (guest_run pc_send pc_recv cs (fresh_guest v ver inbox))"
  by (induction cs rule: rev_induct) (use ack_means_gated_step in auto)



end
