(* ===== verification/Snapshot_Transfer.thy ===== *)
theory Snapshot_Transfer
  imports Byte_Strings
begin

text \<open>
  The framed, checksummed snapshot stream of \<open>crates/hostd/src/transfer.rs\<close>.

  The writer is any sink of bytes, an effect over its own state; the reader is the bytes that will
  arrive and the error that ends them. Reads of a source file may return fewer bytes than asked for, or
  fail, as an oracle decides. The CRC hasher is \<open>crc32fast\<close>'s: a record of its three functions, of which
  the properties only use that feeding two pieces is feeding their concatenation. Files on the
  receiving host are a map from paths to contents.
\<close>

definition CHUNK :: nat where
  "CHUNK = 64 * 1024"

datatype transfer_error =
    Tr_Io string
  | Tr_Checksum string u32 u32
  | Tr_Protocol string

fun show_transfer_error :: "transfer_error \<Rightarrow> string" where
  "show_transfer_error (Tr_Io e) = ''transfer io: '' @ e"
| "show_transfer_error (Tr_Checksum f expected got) =
     ''checksum mismatch for '' @ f @ '': expected '' @ pad_left 8 (CHR ''0'') (show_hex (unat expected))
       @ '', got '' @ pad_left 8 (CHR ''0'') (show_hex (unat got))"
| "show_transfer_error (Tr_Protocol e) = ''transfer protocol error: '' @ e"

record outbound_file =
  of_name :: string
  of_path :: string

record 'h hasher =
  hs_new :: 'h
  hs_update :: "byte list \<Rightarrow> 'h \<Rightarrow> 'h"
  hs_finalize :: "'h \<Rightarrow> u32"

type_synonym 'w sink = "byte list \<Rightarrow> 'w \<Rightarrow> (string + unit) \<times> 'w"

definition put :: "'w sink \<Rightarrow> byte list \<Rightarrow> ('w, transfer_error, unit) eff" where
  "put wr bs = map_errE Tr_Io (wr bs)"

section \<open>Sending\<close>

text \<open>How many bytes one read returns: at least one while there are any, never more than asked.\<close>

definition read_len :: "nat \<Rightarrow> nat \<Rightarrow> nat \<Rightarrow> nat" where
  "read_len k want avail = min (max 1 k) (min want avail)"

type_synonym read_oracle = "nat \<Rightarrow> nat \<Rightarrow> string + nat"

function send_data ::
  "'h hasher \<Rightarrow> read_oracle \<Rightarrow> 'w sink \<Rightarrow> string \<Rightarrow> nat \<Rightarrow> byte list \<Rightarrow> 'h \<Rightarrow> ('w, transfer_error, 'h) eff"
where
  "send_data h rd wr name remaining data st w =
     (if remaining = 0 then (Inr st, w)
      else let want = min remaining CHUNK in
        case rd want (length data) of
          Inl e \<Rightarrow> (Inl (Tr_Io e), w)
        | Inr k \<Rightarrow>
            (let n = read_len k want (length data) in
             if n = 0 then (Inl (Tr_Protocol (name @ '' is shorter than its declared length'')), w)
             else case put wr (take n data) w of
               (Inl e, w') \<Rightarrow> (Inl e, w')
             | (Inr _, w') \<Rightarrow>
                 send_data h rd wr name (remaining - n) (drop n data) (hs_update h (take n data) st) w'))"
  by pat_completeness auto
termination
  by (relation "measure (\<lambda>(h, rd, wr, name, remaining, data, st, w). remaining)") auto

declare send_data.simps [simp del]

text \<open>\<open>open_file\<close> is the source host's file system: an error, or the metadata length and the contents.\<close>

type_synonym source_fs = "string \<Rightarrow> string + (string + u64) \<times> byte list"

definition send_file ::
  "'h hasher \<Rightarrow> read_oracle \<Rightarrow> source_fs \<Rightarrow> 'w sink \<Rightarrow> outbound_file \<Rightarrow> ('w, transfer_error, unit) eff"
where
  "send_file h rd open_file wr f =
     (let name = bytes_of_string (of_name f) in
      if 2 ^ 16 \<le> length name then errE (Tr_Protocol (''name too long: '' @ of_name f))
      else case open_file (of_path f) of
        Inl e \<Rightarrow> errE (Tr_Io e)
      | Inr (Inl e, _) \<Rightarrow> errE (Tr_Io e)
      | Inr (Inr len, data) \<Rightarrow>
          seqE (put wr (be_bytes 2 (length name)))
            (seqE (put wr name)
              (seqE (put wr (be_bytes 8 (unat len)))
                (bindE (send_data h rd wr (of_name f) (unat len) data (hs_new h))
                  (\<lambda>st. put wr (be_bytes 4 (unat (hs_finalize h st))))))))"

fun send_each ::
  "'h hasher \<Rightarrow> read_oracle \<Rightarrow> source_fs \<Rightarrow> 'w sink \<Rightarrow> outbound_file list \<Rightarrow> ('w, transfer_error, unit) eff"
where
  "send_each h rd open_file wr [] = okE ()"
| "send_each h rd open_file wr (f # fs) =
     seqE (send_file h rd open_file wr f) (send_each h rd open_file wr fs)"

text \<open>\<open>send_files\<close>; the final \<open>flush\<close> is an empty write.\<close>

definition send_files ::
  "'h hasher \<Rightarrow> read_oracle \<Rightarrow> source_fs \<Rightarrow> 'w sink \<Rightarrow> outbound_file list \<Rightarrow> ('w, transfer_error, unit) eff"
where
  "send_files h rd open_file wr fs =
     seqE (send_each h rd open_file wr fs) (seqE (put wr (be_bytes 2 0)) (put wr []))"

section \<open>Receiving\<close>

record byte_stream =
  bs_bytes :: "byte list"
  bs_end :: string

record target_fs =
  tf_files :: "string \<Rightarrow> byte list option"
  tf_create_err :: "string \<Rightarrow> string option"
  tf_write_err :: "string \<Rightarrow> byte list \<Rightarrow> string option"

record receiver =
  rx_stream :: byte_stream
  rx_fs :: target_fs

definition read_exact :: "nat \<Rightarrow> (receiver, transfer_error, byte list) eff" where
  "read_exact n s =
     (let bs = bs_bytes (rx_stream s) in
      if n \<le> length bs
      then (Inr (take n bs), s \<lparr> rx_stream := (rx_stream s) \<lparr> bs_bytes := drop n bs \<rparr> \<rparr>)
      else (Inl (Tr_Io (bs_end (rx_stream s))), s \<lparr> rx_stream := (rx_stream s) \<lparr> bs_bytes := [] \<rparr> \<rparr>))"

definition read_be :: "nat \<Rightarrow> (receiver, transfer_error, nat) eff" where
  "read_be n = bindE (read_exact n) (\<lambda>bs. okE (be_nat bs))"

definition create_file :: "string \<Rightarrow> (receiver, transfer_error, unit) eff" where
  "create_file p s =
     (case tf_create_err (rx_fs s) p of
        Some e \<Rightarrow> (Inl (Tr_Io e), s)
      | None \<Rightarrow> (Inr (), s \<lparr> rx_fs := (rx_fs s) \<lparr> tf_files := (tf_files (rx_fs s))(p \<mapsto> []) \<rparr> \<rparr>))"

definition write_file :: "string \<Rightarrow> byte list \<Rightarrow> (receiver, transfer_error, unit) eff" where
  "write_file p bs s =
     (let old = (case tf_files (rx_fs s) p of None \<Rightarrow> [] | Some c \<Rightarrow> c) in
      case tf_write_err (rx_fs s) p old of
        Some e \<Rightarrow> (Inl (Tr_Io e), s)
      | None \<Rightarrow> (Inr (), s \<lparr> rx_fs := (rx_fs s) \<lparr> tf_files := (tf_files (rx_fs s))(p \<mapsto> old @ bs) \<rparr> \<rparr>))"

function recv_data :: "'h hasher \<Rightarrow> string \<Rightarrow> nat \<Rightarrow> 'h \<Rightarrow> (receiver, transfer_error, 'h) eff" where
  "recv_data h dest remaining st s =
     (if remaining = 0 then (Inr st, s)
      else let want = min remaining CHUNK in
        case read_exact want s of
          (Inl e, s') \<Rightarrow> (Inl e, s')
        | (Inr bs, s') \<Rightarrow>
            (case write_file dest bs s' of
               (Inl e, s'') \<Rightarrow> (Inl e, s'')
             | (Inr _, s'') \<Rightarrow> recv_data h dest (remaining - want) (hs_update h bs st) s''))"
  by pat_completeness auto
termination
  by (relation "measure (\<lambda>(h, dest, remaining, st, s). remaining)") (auto simp: CHUNK_def)

declare recv_data.simps [simp del]

fun contains_sub :: "'a list \<Rightarrow> 'a list \<Rightarrow> bool" where
  "contains_sub p [] \<longleftrightarrow> p = []"
| "contains_sub p (x # xs) \<longleftrightarrow> starts_with p (x # xs) \<or> contains_sub p xs"

definition unsafe_name :: "string \<Rightarrow> bool" where
  "unsafe_name n \<longleftrightarrow> n = [] \<or> CHR ''/'' \<in> set n \<or> CHR 0x5C \<in> set n \<or> contains_sub ''..'' n"

definition path_join :: "string \<Rightarrow> string \<Rightarrow> string" where
  "path_join d n = (if d = [] then n else if last d = CHR ''/'' then d @ n else d @ ''/'' @ n)"

text \<open>One file after its name length has been read; the result is the path written.\<close>

definition recv_file :: "'h hasher \<Rightarrow> string \<Rightarrow> nat \<Rightarrow> (receiver, transfer_error, string) eff" where
  "recv_file h dest_dir name_len =
     bindE (read_exact name_len) (\<lambda>name_buf.
       if \<not> utf8_valid name_buf then errE (Tr_Protocol ''non-utf8 file name'')
       else let name = string_of_bytes name_buf in
         if unsafe_name name then errE (Tr_Protocol (''unsafe file name: '' @ name))
         else bindE (read_be 8) (\<lambda>len.
           let dest = path_join dest_dir name in
           seqE (create_file dest)
             (bindE (recv_data h dest len (hs_new h)) (\<lambda>st.
               bindE (read_be 4) (\<lambda>expected.
                 let got = hs_finalize h st in
                 if of_nat expected \<noteq> got then errE (Tr_Checksum name (of_nat expected) got)
                 else okE dest)))))"

text \<open>The loop over files. Each round consumes at least the two bytes of a name length.\<close>

lemma read_exact_shrinks:
  "read_exact n s = (Inr bs, s') \<Longrightarrow>
     length (bs_bytes (rx_stream s')) + n = length (bs_bytes (rx_stream s))"
  by (auto simp: read_exact_def Let_def split: if_splits)

lemma read_be_shrinks:
  "read_be n s = (Inr v, s') \<Longrightarrow>
     length (bs_bytes (rx_stream s')) + n = length (bs_bytes (rx_stream s))"
  by (auto simp: read_be_def eff_iffs dest: read_exact_shrinks)

lemma write_file_stream: "write_file p bs s = (r, s') \<Longrightarrow> rx_stream s' = rx_stream s"
  by (auto simp: write_file_def Let_def split: option.splits)

lemma create_file_stream: "create_file p s = (r, s') \<Longrightarrow> rx_stream s' = rx_stream s"
  by (auto simp: create_file_def split: option.splits)

lemma recv_data_shrinks:
  "recv_data h dest n st s = (Inr st', s') \<Longrightarrow>
     length (bs_bytes (rx_stream s')) \<le> length (bs_bytes (rx_stream s))"
proof (induction h dest n st s rule: recv_data.induct)
  case (1 h dest n st s)
  show ?case
  proof (cases "n = 0")
    case True
    with "1.prems" show ?thesis by (simp add: recv_data.simps)
  next
    case False
    with "1.prems" obtain bs s1 s2 where
      r: "read_exact (min n CHUNK) s = (Inr bs, s1)" and w: "write_file dest bs s1 = (Inr (), s2)" and
      go: "recv_data h dest (n - min n CHUNK) (hs_update h bs st) s2 = (Inr st', s')"
      by (subst (asm) recv_data.simps) (auto simp: Let_def split: prod.splits sum.splits)
    from "1.IH" [OF False refl r [symmetric] refl w [symmetric] refl go]
    show ?thesis using read_exact_shrinks [OF r] write_file_stream [OF w] by simp
  qed
qed

lemma recv_file_shrinks:
  "recv_file h d n s = (Inr p, s') \<Longrightarrow>
     length (bs_bytes (rx_stream s')) \<le> length (bs_bytes (rx_stream s))"
  by (auto simp: recv_file_def read_be_def Let_def eff_iffs split: if_splits
      dest!: read_exact_shrinks recv_data_shrinks create_file_stream)

function recv_loop :: "'h hasher \<Rightarrow> string \<Rightarrow> string list \<Rightarrow> (receiver, transfer_error, string list) eff" where
  "recv_loop h dest_dir written s =
     (case read_be 2 s of
        (Inl e, s') \<Rightarrow> (Inl e, s')
      | (Inr name_len, s') \<Rightarrow>
          if name_len = 0 then (Inr written, s')
          else case recv_file h dest_dir name_len s' of
            (Inl e, s'') \<Rightarrow> (Inl e, s'')
          | (Inr dest, s'') \<Rightarrow> recv_loop h dest_dir (written @ [dest]) s'')"
  by pat_completeness auto
termination
  by (relation "measure (\<lambda>(h, d, ws, s). length (bs_bytes (rx_stream s)))")
    (auto dest!: recv_file_shrinks [OF sym] read_be_shrinks [OF sym])

declare recv_loop.simps [simp del]

definition recv_files :: "'h hasher \<Rightarrow> string \<Rightarrow> (receiver, transfer_error, string list) eff" where
  "recv_files h dest_dir = recv_loop h dest_dir []"

end
