(* ===== verification/Transfer_Facts.thy ===== *)
theory Transfer_Facts
  imports Snapshot_Transfer
begin

text \<open>
  What the transfer guarantees: the bytes a sender writes are the frames of its files, a receiver that
  succeeds has read exactly such frames, and nothing else on the receiving host changes.
\<close>

section \<open>The wire format\<close>

definition streaming :: "'h hasher \<Rightarrow> bool" where
  "streaming h \<longleftrightarrow> (\<forall>a b st. hs_update h (a @ b) st = hs_update h b (hs_update h a st))
     \<and> (\<forall>st. hs_update h [] st = st)"

definition checksum :: "'h hasher \<Rightarrow> byte list \<Rightarrow> u32" where
  "checksum h data = hs_finalize h (hs_update h data (hs_new h))"

definition frame_body :: "'h hasher \<Rightarrow> string \<Rightarrow> byte list \<Rightarrow> byte list" where
  "frame_body h name data =
     bytes_of_string name @ be_bytes 8 (length data) @ data @ be_bytes 4 (unat (checksum h data))"

definition frame :: "'h hasher \<Rightarrow> string \<times> byte list \<Rightarrow> byte list" where
  "frame h f = be_bytes 2 (length (fst f)) @ frame_body h (fst f) (snd f)"

definition snapshot_stream :: "'h hasher \<Rightarrow> (string \<times> byte list) list \<Rightarrow> byte list" where
  "snapshot_stream h fs = concat (map (frame h) fs) @ be_bytes 2 0"

lemma streaming_append: "streaming h \<Longrightarrow> hs_update h (a @ b) st = hs_update h b (hs_update h a st)"
  by (simp add: streaming_def)

lemma streaming_Nil: "streaming h \<Longrightarrow> hs_update h [] st = st"
  by (simp add: streaming_def)

section \<open>The sender\<close>

definition buf_sink :: "byte list sink" where
  "buf_sink bs w = (Inr (), w @ bs)"

lemma put_buf [simp]: "put buf_sink bs w = (Inr (), w @ bs)"
  by (simp add: put_def map_errE_def buf_sink_def)

text \<open>An oracle whose reads do not fail; how much each returns is left open.\<close>

definition reads_ok :: "read_oracle \<Rightarrow> bool" where
  "reads_ok rd \<longleftrightarrow> (\<forall>w a. \<not> isl (rd w a))"

lemma send_data_spec:
  assumes "streaming h" "reads_ok rd"
  shows "send_data h rd buf_sink name n data st w =
     (if n \<le> length data then (Inr (hs_update h (take n data) st), w @ take n data)
      else (Inl (Tr_Protocol (name @ '' is shorter than its declared length'')), w @ data))"
proof (induction n arbitrary: data st w rule: less_induct)
  case (less n)
  show ?case
  proof (cases "n = 0")
    case True
    then show ?thesis using streaming_Nil [OF assms(1)] by (simp add: send_data.simps)
  next
    case False
    obtain k where k: "rd (min n CHUNK) (length data) = Inr k"
      using assms(2) by (cases "rd (min n CHUNK) (length data)") (auto simp: reads_ok_def isl_def)
    let ?m = "read_len k (min n CHUNK) (length data)"
    have m: "?m \<le> n" "?m \<le> length data" and pos: "data \<noteq> [] \<Longrightarrow> 0 < ?m"
      using False by (auto simp: read_len_def CHUNK_def)
    show ?thesis
    proof (cases "?m = 0")
      case True
      with pos have "data = []" by auto
      with True False k show ?thesis by (subst send_data.simps) (simp add: Let_def)
    next
      case mpos: False
      then have lt: "n - ?m < n" using False by simp
      have split: "take n data = take ?m data @ take (n - ?m) (drop ?m data)"
        using m by (metis le_add_diff_inverse take_add)
      have step: "send_data h rd buf_sink name n data st w =
          send_data h rd buf_sink name (n - ?m) (drop ?m data) (hs_update h (take ?m data) st) (w @ take ?m data)"
        using False mpos k by (subst send_data.simps) (simp add: Let_def)
      have cat: "take ?m data @ drop ?m data = data" by (rule append_take_drop_id)
      have "n - ?m \<le> length (drop ?m data) \<longleftrightarrow> n \<le> length data" using m by auto
      with step less.IH [OF lt] split show ?thesis
        by (simp add: streaming_append [OF assms(1)] del: append_assoc) (simp add: cat)
    qed
  qed
qed

text \<open>What the source host holds for a file to send.\<close>

definition sendable :: "source_fs \<Rightarrow> outbound_file \<Rightarrow> byte list \<Rightarrow> bool" where
  "sendable open_file f data \<longleftrightarrow> length (of_name f) < 2 ^ 16
     \<and> (\<exists>len rest. open_file (of_path f) = Inr (Inr len, data @ rest) \<and> length data = unat len)"

lemma send_file_spec:
  assumes "streaming h" "reads_ok rd" "sendable open_file f data"
  shows "send_file h rd open_file buf_sink f w = (Inr (), w @ frame h (of_name f, data))"
proof -
  from assms(3) obtain len rest where o: "open_file (of_path f) = Inr (Inr len, data @ rest)"
    "length data = unat len" "length (of_name f) < 2 ^ 16" by (auto simp: sendable_def)
  then show ?thesis
    by (simp add: send_file_def Let_def seqE_def bindE_def send_data_spec [OF assms(1,2)] frame_def
        frame_body_def checksum_def)
qed

lemma send_each_spec:
  assumes "streaming h" "reads_ok rd" "list_all2 (sendable open_file) fs ds"
  shows "send_each h rd open_file buf_sink fs w =
     (Inr (), w @ concat (map (frame h) (zip (map of_name fs) ds)))"
  using assms(3)
proof (induction fs ds arbitrary: w rule: list_all2_induct)
  case (Cons f fs d ds)
  then show ?case using send_file_spec [OF assms(1,2) Cons(1)] by (simp add: seqE_def bindE_def)
qed simp

lemma send_files_spec:
  assumes "streaming h" "reads_ok rd" "list_all2 (sendable open_file) fs ds"
  shows "send_files h rd open_file buf_sink fs w =
     (Inr (), w @ snapshot_stream h (zip (map of_name fs) ds))"
  by (simp add: send_files_def seqE_def bindE_def send_each_spec [OF assms] snapshot_stream_def)

section \<open>The receiver, one piece at a time\<close>

definition rx :: "byte list \<Rightarrow> string \<Rightarrow> target_fs \<Rightarrow> receiver" where
  "rx bs e fs = \<lparr> rx_stream = \<lparr> bs_bytes = bs, bs_end = e \<rparr>, rx_fs = fs \<rparr>"

lemma rx_cases: obtains bs e fs where "s = rx bs e fs"
  by (cases s; cases "rx_stream s") (auto simp: rx_def)

lemma rx_inject [simp]: "rx bs e fs = rx bs' e' fs' \<longleftrightarrow> bs = bs' \<and> e = e' \<and> fs = fs'"
  by (auto simp: rx_def)

definition wrote :: "target_fs \<Rightarrow> string \<Rightarrow> byte list \<Rightarrow> target_fs" where
  "wrote fs p c = fs \<lparr> tf_files := (tf_files fs)(p \<mapsto> c) \<rparr>"

lemma wrote_simps [simp]:
  "tf_files (wrote fs p c) = (tf_files fs)(p \<mapsto> c)" "tf_create_err (wrote fs p c) = tf_create_err fs"
  "tf_write_err (wrote fs p c) = tf_write_err fs" "wrote (wrote fs p c) p c' = wrote fs p c'"
  by (simp_all add: wrote_def)

lemma read_exact_rx:
  "read_exact n (rx bs e fs) = (if n \<le> length bs then (Inr (take n bs), rx (drop n bs) e fs)
     else (Inl (Tr_Io e), rx [] e fs))"
  by (simp add: read_exact_def rx_def Let_def)

lemma read_be_rx:
  "read_be n (rx bs e fs) = (if n \<le> length bs then (Inr (be_nat (take n bs)), rx (drop n bs) e fs)
     else (Inl (Tr_Io e), rx [] e fs))"
  by (simp add: read_be_def bindE_def read_exact_rx)

lemma create_file_rx:
  "create_file p (rx bs e fs) = (case tf_create_err fs p of Some x \<Rightarrow> (Inl (Tr_Io x), rx bs e fs)
     | None \<Rightarrow> (Inr (), rx bs e (wrote fs p [])))"
  by (simp add: create_file_def rx_def wrote_def split: option.split)

lemma write_file_rx:
  "tf_files fs p = Some c \<Longrightarrow> write_file p x (rx bs e fs) =
     (case tf_write_err fs p c of Some er \<Rightarrow> (Inl (Tr_Io er), rx bs e fs)
      | None \<Rightarrow> (Inr (), rx bs e (wrote fs p (c @ x))))"
  by (simp add: write_file_def rx_def wrote_def Let_def split: option.split)

text \<open>Receiving the data of a file: success means all of it was there, and was written.\<close>

lemma recv_data_sound:
  assumes "streaming h"
  shows "recv_data h p n st (rx bs e fs) = (Inr st', s') \<Longrightarrow> tf_files fs p = Some c \<Longrightarrow>
     n \<le> length bs \<and> st' = hs_update h (take n bs) st \<and> s' = rx (drop n bs) e (wrote fs p (c @ take n bs))"
proof (induction n arbitrary: bs st fs c rule: less_induct)
  case (less n)
  show ?case
  proof (cases "n = 0")
    case True
    moreover have "wrote fs p c = fs"
      using less.prems(2) by (simp add: wrote_def) (metis fun_upd_triv target_fs.surjective target_fs.update_convs(1))
    ultimately show ?thesis
      using less.prems streaming_Nil [OF assms] by (simp add: recv_data.simps)
  next
    case False
    let ?m = "min n CHUNK"
    have m: "n - ?m < n" using False by (simp add: CHUNK_def)
    have len: "?m \<le> length bs" and w: "tf_write_err fs p c = None"
      and go: "recv_data h p (n - ?m) (hs_update h (take ?m bs) st)
          (rx (drop ?m bs) e (wrote fs p (c @ take ?m bs))) = (Inr st', s')"
      using less.prems False
      by (subst (asm) recv_data.simps; simp add: Let_def read_exact_rx write_file_rx split: if_splits option.splits)+
    have t: "take n bs = take ?m bs @ take (n - ?m) (drop ?m bs)"
      by (metis le_add_diff_inverse min.cobounded1 take_add)
    have d: "drop (n - ?m) (drop ?m bs) = drop n bs" by simp
    from less.IH [OF m go, of "c @ take ?m bs"] len
    show ?thesis using t d by (simp add: streaming_append [OF assms, symmetric]) linarith
  qed
qed

lemma recv_data_complete:
  "n \<le> length bs \<Longrightarrow> tf_files fs p = Some c \<Longrightarrow> (\<forall>q x. tf_write_err fs q x = None) \<Longrightarrow>
     \<exists>st' s'. recv_data h p n st (rx bs e fs) = (Inr st', s')"
proof (induction n arbitrary: bs st fs c rule: less_induct)
  case (less n)
  show ?case
  proof (cases "n = 0")
    case False
    let ?m = "min n CHUNK"
    have m: "n - ?m < n" using False by (simp add: CHUNK_def)
    have "\<exists>st' s'. recv_data h p (n - ?m) (hs_update h (take ?m bs) st)
          (rx (drop ?m bs) e (wrote fs p (c @ take ?m bs))) = (Inr st', s')"
      by (rule less.IH [OF m]) (use less.prems in auto)
    then show ?thesis
      using False less.prems by (subst recv_data.simps) (simp add: Let_def read_exact_rx write_file_rx)
  qed (simp add: recv_data.simps)
qed

section \<open>The receiver, file by file\<close>

definition good_file :: "string \<times> byte list \<Rightarrow> bool" where
  "good_file f \<longleftrightarrow> \<not> unsafe_name (fst f) \<and> utf8_str (fst f) \<and> length (fst f) < 2 ^ 16 \<and> length (snd f) < 2 ^ 64"

lemma unat_u32_bound: "unat (x :: u32) < 256 ^ 4"
proof -
  have "unat x < 2 ^ LENGTH(32)" by (rule unsigned_less)
  then show ?thesis by simp
qed

lemma recv_file_sound:
  assumes "streaming h" "recv_file h d nl (rx bs e fs) = (Inr p, s')" "nl < 2 ^ 16"
  shows "\<exists>f r. good_file f \<and> length (fst f) = nl \<and> bs = frame_body h (fst f) (snd f) @ r
    \<and> p = path_join d (fst f) \<and> s' = rx r e (wrote fs p (snd f))"
proof -
  from assms(2) obtain nb s1 len s2 s3 st s4 ex where
    nb: "read_exact nl (rx bs e fs) = (Inr nb, s1)" "utf8_valid nb" "\<not> unsafe_name (string_of_bytes nb)" and
    len: "read_be 8 s1 = (Inr len, s2)" and
    cr: "create_file (path_join d (string_of_bytes nb)) s2 = (Inr (), s3)" and
    dat: "recv_data h (path_join d (string_of_bytes nb)) len (hs_new h) s3 = (Inr st, s4)" and
    ex: "read_be 4 s4 = (Inr ex, s')" "of_nat ex = hs_finalize h st" and
    p: "p = path_join d (string_of_bytes nb)"
    by (auto simp: recv_file_def Let_def eff_iffs split: if_splits)
  let ?b1 = "drop nl bs" and ?fs = "wrote fs p []"
  have 1: "nl \<le> length bs" "nb = take nl bs" "s1 = rx ?b1 e fs"
    using nb(1) by (auto simp: read_exact_rx split: if_splits)
  have 2: "8 \<le> length ?b1" "len = be_nat (take 8 ?b1)" "s2 = rx (drop 8 ?b1) e fs"
    using len by (auto simp: 1 read_be_rx split: if_splits)
  have 3: "s3 = rx (drop 8 ?b1) e ?fs" using cr by (auto simp: 2 p create_file_rx split: option.splits)
  let ?b2 = "drop 8 ?b1"
  have 4: "len \<le> length ?b2" "st = hs_update h (take len ?b2) (hs_new h)"
    "s4 = rx (drop len ?b2) e (wrote fs p (take len ?b2))"
    using recv_data_sound [OF assms(1) dat [unfolded 3, folded p], of "[]"] by auto
  let ?b3 = "drop len ?b2"
  have 5: "4 \<le> length ?b3" "ex = be_nat (take 4 ?b3)" "s' = rx (drop 4 ?b3) e (wrote fs p (take len ?b2))"
    using ex(1) by (auto simp: 4 read_be_rx split: if_splits)
  let ?data = "take len ?b2" and ?name = "string_of_bytes nb"
  have ln: "length ?data = len" and nm: "length ?name = nl" "bytes_of_string ?name = take nl bs" using 1 4 by simp_all
  have b8: "be_bytes 8 len = take 8 ?b1" using be_bytes_be_nat [of "take 8 ?b1"] 2 by simp
  have "len < 256 ^ 8" using be_nat_less [of "take 8 ?b1"] 2 by simp
  moreover have "ex < 256 ^ 4" using be_nat_less [of "take 4 ?b3"] 5 by simp
  then have "unat (of_nat ex :: u32) = ex" by (simp add: unsigned_of_nat take_bit_nat_eq_self_iff)
  then have "unat (checksum h ?data) = ex" using ex(2) 4 by (simp add: checksum_def)
  then have b4: "be_bytes 4 (unat (checksum h ?data)) = take 4 ?b3"
    using be_bytes_be_nat [of "take 4 ?b3"] 5 by simp
  have "bs = frame_body h ?name ?data @ drop 4 ?b3"
    unfolding frame_body_def nm ln b8 b4 by (metis append_assoc append_take_drop_id)
  moreover have "good_file (?name, ?data)"
    using nb(2,3) nm assms(3) ln \<open>len < 256 ^ 8\<close> by (simp add: good_file_def utf8_str_def 1)
  ultimately show ?thesis using 5(3) p nm by (intro exI [of _ "(?name, ?data)"]) auto
qed

definition fs_ok :: "target_fs \<Rightarrow> bool" where
  "fs_ok fs \<longleftrightarrow> (\<forall>p. tf_create_err fs p = None) \<and> (\<forall>p c. tf_write_err fs p c = None)"

lemma fs_ok_wrote [simp]: "fs_ok (wrote fs p c) = fs_ok fs"
  by (simp add: fs_ok_def)

text \<open>A file whose frame carries some checksum: it is written in any case, and refused when the checksum is not its own.\<close>

lemma recv_file_run:
  assumes "streaming h" "good_file (name, data)" "fs_ok fs"
  shows "recv_file h d (length name)
      (rx (bytes_of_string name @ be_bytes 8 (length data) @ data @ be_bytes 4 (unat ck0) @ r) e fs)
    = (if ck0 = checksum h data then Inr (path_join d name) else Inl (Tr_Checksum name ck0 (checksum h data)),
       rx r e (wrote fs (path_join d name) data))"
proof -
  let ?p = "path_join d name" and ?tail = "be_bytes 4 (unat ck0) @ r"
  have g: "\<not> unsafe_name name" "utf8_valid (bytes_of_string name)" "length data < 2 ^ 64"
    using assms(2) by (simp_all add: good_file_def utf8_str_def)
  obtain st s' where rd: "recv_data h ?p (length data) (hs_new h) (rx (data @ ?tail) e (wrote fs ?p [])) = (Inr st, s')"
    using recv_data_complete [of "length data" "data @ ?tail" "wrote fs ?p []" ?p "[]" h "hs_new h" e] assms(3)
    by (auto simp: fs_ok_def)
  have st: "st = hs_update h data (hs_new h)" "s' = rx ?tail e (wrote fs ?p data)"
    using recv_data_sound [OF assms(1) rd, of "[]"] by simp_all
  have n8: "be_nat (be_bytes 8 (length data)) = length data" using g(3) by (intro be_nat_be_bytes) simp
  have n4: "be_nat (be_bytes 4 (unat ck0)) = unat ck0"
    by (rule be_nat_be_bytes) (rule unat_u32_bound)
  have t8: "take 8 (be_bytes 8 x @ y) = be_bytes 8 x" "drop 8 (be_bytes 8 x @ y) = y" for x y
    using length_be_bytes [of 8 x] by simp_all
  have t4: "take 4 (be_bytes 4 x @ y) = be_bytes 4 x" "drop 4 (be_bytes 4 x @ y) = y" for x y
    using length_be_bytes [of 4 x] by simp_all
  have c: "tf_create_err fs ?p = None" using assms(3) by (simp add: fs_ok_def)
  have ck: "hs_finalize h (hs_update h data (hs_new h)) = checksum h data" by (simp add: checksum_def)
  show ?thesis
    using g rd
    by (simp add: recv_file_def Let_def bindE_def seqE_def read_exact_rx read_be_rx t8 t4 n8 n4
        create_file_rx c st ck del: be_bytes.simps)
qed

lemma recv_file_complete:
  assumes "streaming h" "good_file f" "fs_ok fs"
  shows "recv_file h d (length (fst f)) (rx (frame_body h (fst f) (snd f) @ r) e fs)
    = (Inr (path_join d (fst f)), rx r e (wrote fs (path_join d (fst f)) (snd f)))"
  using recv_file_run [OF assms(1) _ assms(3), of "fst f" "snd f" d "checksum h (snd f)" r e] assms(2)
  by (simp add: frame_body_def)

lemma recv_file_refused:
  assumes "length name < 2 ^ 16" "unsafe_name name" "utf8_str name"
  shows "recv_file h d (length name) (rx (bytes_of_string name @ r) e fs)
    = (Inl (Tr_Protocol (''unsafe file name: '' @ name)), rx r e fs)"
  using assms by (simp add: recv_file_def bindE_def read_exact_rx Let_def utf8_str_def)

section \<open>The receiver, the whole stream\<close>

definition stored :: "string \<Rightarrow> (string \<times> byte list) list \<Rightarrow> target_fs \<Rightarrow> target_fs" where
  "stored d fr fs = foldl (\<lambda>m f. wrote m (path_join d (fst f)) (snd f)) fs fr"

lemma stored_simps [simp]:
  "stored d [] fs = fs" "stored d (f # fr) fs = stored d fr (wrote fs (path_join d (fst f)) (snd f))"
  by (simp_all add: stored_def)

lemma read_name_len:
  "n < 2 ^ 16 \<Longrightarrow> read_be 2 (rx (be_bytes 2 n @ r) e fs) = (Inr n, rx r e fs)"
proof -
  assume "n < 2 ^ 16"
  then have "be_nat (be_bytes 2 n) = n" by (intro be_nat_be_bytes) simp
  moreover have "take 2 (be_bytes 2 n @ r) = be_bytes 2 n" "drop 2 (be_bytes 2 n @ r) = r"
    using length_be_bytes [of 2 n] by simp_all
  ultimately show ?thesis by (simp add: read_be_rx del: be_bytes.simps)
qed

lemma recv_loop_sound:
  assumes "streaming h"
  shows "recv_loop h d ws (rx bs e fs) = (Inr ws', s') \<Longrightarrow>
     \<exists>fr r. bs = snapshot_stream h fr @ r \<and> (\<forall>f \<in> set fr. good_file f)
       \<and> ws' = ws @ map (path_join d \<circ> fst) fr \<and> s' = rx r e (stored d fr fs)"
proof (induction "length bs" arbitrary: bs ws fs rule: less_induct)
  case less
  from less.prems obtain nl s1 where nl: "read_be 2 (rx bs e fs) = (Inr nl, s1)"
    by (subst (asm) recv_loop.simps) (auto split: prod.splits sum.splits)
  then have l2: "2 \<le> length bs" "nl = be_nat (take 2 bs)" "s1 = rx (drop 2 bs) e fs"
    by (auto simp: read_be_rx split: if_splits)
  have b2: "bs = be_bytes 2 nl @ drop 2 bs"
    using be_bytes_be_nat [of "take 2 bs"] l2 by (metis append_take_drop_id length_take min.absorb2)
  show ?case
  proof (cases "nl = 0")
    case True
    with less.prems nl l2 have "ws' = ws" "s' = rx (drop 2 bs) e fs" by (subst (asm) recv_loop.simps; simp)+
    with b2 True show ?thesis by (intro exI [of _ "[]"] exI [of _ "drop 2 bs"]) (simp add: snapshot_stream_def)
  next
    case False
    with less.prems nl l2(3) obtain p s2 where
      fl: "recv_file h d nl (rx (drop 2 bs) e fs) = (Inr p, s2)" and go: "recv_loop h d (ws @ [p]) s2 = (Inr ws', s')"
      by (subst (asm) recv_loop.simps) (auto split: prod.splits sum.splits)
    have "nl < 256 ^ 2" using be_nat_less [of "take 2 bs"] l2 by simp
    with recv_file_sound [OF assms fl] obtain f r where
      f: "good_file f" "length (fst f) = nl" "drop 2 bs = frame_body h (fst f) (snd f) @ r"
        "p = path_join d (fst f)" "s2 = rx r e (wrote fs p (snd f))" by auto
    have "length r < length bs" using f(3) l2(1) by (metis add_lessD1 length_append length_drop
          le_add2 le_less_trans diff_less zero_less_numeral less_le_trans)
    from less.hyps [OF this go [unfolded f(5)]] obtain fr r' where
      "r = snapshot_stream h fr @ r'" "\<forall>f \<in> set fr. good_file f"
      "ws' = (ws @ [p]) @ map (path_join d \<circ> fst) fr" "s' = rx r' e (stored d fr (wrote fs p (snd f)))" by blast
    then show ?thesis using f b2 by (intro exI [of _ "f # fr"] exI [of _ r'])
        (auto simp: snapshot_stream_def frame_def)
  qed
qed

lemma recv_loop_complete:
  assumes "streaming h"
  shows "\<forall>f \<in> set fr. good_file f \<Longrightarrow> fs_ok fs \<Longrightarrow>
     recv_loop h d ws (rx (snapshot_stream h fr @ r) e fs)
       = (Inr (ws @ map (path_join d \<circ> fst) fr), rx r e (stored d fr fs))"
proof (induction fr arbitrary: ws fs)
  case Nil
  show ?case using read_name_len [of 0 r e fs]
    by (subst recv_loop.simps) (simp add: snapshot_stream_def del: be_bytes.simps)
next
  case (Cons f fr)
  let ?rest = "snapshot_stream h fr @ r"
  have g: "good_file f" "length (fst f) < 2 ^ 16" "length (fst f) \<noteq> 0"
    using Cons.prems(1) by (auto simp: good_file_def unsafe_name_def)
  have "snapshot_stream h (f # fr) @ r = be_bytes 2 (length (fst f)) @ frame_body h (fst f) (snd f) @ ?rest"
    by (simp add: snapshot_stream_def frame_def)
  then have "recv_loop h d ws (rx (snapshot_stream h (f # fr) @ r) e fs) =
      recv_loop h d (ws @ [path_join d (fst f)]) (rx ?rest e (wrote fs (path_join d (fst f)) (snd f)))"
    using read_name_len [OF g(2)] g(3) recv_file_complete [OF assms g(1) Cons.prems(2)]
    by (subst recv_loop.simps) simp
  then show ?case using Cons by simp
qed

section \<open>Confinement\<close>

lemma read_exact_fs: "read_exact n s = (r, s') \<Longrightarrow> rx_fs s' = rx_fs s"
  by (auto simp: read_exact_def Let_def split: if_splits)

lemma read_be_fs: "read_be n s = (r, s') \<Longrightarrow> rx_fs s' = rx_fs s"
  by (auto simp: read_be_def bindE_def split: prod.splits sum.splits dest: read_exact_fs)

lemma write_file_fs: "write_file p bs s = (r, s') \<Longrightarrow> q \<noteq> p \<Longrightarrow> tf_files (rx_fs s') q = tf_files (rx_fs s) q"
  by (auto simp: write_file_def Let_def split: option.splits)

lemma create_file_fs: "create_file p s = (r, s') \<Longrightarrow> q \<noteq> p \<Longrightarrow> tf_files (rx_fs s') q = tf_files (rx_fs s) q"
  by (auto simp: create_file_def split: option.splits)

lemma recv_data_fs:
  "recv_data h p n st s = (r, s') \<Longrightarrow> q \<noteq> p \<Longrightarrow> tf_files (rx_fs s') q = tf_files (rx_fs s) q"
proof (induction n arbitrary: st s rule: less_induct)
  case (less n)
  show ?case
  proof (cases "n = 0")
    case True
    with less.prems show ?thesis by (simp add: recv_data.simps)
  next
    case False
    have m: "n - min n CHUNK < n" using False by (simp add: CHUNK_def)
    from less.prems(1) False show ?thesis
      by (subst (asm) recv_data.simps)
        (auto simp: Let_def split: prod.splits sum.splits
          dest!: read_exact_fs less.IH [OF m _ less.prems(2)] write_file_fs [OF _ less.prems(2)])
  qed
qed

definition in_dest :: "string \<Rightarrow> string \<Rightarrow> bool" where
  "in_dest d p \<longleftrightarrow> (\<exists>n. \<not> unsafe_name n \<and> p = path_join d n)"

lemma recv_file_fs:
  assumes "recv_file h d n s = (r, s')" "\<not> in_dest d q"
  shows "tf_files (rx_fs s') q = tf_files (rx_fs s) q"
proof -
  obtain r1 s1 where 1: "read_exact n s = (r1, s1)" by fastforce
  note f1 = read_exact_fs [OF 1]
  show ?thesis
  proof (cases "\<exists>nb. r1 = Inr nb \<and> utf8_valid nb \<and> \<not> unsafe_name (string_of_bytes nb)")
    case False
    with assms(1) 1 f1 show ?thesis
      by (auto simp: recv_file_def bindE_def Let_def split: sum.splits if_splits)
  next
    case True
    then obtain nb where nb: "r1 = Inr nb" "utf8_valid nb" "\<not> unsafe_name (string_of_bytes nb)" by blast
    let ?p = "path_join d (string_of_bytes nb)"
    have q: "q \<noteq> ?p" using assms(2) nb(3) by (auto simp: in_dest_def)
    from assms(1) 1 nb show ?thesis
      by (auto simp: recv_file_def bindE_def seqE_def Let_def split: sum.splits prod.splits if_splits
          dest!: read_be_fs create_file_fs [OF _ q] recv_data_fs [OF _ q] simp: f1)
  qed
qed

lemma recv_loop_fs:
  "recv_loop h d ws s = (r, s') \<Longrightarrow> \<not> in_dest d q \<Longrightarrow> tf_files (rx_fs s') q = tf_files (rx_fs s) q"
proof (induction h d ws s rule: recv_loop.induct)
  case (1 h d ws s)
  obtain r1 s1 where r1: "read_be 2 s = (r1, s1)" by fastforce
  show ?case
  proof (cases "\<exists>n. r1 = Inr n \<and> n \<noteq> 0")
    case False
    with "1.prems"(1) r1 read_be_fs [OF r1] show ?thesis
      by (subst (asm) recv_loop.simps) (auto split: sum.splits if_splits)
  next
    case True
    then obtain n where n: "r1 = Inr n" "n \<noteq> 0" by blast
    obtain r2 s2 where r2: "recv_file h d n s1 = (r2, s2)" by fastforce
    have q: "tf_files (rx_fs s2) q = tf_files (rx_fs s) q"
      using recv_file_fs [OF r2 "1.prems"(2)] read_be_fs [OF r1] by simp
    show ?thesis
    proof (cases r2)
      case (Inl e)
      with "1.prems"(1) r1 n r2 q show ?thesis by (subst (asm) recv_loop.simps) simp
    next
      case (Inr dest)
      with "1.prems"(1) r1 n r2 have "recv_loop h d (ws @ [dest]) s2 = (r, s')"
        by (subst (asm) recv_loop.simps) simp
      from "1.IH" [OF r1 [symmetric] n(1) n(2) r2 [symmetric] Inr this "1.prems"(2)] q show ?thesis by simp
    qed
  qed
qed

lemma recv_files_complete:
  assumes "streaming h" "fs_ok tfs" "\<forall>f \<in> set fr. good_file f"
  shows "recv_files h d (rx (snapshot_stream h fr @ r) e tfs) = (Inr (map (path_join d \<circ> fst) fr), rx r e (stored d fr tfs))"
  using recv_loop_complete [OF assms(1,3,2), of d "[]" r e] by (simp add: recv_files_def)

section \<open>The properties\<close>

text \<open>
  C10. A snapshot arrives as it was sent. Whatever sizes the reads of the source files return, a send
  succeeds and the receiver, given those bytes and possibly more, writes every file under its name with
  exactly the contents the source held when its length was taken, reports the paths in order, and
  leaves what follows in the stream unread. The one thing used of the CRC is that it can be fed in
  pieces.
\<close>

theorem transfer_round_trip:
  assumes "streaming h" "reads_ok rd" "list_all2 (sendable open_file) fs ds" "fs_ok tfs"
    and "\<forall>f \<in> set (zip (map of_name fs) ds). good_file f"
  shows "\<exists>bytes. send_files h rd open_file buf_sink fs [] = (Inr (), bytes)
    \<and> recv_files h d (rx (bytes @ r) e tfs)
        = (Inr (map (path_join d \<circ> of_name) fs), rx r e (stored d (zip (map of_name fs) ds) tfs))"
proof -
  have "length fs = length ds" using assms(3) by (rule list_all2_lengthD)
  then have "map (path_join d \<circ> fst) (zip (map of_name fs) ds) = map (path_join d \<circ> of_name) fs"
    by (metis length_map map_fst_zip map_map)
  then show ?thesis
    using send_files_spec [OF assms(1-3), of "[]"] recv_loop_complete [OF assms(1,5,4), of d "[]" r e]
    by (simp add: recv_files_def)
qed

definition sample_hasher :: "u32 hasher" where
  "sample_hasher = \<lparr> hs_new = 0, hs_update = (\<lambda>bs s. foldl (\<lambda>a b. a * 31 + ucast b) s bs), hs_finalize = id \<rparr>"

lemma sample_streaming: "streaming sample_hasher"
  by (simp add: streaming_def sample_hasher_def)

definition sample_source :: source_fs where
  "sample_source p = (if p = ''/s/m'' then Inr (Inr 3, [1, 2, 3, 4]) else Inl ''not found'')"

definition sample_target :: target_fs where
  "sample_target = \<lparr> tf_files = Map.empty, tf_create_err = (\<lambda>_. None), tf_write_err = (\<lambda>_ _. None) \<rparr>"

lemma sample_names: "\<not> unsafe_name ''m''" "utf8_str ''m''"
  by (simp_all add: unsafe_name_def starts_with_def utf8_str_def byte_of_char_def utf8_width_def)

lemma transfer_round_trip_witness:
  "\<exists>bytes. send_files sample_hasher (\<lambda>_ _. Inr 1) sample_source buf_sink
       [\<lparr> of_name = ''m'', of_path = ''/s/m'' \<rparr>] [] = (Inr (), bytes)
    \<and> recv_files sample_hasher ''/d'' (rx (bytes @ []) ''eof'' sample_target)
        = (Inr (map (path_join ''/d'' \<circ> of_name) [\<lparr> of_name = ''m'', of_path = ''/s/m'' \<rparr>]),
           rx [] ''eof'' (stored ''/d'' [(''m'', [1, 2, 3])] sample_target))"
  using transfer_round_trip [OF sample_streaming, of "\<lambda>_ _. Inr 1" sample_source
      "[\<lparr> of_name = ''m'', of_path = ''/s/m'' \<rparr>]" "[[1, 2, 3]]" sample_target "''/d''" "[]" "''eof''"]
  by (simp add: reads_ok_def sendable_def sample_source_def fs_ok_def sample_target_def good_file_def sample_names)

text \<open>
  C16. The receiver accepts nothing else. On a host whose file system does not fail, receiving succeeds
  exactly when the bytes begin with the frames of some files with safe UTF-8 names, each with the
  checksum of its own data, and the end marker; it has then written just those files.
\<close>

theorem receiver_accepts_exactly:
  assumes "streaming h" "fs_ok tfs"
  shows "recv_files h d (rx bs e tfs) = (Inr ps, s') \<longleftrightarrow>
    (\<exists>fr r. bs = snapshot_stream h fr @ r \<and> (\<forall>f \<in> set fr. good_file f)
       \<and> ps = map (path_join d \<circ> fst) fr \<and> s' = rx r e (stored d fr tfs))"
  using recv_loop_sound [OF assms(1), of d "[]" bs e tfs ps s'] recv_loop_complete [OF assms(1) _ assms(2)]
  by (auto simp: recv_files_def)

lemma receiver_accepts_exactly_witness:
  "recv_files sample_hasher ''/d'' (rx (snapshot_stream sample_hasher [(''m'', [7])]) ''eof'' sample_target)
     = (Inr [path_join ''/d'' ''m''], rx [] ''eof'' (stored ''/d'' [(''m'', [7])] sample_target))"
proof -
  have "fs_ok sample_target" by (simp add: fs_ok_def sample_target_def)
  from receiver_accepts_exactly [OF sample_streaming this] show ?thesis
    by (rule iffD2) (auto simp: good_file_def sample_names intro!: exI [of _ "[(''m'', [7])]"])
qed

text \<open>
  C32. A snapshot cut off in transit is never accepted. Of a complete stream of good files, no proper
  prefix is received successfully, wherever the connection breaks.
\<close>

theorem truncated_stream_rejected:
  assumes "streaming h" "fs_ok tfs" "\<forall>f \<in> set fr. good_file f" "k < length (snapshot_stream h fr)"
  shows "isl (fst (recv_files h d (rx (take k (snapshot_stream h fr)) e tfs)))"
proof (rule ccontr)
  let ?full = "snapshot_stream h fr"
  assume "\<not> isl (fst (recv_files h d (rx (take k ?full) e tfs)))"
  moreover obtain a s' where run: "recv_loop h d [] (rx (take k ?full) e tfs) = (a, s')" by fastforce
  ultimately obtain ps where "a = Inr ps" by (cases a) (auto simp: recv_files_def)
  with run have "recv_loop h d [] (rx (take k ?full) e tfs) = (Inr ps, s')" by simp
  from recv_loop_sound [OF assms(1) this] obtain fr' r where
    fr': "take k ?full = snapshot_stream h fr' @ r" "\<forall>f \<in> set fr'. good_file f" by blast
  then have "?full = snapshot_stream h fr' @ (r @ drop k ?full)" by (metis append_assoc append_take_drop_id)
  moreover have "r @ drop k ?full \<noteq> []" using assms(4) by simp
  ultimately show False
    using recv_loop_complete [OF assms(1) fr'(2) assms(2), of d "[]" "r @ drop k ?full" e]
      recv_loop_complete [OF assms(1) assms(3,2), of d "[]" "[]" e] by auto
qed

lemma truncated_stream_rejected_witness:
  "isl (fst (recv_files sample_hasher ''/d''
     (rx (take 5 (snapshot_stream sample_hasher [(''m'', [7])])) ''eof'' sample_target)))"
  by (rule truncated_stream_rejected [OF sample_streaming])
    (simp_all add: fs_ok_def sample_target_def good_file_def sample_names snapshot_stream_def frame_def
      frame_body_def del: be_bytes.simps)

text \<open>
  C33. A hostile sender cannot write outside the destination. Whatever bytes arrive, whether or not the
  transfer succeeds and however the file system behaves, only files named by a safe component directly
  under the destination directory can differ afterwards.
\<close>

theorem receiver_confined:
  assumes "recv_files h d s = (res, s')" "tf_files (rx_fs s') p \<noteq> tf_files (rx_fs s) p"
  shows "\<exists>n. p = path_join d n \<and> n \<noteq> [] \<and> CHR ''/'' \<notin> set n \<and> CHR 0x5C \<notin> set n
    \<and> \<not> contains_sub ''..'' n"
  using recv_loop_fs [OF assms(1) [unfolded recv_files_def], of p] assms(2)
  by (auto simp: in_dest_def unsafe_name_def)

lemma receiver_confined_witness:
  "\<exists>n. path_join ''/d'' ''m'' = path_join ''/d'' n \<and> n \<noteq> [] \<and> CHR ''/'' \<notin> set n \<and> CHR 0x5C \<notin> set n
    \<and> \<not> contains_sub ''..'' n"
proof -
  have "fs_ok sample_target" by (simp add: fs_ok_def sample_target_def)
  then have "recv_files sample_hasher ''/d'' (rx (snapshot_stream sample_hasher [(''m'', [7])]) ''eof'' sample_target)
      = (Inr [path_join ''/d'' ''m''], rx [] ''eof'' (stored ''/d'' [(''m'', [7])] sample_target))"
    using recv_loop_complete [OF sample_streaming, of "[(''m'', [7])]" sample_target "''/d''" "[]" "[]" "''eof''"]
    by (simp add: recv_files_def good_file_def sample_names)
  from receiver_confined [OF this] show ?thesis by (simp add: rx_def sample_target_def)
qed

text \<open>
  An empty name silently ends the stream. A file whose name is empty is sent without an error, but
  its length prefix is the end marker: the receiver reports success without that file and without any
  file after it.
\<close>

theorem empty_name_drops_files:
  assumes "streaming h" "reads_ok rd" "sendable open_file f data" "of_name f = []"
    and "list_all2 (sendable open_file) fs ds"
  shows "\<exists>bytes rest. send_files h rd open_file buf_sink (f # fs) [] = (Inr (), bytes)
    \<and> recv_files h d (rx bytes e tfs) = (Inr [], rx rest e tfs)"
proof -
  let ?tail = "frame_body h [] data @ snapshot_stream h (zip (map of_name fs) ds)"
  have "list_all2 (sendable open_file) (f # fs) (data # ds)" using assms(3,5) by simp
  from send_files_spec [OF assms(1,2) this, of "[]"]
  have "send_files h rd open_file buf_sink (f # fs) [] = (Inr (), be_bytes 2 0 @ ?tail)"
    by (simp add: snapshot_stream_def frame_def assms(4) del: be_bytes.simps)
  moreover have "recv_files h d (rx (be_bytes 2 0 @ ?tail) e tfs) = (Inr [], rx ?tail e tfs)"
    using read_name_len [of 0 ?tail e tfs] unfolding recv_files_def by (subst recv_loop.simps) simp
  ultimately show ?thesis by blast
qed

lemma empty_name_drops_files_witness:
  "\<exists>bytes rest. send_files sample_hasher (\<lambda>_ _. Inr 1) sample_source buf_sink
       [\<lparr> of_name = [], of_path = ''/s/m'' \<rparr>, \<lparr> of_name = ''m'', of_path = ''/s/m'' \<rparr>] [] = (Inr (), bytes)
    \<and> recv_files sample_hasher ''/d'' (rx bytes ''eof'' sample_target) = (Inr [], rx rest ''eof'' sample_target)"
  by (rule empty_name_drops_files [OF sample_streaming, where data = "[1, 2, 3]" and ds = "[[1, 2, 3]]"])
    (simp_all add: reads_ok_def sendable_def sample_source_def)

end
