(* ===== verification/Uffd_Server.thy ===== *)
theory Uffd_Server
  imports Byte_Strings
begin

text \<open>
  \<open>crates/hostd/src/uffd.rs\<close>: the page-fault server behind lazy restore. A fault is resolved by reading
  one page of the snapshot's memory file and handing it to the kernel (\<open>UFFDIO_COPY\<close>), or by mapping a
  zero page. \<open>usize\<close> is 64 bits wide. The kernel side of userfaultfd is a record of effects over an
  arbitrary kernel state; what \<open>poll\<close> and \<open>read_event\<close> answer, and when the stop flag is raised, is a
  script consumed by the loops, one entry per iteration, so a script is one finite piece of the
  environment's behaviour and a loop at its end is still serving.
\<close>

unbundle bit_operations_syntax

type_synonym usize = u64

definition page_size :: "int \<Rightarrow> usize" where
  "page_size sz = (if sz > 0 then word_of_int sz else 4096)"

section \<open>Page sources\<close>

text \<open>
  \<open>read_at off n\<close> is what a positioned read of up to \<open>n\<close> bytes returns. A page source fills a buffer of
  \<open>n\<close> bytes, or reports a hole with \<open>None\<close>.
\<close>

type_synonym reader = "u64 \<Rightarrow> nat \<Rightarrow> string + byte list"
type_synonym source = "u64 \<Rightarrow> nat \<Rightarrow> string + byte list option"

record file_page_source =
  fp_file :: reader
  fp_len :: u64

definition fps_open :: "(string \<Rightarrow> string + reader) \<Rightarrow> (reader \<Rightarrow> string + u64) \<Rightarrow> string \<Rightarrow> string + file_page_source" where
  "fps_open open_file metadata_len path = (case open_file path of
       Inl e \<Rightarrow> Inl e
     | Inr file \<Rightarrow> (case metadata_len file of
         Inl e \<Rightarrow> Inl e
       | Inr n \<Rightarrow> Inr \<lparr> fp_file = file, fp_len = n \<rparr>))"

definition pad_page :: "nat \<Rightarrow> byte list \<Rightarrow> byte list" where
  "pad_page n bs = (if length bs < n then bs @ replicate (n - length bs) 0 else bs)"

definition fps_fill :: "file_page_source \<Rightarrow> source" where
  "fps_fill src off n =
     (if fp_len src \<le> off then Inr None
      else case fp_file src off n of
        Inl e \<Rightarrow> Inl e
      | Inr bs \<Rightarrow> if length bs = 0 then Inr None else Inr (Some (pad_page n bs)))"

section \<open>Serving one registered region\<close>

datatype uffd_error =
    Uffd string
  | Uffd_io string
  | OutOfRange usize usize usize
  | NoRegion u64
  | Handshake string

fun show_uffd_error :: "uffd_error \<Rightarrow> string" where
  "show_uffd_error (Uffd e) = ''userfaultfd: '' @ e"
| "show_uffd_error (Uffd_io e) = e"
| "show_uffd_error (OutOfRange addr base upto_addr) =
     ''fault at 0x'' @ show_hex (unat addr) @ '' outside region [0x'' @ show_hex (unat base) @ '', 0x'' @ show_hex (unat upto_addr) @ '')''"
| "show_uffd_error (NoRegion addr) = ''fault at 0x'' @ show_hex (unat addr) @ '' matched no Firecracker memory region''"
| "show_uffd_error (Handshake e) = ''firecracker uffd handshake: '' @ e"

record 'k uffd =
  uf_register :: "usize \<Rightarrow> usize \<Rightarrow> ('k, string, unit) eff"
  uf_copy :: "byte list \<Rightarrow> usize \<Rightarrow> usize \<Rightarrow> ('k, string, unit) eff"
  uf_zeropage :: "usize \<Rightarrow> usize \<Rightarrow> ('k, string, unit) eff"

record 'k page_fault_server =
  ps_uffd :: "'k uffd"
  ps_base :: usize
  ps_len :: usize
  ps_page :: usize
  ps_source :: source

definition register ::
  "int \<Rightarrow> 'k uffd \<Rightarrow> usize \<Rightarrow> usize \<Rightarrow> source \<Rightarrow> ('k, uffd_error, 'k page_fault_server) eff" where
  "register pagesz u base len source =
     seqE (map_errE Uffd (uf_register u base len))
      (okE \<lparr> ps_uffd = u, ps_base = base, ps_len = len, ps_page = page_size pagesz, ps_source = source \<rparr>)"

definition serve_page :: "'k page_fault_server \<Rightarrow> usize \<Rightarrow> ('k, uffd_error, unit) eff" where
  "serve_page srv addr =
     (let aligned = addr AND NOT (ps_page srv - 1); last = ps_base srv + ps_len srv in
      if aligned < ps_base srv \<or> last \<le> aligned then errE (OutOfRange addr (ps_base srv) last)
      else case ps_source srv (aligned - ps_base srv) (unat (ps_page srv)) of
          Inl e \<Rightarrow> errE (Uffd_io e)
        | Inr (Some buf) \<Rightarrow> map_errE Uffd (uf_copy (ps_uffd srv) buf aligned (ps_page srv))
        | Inr None \<Rightarrow> map_errE Uffd (uf_zeropage (ps_uffd srv) aligned (ps_page srv)))"

datatype uffd_event = Pagefault usize | Remove usize usize | Other_event

text \<open>
  What one iteration of a serve loop meets: the stop flag, then the outcome of \<open>poll\<close>, then, when it
  signals, what the successive \<open>read_event\<close> calls return before the one that returns \<open>None\<close>.
\<close>

datatype poll_outcome = Poll_interrupted | Poll_failed string | Poll_timeout | Poll_ready "(string + uffd_event) list"

datatype serve_end = Stopped_serving | Still_serving

fun drain_events ::
  "(uffd_event \<Rightarrow> ('k, uffd_error, unit) eff) \<Rightarrow> (string + uffd_event) list \<Rightarrow> ('k, uffd_error, unit) eff" where
  "drain_events on_event [] = okE ()"
| "drain_events on_event (Inl e # rs) = errE (Uffd e)"
| "drain_events on_event (Inr ev # rs) = seqE (on_event ev) (drain_events on_event rs)"

fun poll_loop ::
  "(uffd_event \<Rightarrow> ('k, uffd_error, unit) eff) \<Rightarrow> (bool \<times> poll_outcome) list \<Rightarrow> ('k, uffd_error, serve_end) eff" where
  "poll_loop on_event [] = okE Still_serving"
| "poll_loop on_event ((stop, ready) # ticks) =
     (if stop then okE Stopped_serving
      else case ready of
          Poll_interrupted \<Rightarrow> poll_loop on_event ticks
        | Poll_failed e \<Rightarrow> errE (Uffd_io e)
        | Poll_timeout \<Rightarrow> poll_loop on_event ticks
        | Poll_ready rs \<Rightarrow> seqE (drain_events on_event rs) (poll_loop on_event ticks))"

definition serve :: "'k page_fault_server \<Rightarrow> (bool \<times> poll_outcome) list \<Rightarrow> ('k, uffd_error, serve_end) eff" where
  "serve srv = poll_loop (\<lambda>ev. case ev of Pagefault addr \<Rightarrow> serve_page srv addr | _ \<Rightarrow> okE ())"

text \<open>\<open>create_uffd\<close>: the options asked of the kernel; \<open>build\<close> is the system call behind \<open>UffdBuilder::create\<close>.\<close>

record uffd_options =
  uo_close_on_exec :: bool
  uo_non_blocking :: bool
  uo_user_mode_only :: bool

definition create_uffd :: "(uffd_options \<Rightarrow> ('k, string, 'u) eff) \<Rightarrow> ('k, uffd_error, 'u) eff" where
  "create_uffd build =
     map_errE Uffd (build \<lparr> uo_close_on_exec = True, uo_non_blocking = True, uo_user_mode_only = True \<rparr>)"

section \<open>Serving a Firecracker restore\<close>

text \<open>The handler's socket: a stale one is removed, whatever comes of it, and the listener must not block.\<close>

definition restore_handler_bind ::
  "(string \<Rightarrow> 'k \<Rightarrow> 'k) \<Rightarrow> (string \<Rightarrow> ('k, string, 'l) eff) \<Rightarrow> ('l \<Rightarrow> ('k, string, unit) eff) \<Rightarrow> string \<Rightarrow> ('k, string, 'l) eff" where
  "restore_handler_bind remove_file bind_socket nonblocking socket k =
     bindE (bind_socket socket) (\<lambda>l. seqE (nonblocking l) (okE l)) (remove_file socket k)"

record guest_region =
  gr_base :: u64
  gr_size :: usize
  gr_offset :: u64
  gr_page_size :: usize

definition region_contains :: "guest_region \<Rightarrow> u64 \<Rightarrow> bool" where
  "region_contains m addr \<longleftrightarrow> gr_base m \<le> addr \<and> addr < gr_base m + gr_size m"

definition file_offset :: "guest_region \<Rightarrow> u64 \<Rightarrow> u64" where
  "file_offset m addr = gr_offset m + (addr - gr_base m)"

definition serve_fault ::
  "'k uffd \<Rightarrow> guest_region list \<Rightarrow> reader \<Rightarrow> usize \<Rightarrow> u64 \<Rightarrow> ('k, uffd_error, unit) eff" where
  "serve_fault u mappings mem page addr =
     (let aligned = addr AND NOT (page - 1) in
      case find (\<lambda>m. region_contains m aligned) mappings of
        None \<Rightarrow> errE (NoRegion aligned)
      | Some region \<Rightarrow>
          (case mem (file_offset region aligned) (unat page) of
             Inl e \<Rightarrow> errE (Uffd_io e)
           | Inr bs \<Rightarrow> map_errE Uffd (uf_copy u (pad_page (unat page) bs) aligned page)))"

definition restore_event ::
  "'k uffd \<Rightarrow> guest_region list \<Rightarrow> reader \<Rightarrow> usize \<Rightarrow> uffd_event \<Rightarrow> ('k, uffd_error, unit) eff" where
  "restore_event u mappings mem page ev =
     (case ev of
        Pagefault addr \<Rightarrow> serve_fault u mappings mem page addr
      | Remove lo hi \<Rightarrow> map_errE Uffd (uf_zeropage u lo (hi - lo))
      | Other_event \<Rightarrow> okE ())"

text \<open>One iteration of \<open>accept\<close>: the stop flag, then what the listener's \<open>accept\<close> returns.\<close>

datatype 'c accept_outcome = Would_block | Accept_failed string | Accepted 'c

datatype 'c accept_end = Connection 'c | Stopped_before | Still_waiting

fun uffd_accept :: "(bool \<times> 'c accept_outcome) list \<Rightarrow> uffd_error + 'c accept_end" where
  "uffd_accept [] = Inr Still_waiting"
| "uffd_accept ((stop, res) # rest) =
     (if stop then Inr Stopped_before
      else case res of
          Accepted stream \<Rightarrow> Inr (Connection stream)
        | Would_block \<Rightarrow> uffd_accept rest
        | Accept_failed e \<Rightarrow> Inl (Uffd_io e))"

datatype control_message = ScmRights "int list" | Other_control

definition scm_fd :: "control_message list \<Rightarrow> int option" where
  "scm_fd = foldl (\<lambda>fd c. case c of ScmRights [] \<Rightarrow> None | ScmRights (f # _) \<Rightarrow> Some f | Other_control \<Rightarrow> fd) None"

text \<open>
  The handshake. \<open>recvmsg\<close> fills at most the given number of bytes; \<open>from_str\<close> is the JSON parser. The
  descriptor received is put into non-blocking mode before it is used.
\<close>

definition O_NONBLOCK :: u32 where "O_NONBLOCK = 2048"

definition set_nonblocking ::
  "(int \<Rightarrow> 'k \<Rightarrow> int) \<Rightarrow> (int \<Rightarrow> u32 \<Rightarrow> 'k \<Rightarrow> 'k) \<Rightarrow> int \<Rightarrow> 'k \<Rightarrow> 'k" where
  "set_nonblocking getfl setfl fd k =
     (let flags = getfl fd k in
      if flags \<ge> 0 then setfl fd (word_of_int flags OR O_NONBLOCK) k else k)"

definition recv_uffd_and_mappings ::
  "('c \<Rightarrow> nat \<Rightarrow> string + byte list \<times> control_message list) \<Rightarrow> (byte list \<Rightarrow> string + guest_region list)
    \<Rightarrow> (int \<Rightarrow> 'k \<Rightarrow> int) \<Rightarrow> (int \<Rightarrow> u32 \<Rightarrow> 'k \<Rightarrow> 'k) \<Rightarrow> 'c \<Rightarrow> ('k, uffd_error, int \<times> guest_region list) eff" where
  "recv_uffd_and_mappings recvmsg from_str getfl setfl stream k =
     (case recvmsg stream 4096 of
        Inl e \<Rightarrow> (Inl (Uffd_io e), k)
      | Inr (body, cmsgs) \<Rightarrow>
          (case scm_fd cmsgs of
             None \<Rightarrow> (Inl (Handshake ''no userfaultfd in SCM_RIGHTS message''), k)
           | Some fd \<Rightarrow>
               if \<not> utf8_valid body then (Inl (Handshake ''memory layout not UTF-8''), k)
               else (case from_str body of
                   Inl e \<Rightarrow> (Inl (Handshake (''parse memory layout: '' @ e)), k)
                 | Inr mappings \<Rightarrow> (Inr (fd, mappings), set_nonblocking getfl setfl fd k))))"

definition restore_serve ::
  "('c \<Rightarrow> nat \<Rightarrow> string + byte list \<times> control_message list) \<Rightarrow> (byte list \<Rightarrow> string + guest_region list)
    \<Rightarrow> (int \<Rightarrow> 'k \<Rightarrow> int) \<Rightarrow> (int \<Rightarrow> u32 \<Rightarrow> 'k \<Rightarrow> 'k) \<Rightarrow> (int \<Rightarrow> 'k uffd) \<Rightarrow> (string \<Rightarrow> string + reader) \<Rightarrow> int
    \<Rightarrow> (bool \<times> 'c accept_outcome) list \<Rightarrow> string \<Rightarrow> (bool \<times> poll_outcome) list
    \<Rightarrow> ('k, uffd_error, serve_end) eff" where
  "restore_serve recvmsg from_str getfl setfl uffd_of open_file pagesz conns mem_file ticks =
     (case uffd_accept conns of
        Inl e \<Rightarrow> errE e
      | Inr Still_waiting \<Rightarrow> okE Still_serving
      | Inr Stopped_before \<Rightarrow> okE Stopped_serving
      | Inr (Connection stream) \<Rightarrow>
          bindE (recv_uffd_and_mappings recvmsg from_str getfl setfl stream) (\<lambda>(fd, mappings).
            case open_file mem_file of
              Inl e \<Rightarrow> errE (Uffd_io e)
            | Inr mem \<Rightarrow> poll_loop (restore_event (uffd_of fd) mappings mem (page_size pagesz)) ticks))"

end
