(* ===== verification/Uffd_Facts.thy ===== *)
theory Uffd_Facts
  imports Uffd_Server
begin

text \<open>
  What the page-fault server guarantees: serving faults lazily installs, page by page, exactly the
  bytes an eager restore would have read into the guest's memory. The kernel is used through one
  documented fact, that a successful \<open>UFFDIO_COPY\<close> or \<open>UFFDIO_ZEROPAGE\<close> installs the bytes it was given
  at the address it was given, and nothing else.
\<close>

unbundle bit_operations_syntax

section \<open>Page alignment\<close>

lemma and_not_mask: "a AND NOT (mask k) = push_bit k (drop_bit k a)" for a :: "'a::len word"
  by (rule bit_word_eqI) (auto simp: bit_simps)

lemma unat_page_align:
  "unat (a AND NOT (2 ^ k - 1)) = unat a div 2 ^ k * 2 ^ k" for a :: u64
proof -
  have a: "take_bit LENGTH(64) (unat a) = unat a" by (rule take_bit_nat_eq_self) (rule unsigned_less)
  have "unat a div 2 ^ k * 2 ^ k \<le> unat a" by simp
  then have "unat a div 2 ^ k * 2 ^ k < 2 ^ LENGTH(64)" by (rule le_less_trans) (rule unsigned_less)
  then have l: "take_bit LENGTH(64) (unat a div 2 ^ k * 2 ^ k) = unat a div 2 ^ k * 2 ^ k"
    by (rule take_bit_nat_eq_self)
  have "unat (push_bit k (drop_bit k a)) = unat a div 2 ^ k * 2 ^ k"
    unfolding unsigned_push_bit_eq unsigned_drop_bit_eq a
    by (simp only: push_bit_eq_mult drop_bit_eq_div l)
  then show ?thesis by (simp only: and_not_mask flip: mask_eq_exp_minus_1)
qed

lemma unat_two_power: "k < 64 \<Longrightarrow> unat (2 ^ k :: u64) = 2 ^ k"
proof -
  assume "k < 64"
  then have "take_bit LENGTH(64) (2 ^ k :: nat) = 2 ^ k" by (simp add: take_bit_nat_eq_self)
  moreover have "(2 ^ k :: u64) = of_nat (2 ^ k)" by simp
  ultimately show "unat (2 ^ k :: u64) = 2 ^ k" by (simp only: unsigned_of_nat of_nat_id)
qed

lemma same_page_bounds:
  fixes P :: nat
  assumes "P dvd b" "0 < P"
  shows "b \<le> a div P * P \<longleftrightarrow> b \<le> a" "a div P * P < b \<longleftrightarrow> a < b"
proof -
  from assms obtain c where c: "b = c * P" by (metis dvdE mult.commute)
  have "b \<le> a div P * P \<longleftrightarrow> c \<le> a div P" using assms(2) by (simp add: c)
  also have "\<dots> \<longleftrightarrow> b \<le> a" using assms(2) by (simp add: c less_eq_div_iff_mult_less_eq)
  finally show "b \<le> a div P * P \<longleftrightarrow> b \<le> a" .
  then show "a div P * P < b \<longleftrightarrow> a < b" by (simp add: not_le [symmetric])
qed

lemma page_div: "(p::nat) \<le> a \<Longrightarrow> a < p + P \<Longrightarrow> p = x div P * P \<Longrightarrow> a div P = x div P"
  by (metis add.commute div_nat_eqI mult.commute mult_Suc)

lemma in_page_iff: "0 < (P::nat) \<Longrightarrow> x div P * P \<le> a \<and> a < x div P * P + P \<longleftrightarrow> a div P = x div P"
  by (metis add.commute div_mult_mod_eq le_add1 mod_less_divisor nat_add_left_cancel_less page_div)

section \<open>The kernel's side\<close>

type_synonym memory = "nat \<Rightarrow> byte option"

definition write_at :: "nat \<Rightarrow> byte list \<Rightarrow> memory \<Rightarrow> memory" where
  "write_at p bs m = (\<lambda>a. if p \<le> a \<and> a < p + length bs then Some (bs ! (a - p)) else m a)"

definition installs :: "'k uffd \<Rightarrow> ('k \<Rightarrow> memory) \<Rightarrow> bool" where
  "installs u view \<longleftrightarrow>
     (\<forall>bs dst n k k'. uf_copy u bs dst n k = (Inr (), k') \<longrightarrow>
        view k' = write_at (unat dst) (take (unat n) bs) (view k))
     \<and> (\<forall>dst n k k'. uf_zeropage u dst n k = (Inr (), k') \<longrightarrow>
        view k' = write_at (unat dst) (replicate (unat n) 0) (view k))"

text \<open>A kernel of this kind, which refuses to install a page twice, as Linux does.\<close>

definition strict_uffd :: "memory uffd" where
  "strict_uffd = \<lparr> uf_register = (\<lambda>_ _. okE ()),
     uf_copy = (\<lambda>bs dst n m. if m (unat dst) \<noteq> None then (Inl ''EEXIST'', m)
        else (Inr (), write_at (unat dst) (take (unat n) bs) m)),
     uf_zeropage = (\<lambda>dst n m. (Inr (), write_at (unat dst) (replicate (unat n) 0) m)) \<rparr>"

lemma strict_installs: "installs strict_uffd id"
  by (auto simp: installs_def strict_uffd_def split: if_splits)

section \<open>The snapshot file\<close>

definition backed :: "byte list \<Rightarrow> nat \<Rightarrow> byte" where
  "backed file i = (if i < length file then file ! i else 0)"

text \<open>
  A positioned read of a regular file: it fails, at the offsets the environment chooses, or returns
  all the bytes asked for that the file has.
\<close>

definition pread :: "(u64 \<Rightarrow> string option) \<Rightarrow> byte list \<Rightarrow> reader" where
  "pread bad file off n = (case bad off of Some e \<Rightarrow> Inl e | None \<Rightarrow> Inr (take n (drop (unat off) file)))"

lemma length_pad_page: "length bs \<le> n \<Longrightarrow> length (pad_page n bs) = n"
  by (simp add: pad_page_def)

lemma nth_pad_page: "i < n \<Longrightarrow> length bs \<le> n \<Longrightarrow> pad_page n bs ! i = (if i < length bs then bs ! i else 0)"
  by (auto simp: pad_page_def nth_append)

lemma pread_pad:
  assumes "pread bad file off n = Inr bs"
  shows "length (pad_page n bs) = n" "i < n \<Longrightarrow> pad_page n bs ! i = backed file (unat off + i)"
proof -
  from assms have bs: "bs = take n (drop (unat off) file)" by (auto simp: pread_def split: option.splits)
  show "length (pad_page n bs) = n" by (rule length_pad_page) (simp add: bs)
  show "i < n \<Longrightarrow> pad_page n bs ! i = backed file (unat off + i)"
    by (subst nth_pad_page) (auto simp: bs backed_def)
qed

section \<open>The interface to a page source\<close>

text \<open>
  What the server relies on when it asks for a page: a full page of the region's content, or a hole
  only where that content is all zero.
\<close>

locale page_source =
  fixes fill :: source
    and content :: "nat \<Rightarrow> byte"
  assumes fill_page: "fill off n = Inr (Some bs) \<Longrightarrow> length bs = n \<and> (\<forall>i < n. bs ! i = content (unat off + i))"
    and fill_hole: "fill off n = Inr None \<Longrightarrow> i < n \<Longrightarrow> content (unat off + i) = 0"
begin

lemma write_page:
  assumes "unat off = p - b" "b \<le> p" "length bs = n" "\<forall>i < n. bs ! i = content (unat off + i)"
  shows "write_at p bs m = (\<lambda>a. if p \<le> a \<and> a < p + n then Some (content (a - b)) else m a)"
proof (rule ext)
  fix a
  show "write_at p bs m a = (if p \<le> a \<and> a < p + n then Some (content (a - b)) else m a)"
  proof (cases "p \<le> a \<and> a < p + n")
    case True
    then have "a - p < n" "unat off + (a - p) = a - b" using assms(1,2) by auto
    then have "bs ! (a - p) = content (a - b)" using assms(4) by auto
    then show ?thesis using True by (simp add: write_at_def assms(3))
  qed (auto simp: write_at_def assms(3))
qed

lemma serve_page_installs:
  assumes "installs u view" "k < 64" "unat base + unat len < 2 ^ 64"
    and "serve_page \<lparr> ps_uffd = u, ps_base = base, ps_len = len, ps_page = 2 ^ k, ps_source = fill \<rparr> addr s = (Inr (), s')"
  shows "unat base \<le> unat addr div 2 ^ k * 2 ^ k \<and> unat addr div 2 ^ k * 2 ^ k < unat base + unat len
    \<and> view s' = (\<lambda>a. if a div 2 ^ k = unat addr div 2 ^ k then Some (content (a - unat base)) else view s a)"
proof -
  let ?al = "addr AND NOT (2 ^ k - 1)"
  have al: "unat ?al = unat addr div 2 ^ k * 2 ^ k" by (rule unat_page_align)
  have n: "unat (2 ^ k :: u64) = 2 ^ k" using assms(2) by (rule unat_two_power)
  from assms(4) have r: "base \<le> ?al" "?al < base + len"
    by (auto simp: serve_page_def Let_def not_le not_less split: if_splits)
  have e: "unat (base + len) = unat base + unat len" using assms(3) by (simp add: unat_add_no_overflow)
  from r have r': "unat base \<le> unat ?al" "unat ?al < unat base + unat len"
    by (simp_all add: word_le_nat_alt word_less_nat_alt e)
  have off: "unat (?al - base) = unat ?al - unat base" using r(1) by (rule unat_diff_le)
  have "\<exists>bs. length bs = 2 ^ k \<and> (\<forall>i < 2 ^ k. bs ! i = content (unat (?al - base) + i))
      \<and> view s' = write_at (unat ?al) bs (view s)"
  proof -
    obtain q where f: "fill (?al - base) (2 ^ k) = Inr q" and
      s': "(case q of Some buf \<Rightarrow> map_errE Uffd (uf_copy u buf ?al (2 ^ k))
             | None \<Rightarrow> map_errE Uffd (uf_zeropage u ?al (2 ^ k))) s = (Inr (), s')"
      using assms(4) r n by (auto simp: serve_page_def Let_def split: if_splits sum.splits option.splits)
    show ?thesis
    proof (cases q)
      case None
      then have "view s' = write_at (unat ?al) (replicate (2 ^ k) 0) (view s)"
        using s' assms(1) n by (simp add: installs_def)
      then show ?thesis using fill_hole [of "?al - base" "2 ^ k"] f None
        by (intro exI [of _ "replicate (2 ^ k) 0"]) simp
    next
      case (Some bs)
      with fill_page f have b: "length bs = 2 ^ k" "\<forall>i < 2 ^ k. bs ! i = content (unat (?al - base) + i)" by auto
      then have "view s' = write_at (unat ?al) bs (view s)" using s' Some assms(1) n by (simp add: installs_def)
      with b show ?thesis by blast
    qed
  qed
  then obtain bs where bs: "length bs = 2 ^ k" "\<forall>i < 2 ^ k. bs ! i = content (unat (?al - base) + i)"
    "view s' = write_at (unat ?al) bs (view s)" by blast
  then have "view s' = (\<lambda>a. if unat ?al \<le> a \<and> a < unat ?al + 2 ^ k then Some (content (a - unat base)) else view s a)"
    using write_page [OF off r'(1) bs(1,2)] by simp
  then show ?thesis using r' unfolding al by (simp add: in_page_iff)
qed

end

interpretation fps: page_source
  "fps_fill \<lparr> fp_file = pread bad (take (unat n) data), fp_len = n \<rparr>" "backed (take (unat n) data)"
  for bad data n
proof
  fix off k bs i
  let ?f = "take (unat n) data"
  { assume "fps_fill \<lparr> fp_file = pread bad ?f, fp_len = n \<rparr> off k = Inr (Some bs)"
    then obtain rs where rs: "pread bad ?f off k = Inr rs" "bs = pad_page k rs"
      by (auto simp: fps_fill_def split: if_splits sum.splits)
    then show "length bs = k \<and> (\<forall>i < k. bs ! i = backed ?f (unat off + i))"
      using pread_pad [OF rs(1)] by simp }
  { assume h: "fps_fill \<lparr> fp_file = pread bad ?f, fp_len = n \<rparr> off k = Inr None" and "i < k"
    show "backed ?f (unat off + i) = 0"
    proof (cases "n \<le> off")
      case True
      then show ?thesis by (simp add: backed_def word_le_nat_alt)
    next
      case False
      with h have "pread bad ?f off k = Inr []" by (auto simp: fps_fill_def split: sum.splits if_splits)
      with \<open>i < k\<close> have "length ?f \<le> unat off" by (auto simp: pread_def split: option.splits)
      then show ?thesis by (auto simp: backed_def)
    qed }
qed

section \<open>Serving a run of events\<close>

text \<open>The events the loop handles, in order, until the stop flag is seen.\<close>

definition events_in :: "(string + uffd_event) list \<Rightarrow> uffd_event list" where
  "events_in rs = concat (map (\<lambda>r. case r of Inl e \<Rightarrow> [] | Inr ev \<Rightarrow> [ev]) rs)"

fun served :: "(bool \<times> poll_outcome) list \<Rightarrow> uffd_event list" where
  "served [] = []"
| "served ((stop, ready) # ticks) =
     (if stop then [] else (case ready of Poll_ready rs \<Rightarrow> events_in rs | _ \<Rightarrow> []) @ served ticks)"

lemma drain_events_simulates:
  assumes "\<And>ev s s'. h ev s = (Inr (), s') \<Longrightarrow> good s \<Longrightarrow> good s' \<and> view s' = step ev (view s)"
  shows "drain_events h rs s = (Inr (), s') \<Longrightarrow> good s \<Longrightarrow> good s' \<and> view s' = fold step (events_in rs) (view s)"
proof (induction rs arbitrary: s)
  case (Cons r rs)
  then obtain ev u where u: "r = Inr ev" "h ev s = (Inr (), u)" "drain_events h rs u = (Inr (), s')"
    by (cases r) (auto simp: seqE_Inr_iff)
  from assms [OF u(2) Cons.prems(2)] have "good u" "view u = step ev (view s)" by simp_all
  with Cons.IH [OF u(3)] show ?case by (simp add: events_in_def u(1))
qed (simp add: events_in_def)

lemma poll_loop_simulates:
  assumes "\<And>ev s s'. h ev s = (Inr (), s') \<Longrightarrow> good s \<Longrightarrow> good s' \<and> view s' = step ev (view s)"
  shows "poll_loop h ticks s = (Inr r, s') \<Longrightarrow> good s \<Longrightarrow> good s' \<and> view s' = fold step (served ticks) (view s)"
proof (induction ticks arbitrary: s)
  case (Cons t ticks)
  obtain stop ready where t: "t = (stop, ready)" by fastforce
  show ?case
  proof (cases "\<not> stop \<and> (\<exists>rs. ready = Poll_ready rs)")
    case True
    then obtain rs where rs: "ready = Poll_ready rs" "\<not> stop" by blast
    with Cons.prems t obtain u where u: "drain_events h rs s = (Inr (), u)" "poll_loop h ticks u = (Inr r, s')"
      by (auto simp: seqE_Inr_iff)
    from drain_events_simulates [where h = h and good = good and view = view and step = step, OF assms u(1) Cons.prems(2)]
      Cons.IH [OF u(2)] show ?thesis
      by (simp add: t rs)
  next
    case False
    then show ?thesis using Cons by (auto simp: t split: if_splits poll_outcome.splits)
  qed
qed simp

section \<open>A restore\<close>

text \<open>
  The layouts Firecracker sends: regions of whole pages that do not wrap around the address space. An
  eager restore would read the byte at every address of a region from the snapshot file.
\<close>

definition region_ok :: "nat \<Rightarrow> guest_region \<Rightarrow> bool" where
  "region_ok P m \<longleftrightarrow> P dvd unat (gr_base m) \<and> P dvd unat (gr_size m)
     \<and> unat (gr_base m) + unat (gr_size m) < 2 ^ 64 \<and> unat (gr_offset m) + unat (gr_size m) < 2 ^ 64"

definition covers :: "guest_region \<Rightarrow> nat \<Rightarrow> bool" where
  "covers m a \<longleftrightarrow> unat (gr_base m) \<le> a \<and> a < unat (gr_base m) + unat (gr_size m)"

definition eager :: "guest_region list \<Rightarrow> byte list \<Rightarrow> memory" where
  "eager mappings file a = map_option (\<lambda>m. backed file (unat (gr_offset m) + (a - unat (gr_base m))))
     (find (\<lambda>m. covers m a) mappings)"

definition restore_spec :: "nat \<Rightarrow> guest_region list \<Rightarrow> byte list \<Rightarrow> uffd_event \<Rightarrow> memory \<Rightarrow> memory" where
  "restore_spec P mappings file ev m = (case ev of
       Pagefault addr \<Rightarrow> (\<lambda>a. if a div P = unat addr div P then eager mappings file a else m a)
     | Remove lo hi \<Rightarrow> (\<lambda>a. if unat lo \<le> a \<and> a < unat lo + unat (hi - lo) then Some 0 else m a)
     | Other_event \<Rightarrow> m)"

lemma region_contains_covers:
  assumes "region_ok P m"
  shows "region_contains m addr \<longleftrightarrow> covers m (unat addr)"
  using assms by (simp add: region_ok_def region_contains_def covers_def word_le_nat_alt word_less_nat_alt
      unat_add_no_overflow)

lemma covers_page:
  assumes "region_ok P m" "0 < P" "a div P = b div P"
  shows "covers m a \<longleftrightarrow> covers m (b div P * P)"
proof -
  let ?e = "unat (gr_base m) + unat (gr_size m)"
  have d: "P dvd unat (gr_base m)" "P dvd ?e" using assms(1) by (simp_all add: region_ok_def)
  show ?thesis unfolding covers_def assms(3) [symmetric]
    using same_page_bounds(1) [OF d(1) assms(2), of a] same_page_bounds(2) [OF d(2) assms(2), of a] by simp
qed

lemma find_cong_on: "(\<And>x. x \<in> set xs \<Longrightarrow> P x = Q x) \<Longrightarrow> find P xs = find Q xs"
  by (induction xs) auto

lemma serve_fault_refines:
  assumes "installs u view" "k < 64" "\<forall>m \<in> set mappings. region_ok (2 ^ k) m"
    and "serve_fault u mappings (pread bad file) (2 ^ k) addr s = (Inr (), s')"
  shows "view s' = restore_spec (2 ^ k) mappings file (Pagefault addr) (view s)
    \<and> (\<exists>m \<in> set mappings. covers m (unat addr))"
proof -
  let ?P = "2 ^ k :: nat" and ?al = "addr AND NOT (2 ^ k - 1)"
  let ?p = "unat addr div ?P * ?P"
  have al: "unat ?al = ?p" by (rule unat_page_align)
  have n: "unat (2 ^ k :: u64) = ?P" using assms(2) by (rule unat_two_power)
  obtain m bs where m: "find (\<lambda>m. region_contains m ?al) mappings = Some m"
    and bs: "pread bad file (file_offset m ?al) ?P = Inr bs"
    and c: "uf_copy u (pad_page ?P bs) ?al (2 ^ k) s = (Inr (), s')"
    using assms(4) n by (auto simp: serve_fault_def Let_def split: option.splits sum.splits)
  have "find (\<lambda>m. covers m ?p) mappings = find (\<lambda>m. region_contains m ?al) mappings"
    using assms(3) region_contains_covers al by (intro find_cong_on) metis
  with m have m': "find (\<lambda>m. covers m ?p) mappings = Some m" by simp
  then have mc: "m \<in> set mappings" "covers m ?p" by (auto simp: find_Some_iff)
  with assms(3) have ok: "region_ok ?P m" by blast
  have same: "find (\<lambda>m. covers m a) mappings = Some m" if "a div ?P = unat addr div ?P" for a
  proof -
    have "find (\<lambda>m. covers m a) mappings = find (\<lambda>m. covers m ?p) mappings"
      using assms(3) covers_page [OF _ _ that] by (intro find_cong_on) simp
    with m' show ?thesis by simp
  qed
  have base: "gr_base m \<le> ?al" using mc(2) by (simp add: covers_def word_le_nat_alt al)
  have "unat (?al - gr_base m) = ?p - unat (gr_base m)" using unat_diff_le [OF base] by (simp only: al)
  moreover have "unat (gr_offset m) + (?p - unat (gr_base m)) < 2 ^ 64"
  proof -
    have "?p - unat (gr_base m) < unat (gr_size m)" using mc(2) unfolding covers_def by linarith
    moreover have "unat (gr_offset m) + unat (gr_size m) < 2 ^ 64" using ok unfolding region_ok_def by blast
    ultimately show ?thesis by linarith
  qed
  ultimately have off: "unat (file_offset m ?al) = unat (gr_offset m) + (?p - unat (gr_base m))"
    by (simp add: file_offset_def unat_add_no_overflow)
  have view: "view s' = write_at ?p (pad_page ?P bs) (view s)"
    using assms(1) c n al pread_pad(1) [OF bs] by (simp add: installs_def)
  have "view s' a = restore_spec ?P mappings file (Pagefault addr) (view s) a" for a
  proof (cases "a div ?P = unat addr div ?P")
    case True
    then have a: "?p \<le> a" "a < ?p + ?P" using in_page_iff [of ?P "unat addr" a] by simp_all
    with off base mc(2) have "unat (file_offset m ?al) + (a - ?p) = unat (gr_offset m) + (a - unat (gr_base m))"
      by (simp add: covers_def)
    then have "pad_page ?P bs ! (a - ?p) = backed file (unat (gr_offset m) + (a - unat (gr_base m)))"
      using pread_pad(2) [OF bs, of "a - ?p"] a by simp
    then show ?thesis using a True same [OF True]
      by (simp add: view write_at_def pread_pad(1) [OF bs] restore_spec_def eager_def)
  next
    case False
    then show ?thesis using in_page_iff [of ?P "unat addr" a]
      by (auto simp: view write_at_def pread_pad(1) [OF bs] restore_spec_def)
  qed
  moreover have "covers m (unat addr)" using covers_page [OF ok, of "unat addr" "unat addr"] mc(2) by simp
  ultimately show ?thesis using mc(1) by blast
qed

lemma restore_event_refines:
  assumes "installs u view" "k < 64" "\<forall>m \<in> set mappings. region_ok (2 ^ k) m"
    and "restore_event u mappings (pread bad file) (2 ^ k) ev s = (Inr (), s')"
  shows "view s' = restore_spec (2 ^ k) mappings file ev (view s)"
proof (cases ev)
  case (Pagefault addr)
  then show ?thesis using serve_fault_refines [OF assms(1-3)] assms(4) by (simp add: restore_event_def)
next
  case (Remove lo hi)
  with assms(4) have "uf_zeropage u lo (hi - lo) s = (Inr (), s')" by (simp add: restore_event_def)
  with assms(1) have "view s' = write_at (unat lo) (replicate (unat (hi - lo)) 0) (view s)"
    by (simp add: installs_def)
  then show ?thesis by (auto simp: Remove restore_spec_def write_at_def fun_eq_iff)
qed (use assms(4) in \<open>simp add: restore_event_def restore_spec_def\<close>)

text \<open>
  C7. Lazy restore refines eager restore. Whatever order the guest touches its pages in, whatever the
  poll loop meets in between and however often pages are removed, the memory the page-fault handler
  has installed is the fold of the specification over the events it served: a fault brings in exactly
  the page an eager restore would have read, zero past the end of the file, a removal zeros its range,
  and nothing else changes.
\<close>

theorem lazy_restore_refines_eager:
  assumes "installs u view" "k < 64" "\<forall>m \<in> set mappings. region_ok (2 ^ k) m"
    and "poll_loop (restore_event u mappings (pread bad file) (2 ^ k)) ticks s = (Inr r, s')"
  shows "view s' = fold (restore_spec (2 ^ k) mappings file) (served ticks) (view s)"
  using poll_loop_simulates [where good = "\<lambda>_. True" and view = view and step = "restore_spec (2 ^ k) mappings file",
      OF _ assms(4)] restore_event_refines [OF assms(1-3)] by blast

definition sample_region :: guest_region where
  "sample_region = \<lparr> gr_base = 8192, gr_size = 8192, gr_offset = 4096, gr_page_size = 4096 \<rparr>"

lemma lazy_restore_refines_eager_witness:
  "\<exists>r s'. poll_loop (restore_event strict_uffd [sample_region] (pread (\<lambda>_. None) [1, 2]) (2 ^ 12))
       [(False, Poll_interrupted), (False, Poll_ready [Inr (Pagefault 8200)]), (True, Poll_timeout)] (\<lambda>_. None) = (Inr r, s')
     \<and> s' = fold (restore_spec (2 ^ 12) [sample_region] [1, 2]) [Pagefault 8200] (\<lambda>_. None)"
proof -
  let ?ticks = "[(False, Poll_interrupted), (False, Poll_ready [Inr (Pagefault 8200)]), (True, Poll_timeout)]"
  let ?h = "restore_event strict_uffd [sample_region] (pread (\<lambda>_. None) [1, 2]) (2 ^ 12)"
  obtain s' where run: "poll_loop ?h ?ticks (\<lambda>_. None) = (Inr Stopped_serving, s')"
    by (simp add: restore_event_def serve_fault_def sample_region_def region_contains_def strict_uffd_def
        pread_def Let_def map_errE_def seqE_def bindE_def word_le_nat_alt word_less_nat_alt)
  have "\<forall>m \<in> set [sample_region]. region_ok (2 ^ 12) m"
    by (simp add: sample_region_def region_ok_def)
  from lazy_restore_refines_eager [OF strict_installs _ this run] run show ?thesis
    by (simp add: events_in_def)
qed

text \<open>With no removal among the events, what is installed is the touched pages of the eager image.\<close>

lemma restore_spec_cases:
  "restore_spec P mappings file (Pagefault addr) m =
     (\<lambda>a. if a div P = unat addr div P then eager mappings file a else m a)"
  "restore_spec P mappings file Other_event m = m"
  by (simp_all add: restore_spec_def)

lemma fold_faults:
  assumes "\<forall>ev \<in> set evs. \<forall>lo hi. ev \<noteq> Remove lo hi"
  shows "fold (restore_spec P mappings file) evs m =
    (\<lambda>a. if \<exists>addr. Pagefault addr \<in> set evs \<and> a div P = unat addr div P then eager mappings file a else m a)"
  using assms
proof (induction evs arbitrary: m)
  case (Cons ev evs)
  then have IH: "fold (restore_spec P mappings file) evs m' =
    (\<lambda>a. if \<exists>addr. Pagefault addr \<in> set evs \<and> a div P = unat addr div P then eager mappings file a else m' a)" for m'
    by simp
  show ?case by (cases ev) (use Cons.prems in \<open>auto simp: IH restore_spec_cases fun_eq_iff\<close>)
qed simp

text \<open>
  The guest never sees a stale or foreign byte. Starting with nothing installed and with no page
  removed, an address is backed after any run of the fault loop exactly when its page was touched, and
  then by the byte an eager restore would have put there.
\<close>

theorem lazy_pages_are_eager:
  assumes "installs u view" "k < 64" "\<forall>m \<in> set mappings. region_ok (2 ^ k) m"
    and "poll_loop (restore_event u mappings (pread bad file) (2 ^ k)) ticks s = (Inr r, s')"
    and "view s = (\<lambda>_. None)" "\<forall>ev \<in> set (served ticks). \<forall>lo hi. ev \<noteq> Remove lo hi"
  shows "view s' a = (if \<exists>addr. Pagefault addr \<in> set (served ticks) \<and> a div 2 ^ k = unat addr div 2 ^ k
    then eager mappings file a else None)"
  using poll_loop_simulates [where good = "\<lambda>_. True" and view = view and step = "restore_spec (2 ^ k) mappings file",
      OF _ assms(4)] restore_event_refines [OF assms(1-3)] fold_faults [OF assms(6)] assms(5) by simp

definition sample_ticks :: "(bool \<times> poll_outcome) list" where
  "sample_ticks = [(False, Poll_interrupted), (False, Poll_ready [Inr (Pagefault 8200)]), (True, Poll_timeout)]"

lemma sample_run:
  "\<exists>s'. poll_loop (restore_event strict_uffd [sample_region] (pread (\<lambda>_. None) file) (2 ^ 12)) sample_ticks (\<lambda>_. None)
     = (Inr Stopped_serving, s')"
  by (simp add: sample_ticks_def restore_event_def serve_fault_def sample_region_def region_contains_def strict_uffd_def
      pread_def Let_def map_errE_def seqE_def bindE_def word_le_nat_alt word_less_nat_alt)

lemma sample_region_ok: "\<forall>m \<in> set [sample_region]. region_ok (2 ^ 12) m"
  by (simp add: sample_region_def region_ok_def)

lemma lazy_pages_are_eager_witness:
  "\<exists>s'. poll_loop (restore_event strict_uffd [sample_region] (pread (\<lambda>_. None) (replicate 4097 7)) (2 ^ 12))
         sample_ticks (\<lambda>_. None) = (Inr Stopped_serving, s')
     \<and> s' 8192 = Some 7 \<and> s' 8193 = Some 0 \<and> s' 12288 = None"
proof -
  obtain s' where run: "poll_loop (restore_event strict_uffd [sample_region] (pread (\<lambda>_. None) (replicate 4097 7)) (2 ^ 12))
      sample_ticks (\<lambda>_. None) = (Inr Stopped_serving, s')" using sample_run by blast
  have sv: "served sample_ticks = [Pagefault 8200]" by (simp add: sample_ticks_def events_in_def)
  have "id s' a = (if a div 2 ^ 12 = (2::nat) then eager [sample_region] (replicate 4097 7) a else None)" for a
    using lazy_pages_are_eager [OF strict_installs _ sample_region_ok run, of a] by (simp add: sv)
  moreover have "eager [sample_region] (replicate 4097 7) 8192 = Some 7"
    "eager [sample_region] (replicate 4097 7) 8193 = Some 0"
    by (simp_all add: eager_def sample_region_def covers_def backed_def)
  ultimately show ?thesis using run by simp
qed

lemma uffd_fault_outside:
  assumes "k < 64" "\<forall>m \<in> set mappings. region_ok (2 ^ k) m" "\<forall>m \<in> set mappings. \<not> covers m (unat addr)"
  shows "restore_event u mappings mem (2 ^ k) (Pagefault addr) s = (Inl (NoRegion (addr AND NOT (2 ^ k - 1))), s)"
proof -
  have "\<not> region_contains m (addr AND NOT (2 ^ k - 1))" if "m \<in> set mappings" for m
    using that assms(2,3) covers_page [of "2 ^ k" m "unat addr" "unat addr"]
    by (auto simp: region_contains_covers unat_page_align)
  then have "find (\<lambda>m. region_contains m (addr AND NOT (2 ^ k - 1))) mappings = None"
    by (simp add: find_None_iff)
  then show ?thesis by (simp add: restore_event_def serve_fault_def)
qed

section \<open>A single region\<close>

lemma file_server_page:
  assumes "installs u view" "k < 64" "unat base + unat len < 2 ^ 64"
    and "serve_page \<lparr> ps_uffd = u, ps_base = base, ps_len = len, ps_page = 2 ^ k,
      ps_source = fps_fill \<lparr> fp_file = pread bad (take (unat n) data), fp_len = n \<rparr> \<rparr> addr s = (Inr (), s')"
  shows "view s' = (\<lambda>a. if a div 2 ^ k = unat addr div 2 ^ k then Some (backed (take (unat n) data) (a - unat base)) else view s a)"
  using fps.serve_page_installs [OF assms] by blast

text \<open>
  The single-region server does the same for its region. Whatever faults it resolves, with the
  source a file of which the first \<open>n\<close> bytes count, each touched page holds the file's bytes at its
  offset in the region, zero past the end, whether it was copied or mapped as a zero page for a hole,
  and no other byte changes.
\<close>

theorem region_server_serves_file:
  assumes "installs u view" "k < 64" "unat base + unat len < 2 ^ 64"
    and "serve \<lparr> ps_uffd = u, ps_base = base, ps_len = len, ps_page = 2 ^ k,
      ps_source = fps_fill \<lparr> fp_file = pread bad (take (unat n) data), fp_len = n \<rparr> \<rparr> ticks s = (Inr r, s')"
  shows "view s' a = (if \<exists>addr. Pagefault addr \<in> set (served ticks) \<and> a div 2 ^ k = unat addr div 2 ^ k
    then Some (backed (take (unat n) data) (a - unat base)) else view s a)"
proof -
  let ?step = "\<lambda>ev m. case ev of
      Pagefault addr \<Rightarrow> (\<lambda>a. if a div 2 ^ k = unat addr div 2 ^ k
        then Some (backed (take (unat n) data) (a - unat base)) else m a)
    | _ \<Rightarrow> m"
  have "view s' = fold ?step (served ticks) (view s)"
    using poll_loop_simulates [where good = "\<lambda>_. True" and view = view and step = ?step, OF _ assms(4) [unfolded serve_def]]
      file_server_page [OF assms(1-3)] by (fastforce split: uffd_event.splits)
  moreover have "fold ?step evs m a = (if \<exists>addr. Pagefault addr \<in> set evs \<and> a div 2 ^ k = unat addr div 2 ^ k
      then Some (backed (take (unat n) data) (a - unat base)) else m a)" for evs m
  proof (induction evs arbitrary: m)
    case (Cons ev evs)
    then show ?case by (cases ev) auto
  qed simp
  ultimately show ?thesis by simp
qed

lemma region_server_serves_file_witness:
  "\<exists>s'. serve \<lparr> ps_uffd = strict_uffd, ps_base = 8, ps_len = 8, ps_page = 2 ^ 2,
      ps_source = fps_fill \<lparr> fp_file = pread (\<lambda>_. None) (take (unat (2 :: u64)) [7, 8, 9]), fp_len = 2 \<rparr> \<rparr>
      [(False, Poll_ready [Inr (Pagefault 10)])] (\<lambda>_. None) = (Inr Still_serving, s')
    \<and> s' 9 = Some 8 \<and> s' 10 = Some 0 \<and> s' 12 = None"
proof -
  let ?srv = "\<lparr> ps_uffd = strict_uffd, ps_base = 8, ps_len = 8, ps_page = 2 ^ 2,
      ps_source = fps_fill \<lparr> fp_file = pread (\<lambda>_. None) (take (unat (2 :: u64)) [7, 8, 9]), fp_len = 2 \<rparr> \<rparr>"
  let ?t = "[(False, Poll_ready [Inr (Pagefault 10)])]"
  have "isl (fst (serve ?srv ?t (\<lambda>_. None))) = False \<and> projr (fst (serve ?srv ?t (\<lambda>_. None))) = Still_serving"
    by (simp add: serve_def serve_page_def strict_uffd_def fps_fill_def pread_def Let_def map_errE_def seqE_def
        bindE_def word_le_nat_alt word_less_nat_alt write_at_def pad_page_def)
  then obtain s' where run: "serve ?srv ?t (\<lambda>_. None) = (Inr Still_serving, s')"
    by (metis (no_types, lifting) prod.collapse sum.collapse(2))
  have "id s' a = (if a div 4 = 2 then Some (backed [7, 8] (a - 8)) else None)" for a
    using region_server_serves_file [OF strict_installs, of 2 8 8 "\<lambda>_. None" 2 "[7, 8, 9]" ?t "\<lambda>_. None"
        Still_serving s' a] run by (auto simp: events_in_def)
  then show ?thesis using run by (simp add: backed_def)
qed

section \<open>Faults outside every region\<close>

text \<open>
  A fault outside the layout is an error, not a page. When no region of the layout covers the
  faulting address the handler reports \<open>NoRegion\<close> with the page's address and touches nothing.
\<close>

theorem stray_fault_is_an_error:
  assumes "k < 64" "\<forall>m \<in> set mappings. region_ok (2 ^ k) m" "\<forall>m \<in> set mappings. \<not> covers m (unat addr)"
  shows "restore_event u mappings mem (2 ^ k) (Pagefault addr) s = (Inl (NoRegion (addr AND NOT (2 ^ k - 1))), s)"
  using assms by (rule uffd_fault_outside)

lemma stray_fault_is_an_error_witness:
  "restore_event strict_uffd [sample_region] (pread (\<lambda>_. None) []) (2 ^ 12) (Pagefault 4100) (\<lambda>_. None)
    = (Inl (NoRegion 4096), \<lambda>_. None)"
  using stray_fault_is_an_error [OF _ sample_region_ok, of 4100 strict_uffd "pread (\<lambda>_. None) []" "\<lambda>_. None"]
  by (simp add: covers_def sample_region_def)

end
