(* ===== verification/Guest_Clock.thy ===== *)
theory Guest_Clock
  imports Proto_Ids
begin

text \<open>
  \<open>crates/guestd/src/clock.rs\<close>: the correction of a guest clock that stood still during a migration. The
  offset is an \<open>i128\<close>; it is modelled as an integer, and \<open>offset_fits_i128\<close> shows that neither the offset
  nor the sum that \<open>correct\<close> forms leaves that type's range, so nothing overflows.
\<close>

record clock_fixup =
  cf_offset_nanos :: int

definition cf_between :: "timestamp \<Rightarrow> timestamp \<Rightarrow> clock_fixup" where
  "cf_between guest_at_resume authoritative =
     \<lparr> cf_offset_nanos = uint (as_nanos authoritative) - uint (as_nanos guest_at_resume) \<rparr>"

definition cf_none :: clock_fixup where
  "cf_none = \<lparr> cf_offset_nanos = 0 \<rparr>"

definition cf_is_skewed :: "clock_fixup \<Rightarrow> bool" where
  "cf_is_skewed c \<longleftrightarrow> cf_offset_nanos c \<noteq> 0"

definition cf_correct :: "clock_fixup \<Rightarrow> timestamp \<Rightarrow> timestamp" where
  "cf_correct c observed =
     (let corrected = uint (as_nanos observed) + cf_offset_nanos c;
          clamped = max 0 (min corrected (2 ^ 64 - 1))
      in from_nanos (word_of_int clamped))"

definition in_i128 :: "int \<Rightarrow> bool" where
  "in_i128 x \<longleftrightarrow> - (2 ^ 127) \<le> x \<and> x < 2 ^ 127"

lemma u64_int_bounds: "0 \<le> uint (w :: u64)" "uint (w :: u64) < 2 ^ 64"
  using uint_lt2p [of w] by simp_all

lemma offset_fits_i128:
  "in_i128 (cf_offset_nanos (cf_between g a))"
  "in_i128 (uint (as_nanos t) + cf_offset_nanos (cf_between g a))"
proof -
  have "- (2 ^ 127) \<le> x - y" "x - y < 2 ^ 127" "- (2 ^ 127) \<le> z + (x - y)" "z + (x - y) < 2 ^ 127"
    if "0 \<le> x" "x < 2 ^ 64" "0 \<le> y" "y < 2 ^ 64" "0 \<le> z" "z < 2 ^ 64" for x y z :: int
    using that by simp_all
  from this [OF u64_int_bounds u64_int_bounds u64_int_bounds]
  show "in_i128 (cf_offset_nanos (cf_between g a))"
    "in_i128 (uint (as_nanos t) + cf_offset_nanos (cf_between g a))"
    by (simp_all only: cf_between_def in_i128_def clock_fixup.simps simp_thms)
qed

lemma correct_nanos:
  "uint (as_nanos (cf_correct c t)) = max 0 (min (uint (as_nanos t) + cf_offset_nanos c) (2 ^ 64 - 1))"
proof -
  let ?x = "max 0 (min (uint (as_nanos t) + cf_offset_nanos c) (2 ^ 64 - 1))"
  have "0 \<le> ?x" "?x < 2 ^ LENGTH(64)" by simp_all
  then have "take_bit LENGTH(64) ?x = ?x" by (rule take_bit_int_eq_self)
  then have "uint (word_of_int ?x :: u64) = ?x" by (simp only: uint_word_of_int_eq)
  then show ?thesis by (simp only: cf_correct_def Let_def from_nanos_def timestamp.sel)
qed

text \<open>
  C37. The clock correction is exact, ordered and safe. A corrected reading is the true time, that is the
  authoritative one advanced by what the guest's clock has moved since the resume, clipped at the ends
  of the timestamp range and never wrapped; the resume instant itself maps to the authoritative
  reading; the order of readings is kept; and the 128-bit arithmetic does not overflow.
\<close>

theorem clock_correction_exact:
  "uint (as_nanos (cf_correct (cf_between g a) t))
     = max 0 (min (uint (as_nanos a) + (uint (as_nanos t) - uint (as_nanos g))) (2 ^ 64 - 1))
   \<and> cf_correct (cf_between g a) g = a
   \<and> mono (uint \<circ> as_nanos \<circ> cf_correct (cf_between g a) \<circ> Timestamp)
   \<and> (cf_is_skewed (cf_between g a) \<or> cf_correct (cf_between g a) t = t)
   \<and> in_i128 (uint (as_nanos t) + cf_offset_nanos (cf_between g a))"
proof (intro conjI)
  have eq: "cf_correct c u = v"
    if "max 0 (min (uint (as_nanos u) + cf_offset_nanos c) (2 ^ 64 - 1)) = uint (as_nanos v)" for c u v
    using that correct_nanos [of c u] by (metis timestamp.expand word_uint_eq_iff)
  show "uint (as_nanos (cf_correct (cf_between g a) t))
     = max 0 (min (uint (as_nanos a) + (uint (as_nanos t) - uint (as_nanos g))) (2 ^ 64 - 1))"
    by (simp add: correct_nanos cf_between_def algebra_simps)
  show "cf_correct (cf_between g a) g = a"
    using u64_int_bounds [of "as_nanos a"] by (intro eq) (simp add: cf_between_def)
  show "mono (uint \<circ> as_nanos \<circ> cf_correct (cf_between g a) \<circ> Timestamp)"
    by (rule monoI) (auto simp: correct_nanos word_le_def intro!: max.mono min.mono)
  show "cf_is_skewed (cf_between g a) \<or> cf_correct (cf_between g a) t = t"
    using u64_int_bounds [of "as_nanos t"] by (auto simp: cf_is_skewed_def intro!: eq)
  show "in_i128 (uint (as_nanos t) + cf_offset_nanos (cf_between g a))"
    by (rule offset_fits_i128)
qed

end
