(* ===== verification/Guest_Wrap.thy ===== *)
theory Guest_Wrap
  imports Guest_Facts
begin

text \<open>
  \<open>crates/guestd/src/wrap.rs\<close>: turn boundaries inferred from the lines a wrapped child prints, the
  supervisor driven by them (\<open>apply_signal\<close>), and the tracker shared between the child reader and the
  drain responders. The tracker's two atomics are one state: only the reader writes them.
\<close>

datatype turn_signal = Sig_Start | Sig_End

record wrap_config =
  wc_start_marker :: string
  wc_end_marker :: string

definition wrap_default :: wrap_config where
  "wrap_default = \<lparr> wc_start_marker = ''@@TURN_START@@'', wc_end_marker = ''@@TURN_END@@'' \<rparr>"

definition classify :: "wrap_config \<Rightarrow> string \<Rightarrow> turn_signal option" where
  "classify cfg line =
     (let line = trim line in
      if line = wc_start_marker cfg then Some Sig_Start
      else if line = wc_end_marker cfg then Some Sig_End
      else None)"

definition apply_signal :: "'c chan_send \<Rightarrow> turn_signal \<Rightarrow> timestamp \<Rightarrow> ('c, unit) guest_op" where
  "apply_signal send signal now g =
     (case signal of
        Sig_Start \<Rightarrow>
          (case g_in_flight g of
             Some _ \<Rightarrow> (Inr (), g)
           | None \<Rightarrow> bindE (begin_observed_turn send now) (\<lambda>_. okE ()) g)
      | Sig_End \<Rightarrow>
          (case g_in_flight g of
             None \<Rightarrow> (Inr (), g)
           | Some _ \<Rightarrow> end_turn send now g))"

record turn_tracker =
  tt_in_turn :: bool
  tt_last_id :: u64

definition tracker_new :: turn_tracker where
  "tracker_new = \<lparr> tt_in_turn = False, tt_last_id = 0 \<rparr>"

definition tracker_apply :: "turn_signal \<Rightarrow> turn_tracker \<Rightarrow> turn_tracker" where
  "tracker_apply signal t =
     (case signal of
        Sig_Start \<Rightarrow>
          (let t' = t \<lparr> tt_in_turn := True \<rparr> in
           if \<not> tt_in_turn t then t' \<lparr> tt_last_id := tt_last_id t + 1 \<rparr> else t')
      | Sig_End \<Rightarrow> t \<lparr> tt_in_turn := False \<rparr>)"

definition tracker_in_flight :: "turn_tracker \<Rightarrow> turn_id option" where
  "tracker_in_flight t = (if tt_in_turn t then Some (TurnId (tt_last_id t)) else None)"

section \<open>Markers\<close>

text \<open>A marker that is not trimmed itself can never be seen.\<close>

lemma untrimmed_never_matches:
  "trim (wc_start_marker cfg) \<noteq> wc_start_marker cfg \<Longrightarrow> classify cfg line \<noteq> Some Sig_Start"
  using trim_idem [of line] by (auto simp: classify_def Let_def split: if_splits)

lemma default_markers:
  "classify wrap_default ''@@TURN_START@@'' = Some Sig_Start"
  "classify wrap_default ''@@TURN_END@@'' = Some Sig_End"
proof -
  have s: "trim (''@@TURN_START@'' @ ''@'') = ''@@TURN_START@'' @ ''@''"
    unfolding trim_def using trim_start_graph [of "CHR ''@''" "''@TURN_START@@''"]
      trim_end_graph [of "CHR ''@''" "''@@TURN_START@''"] by (simp add: ascii_graph_def)
  have e: "trim (''@@TURN_END@'' @ ''@'') = ''@@TURN_END@'' @ ''@''"
    unfolding trim_def using trim_start_graph [of "CHR ''@''" "''@TURN_END@@''"]
      trim_end_graph [of "CHR ''@''" "''@@TURN_END@''"] by (simp add: ascii_graph_def)
  show "classify wrap_default ''@@TURN_START@@'' = Some Sig_Start"
    "classify wrap_default ''@@TURN_END@@'' = Some Sig_End"
    using s e by (simp_all add: classify_def wrap_default_def)
qed

section \<open>The tracker and the supervisor\<close>

definition wrap_run :: "'c chan_send \<Rightarrow> (turn_signal \<times> timestamp) list \<Rightarrow> 'c guest \<Rightarrow> 'c guest" where
  "wrap_run send sigs g = foldl (\<lambda>g (sig, now). snd (apply_signal send sig now g)) g sigs"

definition tracker_run :: "(turn_signal \<times> timestamp) list \<Rightarrow> turn_tracker" where
  "tracker_run sigs = foldl (\<lambda>t (sig, now). tracker_apply sig t) tracker_new sigs"

text \<open>The \<open>n\<close>-th message of an observed run: starts and ends alternate, and the ids count the turns.\<close>

fun observed_msg :: "nat \<Rightarrow> guest_to_host \<Rightarrow> bool" where
  "observed_msg n (TurnStarted t _) \<longleftrightarrow> even n \<and> turn_no t = n div 2"
| "observed_msg n (TurnEnded t _) \<longleftrightarrow> odd n \<and> turn_no t = n div 2"
| "observed_msg n _ \<longleftrightarrow> False"

definition alternates :: "guest_to_host list \<Rightarrow> bool" where
  "alternates ms \<longleftrightarrow> (\<forall>n < length ms. observed_msg n (ms ! n))"

lemma alternates_snoc: "alternates (ms @ [m]) \<longleftrightarrow> alternates ms \<and> observed_msg (length ms) m"
  by (auto simp: alternates_def nth_append less_Suc_eq)

definition wrap_inv :: "turn_tracker \<Rightarrow> pseudo_channel guest \<Rightarrow> bool" where
  "wrap_inv t g \<longleftrightarrow> (let ms = pc_sent (g_chan g); k = (length ms + 1) div 2 in
     alternates ms \<and> turn_no (g_next_turn g) = k \<and> unat (tt_last_id t) = k
     \<and> (tt_in_turn t \<longleftrightarrow> odd (length ms))
     \<and> (case g_in_flight g of None \<Rightarrow> even (length ms) | Some i \<Rightarrow> odd (length ms) \<and> turn_no i + 1 = k))"

lemma wrap_inv_new: "wrap_inv tracker_new (guest_new v ver pc_new)"
  by (simp add: wrap_inv_def tracker_new_def guest_new_def pc_new_def alternates_def)

lemma wrap_inv_start:
  assumes "wrap_inv t g" "length (pc_sent (g_chan g)) + 1 < 2 ^ 64" "g_in_flight g = None"
  shows "wrap_inv (tracker_apply Sig_Start t) (snd (apply_signal pc_send Sig_Start now g))
    \<and> length (pc_sent (g_chan (snd (apply_signal pc_send Sig_Start now g)))) = length (pc_sent (g_chan g)) + 1"
proof -
  let ?ms = "pc_sent (g_chan g)"
  from assms(1,3) obtain j where j: "length ?ms = 2 * j" by (auto simp: wrap_inv_def Let_def elim: evenE)
  with assms(1,3) have i: "alternates ?ms" "turn_no (g_next_turn g) = j" "unat (tt_last_id t) = j" "\<not> tt_in_turn t"
    by (auto simp: wrap_inv_def Let_def)
  have b: "j + 1 < 2 ^ 64" using j assms(2) by simp
  then have n: "turn_no (turn_next (g_next_turn g)) = j + 1" "unat (tt_last_id t + 1) = j + 1"
    using i by (simp_all add: turn_no_next unat_add_no_overflow)
  have "snd (apply_signal pc_send Sig_Start now g) =
      g \<lparr> g_chan := g_chan g \<lparr> pc_sent := ?ms @ [TurnStarted (g_next_turn g) now] \<rparr>,
          g_next_turn := turn_next (g_next_turn g), g_in_flight := Some (g_next_turn g) \<rparr>"
    by (simp add: apply_signal_def assms(3) begin_observed_turn_def begin_turn_def Let_def seqE_def bindE_def
        g_send_def pc_send_def)
  moreover have "tracker_apply Sig_Start t = \<lparr> tt_in_turn = True, tt_last_id = tt_last_id t + 1 \<rparr>"
    using i(4) by (simp add: tracker_apply_def Let_def)
  ultimately show ?thesis using i n j by (simp add: wrap_inv_def Let_def alternates_snoc)
qed

lemma wrap_inv_end:
  assumes "wrap_inv t g" "g_in_flight g = Some i"
  shows "wrap_inv (tracker_apply Sig_End t) (snd (apply_signal pc_send Sig_End now g))
    \<and> length (pc_sent (g_chan (snd (apply_signal pc_send Sig_End now g)))) = length (pc_sent (g_chan g)) + 1"
proof -
  let ?ms = "pc_sent (g_chan g)"
  from assms obtain j where j: "length ?ms = 2 * j + 1" by (auto simp: wrap_inv_def Let_def elim: oddE)
  with assms have h: "alternates ?ms" "turn_no (g_next_turn g) = j + 1" "unat (tt_last_id t) = j + 1"
    "turn_no i = j" "tt_in_turn t"
    by (auto simp: wrap_inv_def Let_def)
  have "snd (apply_signal pc_send Sig_End now g) =
      g \<lparr> g_chan := g_chan g \<lparr> pc_sent := ?ms @ [TurnEnded i now] \<rparr>, g_in_flight := None \<rparr>"
    by (simp add: apply_signal_def assms(2) end_turn_def seqE_def bindE_def g_send_def pc_send_def)
  moreover have "tracker_apply Sig_End t = t \<lparr> tt_in_turn := False \<rparr>"
    by (simp add: tracker_apply_def)
  ultimately show ?thesis using h j by (simp add: wrap_inv_def Let_def alternates_snoc)
qed

lemma wrap_inv_step:
  assumes "wrap_inv t g" "length (pc_sent (g_chan g)) + 1 < 2 ^ 64"
  shows "wrap_inv (tracker_apply sig t) (snd (apply_signal pc_send sig now g))
    \<and> length (pc_sent (g_chan (snd (apply_signal pc_send sig now g)))) \<le> length (pc_sent (g_chan g)) + 1"
proof (cases sig)
  case Sig_Start
  show ?thesis
  proof (cases "g_in_flight g")
    case (Some i)
    then have "tracker_apply sig t = t" using assms(1)
      by (simp add: Sig_Start tracker_apply_def Let_def wrap_inv_def)
    then show ?thesis using assms(1) Some by (simp add: Sig_Start apply_signal_def)
  qed (use wrap_inv_start [OF assms] Sig_Start in auto)
next
  case Sig_End
  show ?thesis
  proof (cases "g_in_flight g")
    case None
    then have "tracker_apply sig t = t" using assms(1)
      by (simp add: Sig_End tracker_apply_def Let_def wrap_inv_def)
    then show ?thesis using assms(1) None by (simp add: Sig_End apply_signal_def)
  qed (use wrap_inv_end [OF assms(1)] Sig_End in auto)
qed

lemma wrap_run_snoc: "wrap_run send (sigs @ [(s, now)]) g = snd (apply_signal send s now (wrap_run send sigs g))"
  by (simp add: wrap_run_def)

lemma tracker_run_snoc: "tracker_run (sigs @ [(s, now)]) = tracker_apply s (tracker_run sigs)"
  by (simp add: tracker_run_def)

lemma wrap_inv_run:
  "length sigs < 2 ^ 64 - 1 \<Longrightarrow> wrap_inv (tracker_run sigs) (wrap_run pc_send sigs (guest_new v ver pc_new))
    \<and> length (pc_sent (g_chan (wrap_run pc_send sigs (guest_new v ver pc_new)))) \<le> length sigs"
proof (induction sigs rule: rev_induct)
  case Nil
  have "pc_sent (g_chan (guest_new v ver pc_new)) = []" by (simp add: guest_new_def pc_new_def)
  then show ?case by (simp add: wrap_run_def tracker_run_def wrap_inv_new)
next
  case (snoc e sigs)
  obtain s now where e: "e = (s, now)" by fastforce
  from snoc have IH: "wrap_inv (tracker_run sigs) (wrap_run pc_send sigs (guest_new v ver pc_new))"
    "length (pc_sent (g_chan (wrap_run pc_send sigs (guest_new v ver pc_new)))) \<le> length sigs" by simp_all
  have "length (pc_sent (g_chan (wrap_run pc_send sigs (guest_new v ver pc_new)))) + 1 < 2 ^ 64"
    using IH(2) snoc.prems by simp
  from wrap_inv_step [OF IH(1) this, of s now] IH(2) show ?case
    by (simp add: e wrap_run_snoc tracker_run_snoc)
qed

text \<open>
  C35. The tracker tells the truth about the child. For any sequence of boundary lines, duplicates and
  strays included, the tracker says a turn is in flight exactly when a supervisor fed the same
  boundaries has one, and names it one higher, because its ids start at 1 and the protocol's at 0; and
  that supervisor's messages alternate between the start and the end of turns 0, 1, 2 and so on.
\<close>

theorem tracker_tracks_guest:
  assumes "length sigs < 2 ^ 64 - 1" "g = wrap_run pc_send sigs (guest_new v ver pc_new)"
  shows "map_option turn_no (tracker_in_flight (tracker_run sigs)) = map_option (Suc \<circ> turn_no) (g_in_flight g)
    \<and> alternates (pc_sent (g_chan g))"
  using wrap_inv_run [OF assms(1), of v ver]
  by (auto simp: assms(2) [symmetric] wrap_inv_def Let_def tracker_in_flight_def split: option.splits)

lemma tracker_tracks_guest_witness:
  "let sigs = [(Sig_End, Timestamp 1), (Sig_Start, Timestamp 2), (Sig_Start, Timestamp 3)];
       g = wrap_run pc_send sigs (guest_new (VmId 1) (GuestdVersion ''0.1.0'') pc_new)
   in map_option turn_no (tracker_in_flight (tracker_run sigs)) = Some 1
      \<and> map_option (Suc \<circ> turn_no) (g_in_flight g) = Some 1"
proof -
  let ?sigs = "[(Sig_End, Timestamp 1), (Sig_Start, Timestamp 2), (Sig_Start, Timestamp 3)]"
  have "map_option turn_no (tracker_in_flight (tracker_run ?sigs)) = Some 1"
    by (simp add: tracker_run_def tracker_new_def tracker_apply_def tracker_in_flight_def Let_def)
  with tracker_tracks_guest [OF _ refl, of ?sigs "VmId 1" "GuestdVersion ''0.1.0''"] show ?thesis
    by (simp add: Let_def)
qed

end
