(* ===== verification/Guest_Daemon.thy ===== *)
theory Guest_Daemon
  imports Guest_Wrap
begin

text \<open>
  The guest daemon of \<open>crates/guestd/src/bin/guestd.rs\<close>: the loops around the supervisor in its two
  modes. What the outside does, one entry per iteration, is a script: the connections that arrive, the
  clock at each message, the tracker as the reader task has left it. \<open>send\<close> and \<open>recv\<close> are those of the
  connection's channel; spawning a process is a parameter.
\<close>

definition DEFAULT_PORT :: u32 where "DEFAULT_PORT = GUEST_VSOCK_PORT"

text \<open>\<open>now\<close>: the time since the epoch in nanoseconds, cut to 64 bits; a clock before the epoch reads 0.\<close>

definition daemon_now :: "duration option \<Rightarrow> timestamp" where
  "daemon_now since = from_nanos (case since of Some d \<Rightarrow> of_nat d | None \<Rightarrow> 0)"

section \<open>Serving one connection\<close>

fun serve_wrap_messages :: "'c chan_send \<Rightarrow> 'c chan_recv \<Rightarrow> turn_tracker list \<Rightarrow> 'c \<Rightarrow> 'c" where
  "serve_wrap_messages send recv [] c = c"
| "serve_wrap_messages send recv (t # ts) c =
     (case recv c of
        (Inl _, c) \<Rightarrow> c
      | (Inr msg, c) \<Rightarrow>
          (case (case msg of
                   DrainRequest _ \<Rightarrow> send (DrainAck (tracker_in_flight t)) c
                 | H_Ping \<Rightarrow> send G_Pong c
                 | _ \<Rightarrow> (Inr (), c)) of
             (Inl _, c) \<Rightarrow> c
           | (Inr _, c) \<Rightarrow> serve_wrap_messages send recv ts c))"

fun serve_messages_only :: "'c chan_send \<Rightarrow> 'c chan_recv \<Rightarrow> timestamp list \<Rightarrow> 'c guest \<Rightarrow> 'c guest" where
  "serve_messages_only send recv [] g = g"
| "serve_messages_only send recv (now # nows) g =
     (case recv (g_chan g) of
        (Inl _, c) \<Rightarrow> g \<lparr> g_chan := c \<rparr>
      | (Inr msg, c) \<Rightarrow>
          (case guest_handle send msg now (g \<lparr> g_chan := c \<rparr>) of
             (Inl _, g) \<Rightarrow> g
           | (Inr _, g) \<Rightarrow> serve_messages_only send recv nows g))"

text \<open>\<open>spawn_reader\<close>: what the successive \<open>next_line\<close> calls return; lines that are no marker are printed.\<close>

fun reader_loop ::
  "wrap_config \<Rightarrow> (string + string option) list \<Rightarrow> turn_tracker \<times> string list \<Rightarrow> turn_tracker \<times> string list" where
  "reader_loop cfg [] st = st"
| "reader_loop cfg (Inr (Some l) # rest) (t, out) =
     reader_loop cfg rest
       (case classify cfg l of Some sig \<Rightarrow> (tracker_apply sig t, out) | None \<Rightarrow> (t, out @ [l]))"
| "reader_loop cfg (Inr None # rest) (t, out) = (t, out @ [''guestd: wrapped child closed stdout''])"
| "reader_loop cfg (Inl e # rest) st = st"

section \<open>The child\<close>

definition WRAP_CMD_FILE :: string where "WRAP_CMD_FILE = ''/etc/sleepwalk/wrap-cmd''"
definition WRAP_AWAIT_SECRETS_FILE :: string where "WRAP_AWAIT_SECRETS_FILE = ''/etc/sleepwalk/wrap-await-secrets''"

definition wrap_await_secrets :: "(string \<Rightarrow> string option) \<Rightarrow> (string \<Rightarrow> bool) \<Rightarrow> bool" where
  "wrap_await_secrets var_os exists \<longleftrightarrow>
     var_os ''SLEEPWALK_WRAP_AWAIT_SECRETS'' \<noteq> None \<or> exists WRAP_AWAIT_SECRETS_FILE"

definition wrap_config_from_env ::
  "(string \<Rightarrow> string option) \<Rightarrow> (string \<Rightarrow> string option) \<Rightarrow> (string \<times> wrap_config) option" where
  "wrap_config_from_env var read_to_string =
     (case (case var ''SLEEPWALK_WRAP_CMD'' of Some s \<Rightarrow> Some s | None \<Rightarrow> read_to_string WRAP_CMD_FILE) of
        None \<Rightarrow> None
      | Some s \<Rightarrow>
          if trim s = [] then None
          else let cfg = wrap_default;
                   cfg = (case var ''SLEEPWALK_WRAP_START'' of Some s \<Rightarrow> cfg \<lparr> wc_start_marker := s \<rparr> | None \<Rightarrow> cfg);
                   cfg = (case var ''SLEEPWALK_WRAP_END'' of Some e \<Rightarrow> cfg \<lparr> wc_end_marker := e \<rparr> | None \<Rightarrow> cfg)
               in Some (trim s, cfg))"

text \<open>The spawner gets the program, its arguments and the variables added to its environment.\<close>

type_synonym spawner = "string \<Rightarrow> string list \<Rightarrow> (string, string) btree \<Rightarrow> string + unit"

definition spawn_child :: "spawner \<Rightarrow> string \<Rightarrow> (string, string) btree \<Rightarrow> string + unit" where
  "spawn_child spawn cmd env =
     (case split_whitespace cmd of
        [] \<Rightarrow> Inl ''empty wrap command''
      | program # args \<Rightarrow> spawn program args env)"

section \<open>Host-driven mode\<close>

text \<open>One iteration: what waiting for a connection gives, with the fresh id and the clock of a session.\<close>

datatype 's attempt = Serve_failed string | Accept_timed_out | Session 's

record 'c session =
  se_chan :: 'c
  se_vm :: vm_id
  se_now :: timestamp
  se_nows :: "timestamp list"
  se_trackers :: "turn_tracker list"

text \<open>The result lists the supervisor each session that got past its handshake leaves behind.\<close>

fun run_host_driven ::
  "'c chan_send \<Rightarrow> 'c chan_recv \<Rightarrow> guestd_version \<Rightarrow> 'c session attempt list \<Rightarrow> 'c guest list" where
  "run_host_driven send recv version [] = []"
| "run_host_driven send recv version (Serve_failed _ # rest) = run_host_driven send recv version rest"
| "run_host_driven send recv version (Accept_timed_out # rest) = run_host_driven send recv version rest"
| "run_host_driven send recv version (Session s # rest) =
     (case handshake send recv (guest_new (se_vm s) version (se_chan s)) of
        (Inl _, _) \<Rightarrow> run_host_driven send recv version rest
      | (Inr _, g) \<Rightarrow> serve_messages_only send recv (se_nows s) g # run_host_driven send recv version rest)"

section \<open>Wrap mode\<close>

text \<open>\<open>wr_spawns\<close> and \<open>wr_chans\<close> record the processes started and the connections served.\<close>

record 'c wrapped =
  wr_spawned :: bool
  wr_first_connection :: bool
  wr_exited :: bool
  wr_spawns :: "(string, string) btree list"
  wr_chans :: "'c list"

definition wrapped_boot :: "spawner \<Rightarrow> string \<Rightarrow> bool \<Rightarrow> 'c wrapped" where
  "wrapped_boot spawn cmd await_secrets =
     (let w = \<lparr> wr_spawned = False, wr_first_connection = True, wr_exited = False, wr_spawns = [], wr_chans = [] \<rparr> in
      if await_secrets then w
      else case spawn_child spawn cmd [] of
          Inr _ \<Rightarrow> w \<lparr> wr_spawned := True, wr_spawns := [[]] \<rparr>
        | Inl _ \<Rightarrow> w \<lparr> wr_exited := True \<rparr>)"

definition serve_wrapped :: "'c chan_send \<Rightarrow> 'c chan_recv \<Rightarrow> 'c session \<Rightarrow> 'c guest \<Rightarrow> 'c wrapped \<Rightarrow> 'c wrapped" where
  "serve_wrapped send recv s g w =
     w \<lparr> wr_chans := wr_chans w @ [serve_wrap_messages send recv (se_trackers s) (g_chan g)] \<rparr>"

definition wrapped_session ::
  "'c chan_send \<Rightarrow> 'c chan_recv \<Rightarrow> guestd_version \<Rightarrow> spawner \<Rightarrow> string \<Rightarrow> bool \<Rightarrow> 'c session \<Rightarrow> 'c wrapped \<Rightarrow> 'c wrapped" where
  "wrapped_session send recv version spawn cmd await_secrets s w =
     (case handshake send recv (guest_new (se_vm s) version (se_chan s)) of
        (Inl _, _) \<Rightarrow> w
      | (Inr _, g) \<Rightarrow>
          if wr_first_connection w then
            (let w = w \<lparr> wr_first_connection := False \<rparr> in
             if await_secrets \<and> \<not> wr_spawned w then
               (case spawn_child spawn cmd (g_secrets g) of
                  Inr _ \<Rightarrow> serve_wrapped send recv s g
                    (w \<lparr> wr_spawned := True, wr_spawns := wr_spawns w @ [g_secrets g] \<rparr>)
                | Inl _ \<Rightarrow> w \<lparr> wr_exited := True \<rparr>)
             else serve_wrapped send recv s g w)
          else (case resume send (se_now s) g of
              (Inl _, _) \<Rightarrow> w
            | (Inr _, g) \<Rightarrow> serve_wrapped send recv s g w))"

fun run_wrapped ::
  "'c chan_send \<Rightarrow> 'c chan_recv \<Rightarrow> guestd_version \<Rightarrow> spawner \<Rightarrow> string \<Rightarrow> bool \<Rightarrow> 'c session attempt list
    \<Rightarrow> 'c wrapped \<Rightarrow> 'c wrapped" where
  "run_wrapped send recv version spawn cmd await [] w = w"
| "run_wrapped send recv version spawn cmd await (a # rest) w =
     (if wr_exited w then w
      else run_wrapped send recv version spawn cmd await rest
        (case a of
           Session s \<Rightarrow> wrapped_session send recv version spawn cmd await s w
         | _ \<Rightarrow> w))"

text \<open>\<open>serve_tcp_drain\<close>: the same for each TCP connection; the supervisor only shakes hands.\<close>

fun serve_tcp_drain ::
  "'c chan_send \<Rightarrow> 'c chan_recv \<Rightarrow> guestd_version \<Rightarrow> 'c session attempt list \<Rightarrow> 'c list" where
  "serve_tcp_drain send recv version [] = []"
| "serve_tcp_drain send recv version (Session s # rest) =
     (case handshake send recv (guest_new (se_vm s) version (se_chan s)) of
        (Inl _, _) \<Rightarrow> serve_tcp_drain send recv version rest
      | (Inr _, g) \<Rightarrow> serve_wrap_messages send recv (se_trackers s) (g_chan g) # serve_tcp_drain send recv version rest)"
| "serve_tcp_drain send recv version (_ # rest) = serve_tcp_drain send recv version rest"

datatype 'c daemon_run = Wrapped "'c wrapped" | Host_driven "'c guest list"

definition daemon_run ::
  "'c chan_send \<Rightarrow> 'c chan_recv \<Rightarrow> guestd_version \<Rightarrow> spawner \<Rightarrow> (string \<Rightarrow> string option) \<Rightarrow> (string \<Rightarrow> string option)
    \<Rightarrow> (string \<Rightarrow> bool) \<Rightarrow> 'c session attempt list \<Rightarrow> 'c daemon_run" where
  "daemon_run send recv version spawn var read_to_string exists attempts =
     (case wrap_config_from_env var read_to_string of
        Some (cmd, cfg) \<Rightarrow>
          (let await = wrap_await_secrets var exists in
           Wrapped (run_wrapped send recv version spawn cmd await attempts (wrapped_boot spawn cmd await)))
      | None \<Rightarrow> Host_driven (run_host_driven send recv version attempts))"

text \<open>
  \<open>serve\<close> of \<open>vsock.rs\<close>, which each iteration of the loops waits for: bind the port on any context id,
  accept one connection, frame it. A runtime that does not start ends the process with 1.
\<close>

definition vsock_serve ::
  "u32 \<Rightarrow> (u32 \<Rightarrow> u32 \<Rightarrow> ('n, string, 'l) eff) \<Rightarrow> ('l \<Rightarrow> ('n, string, 's) eff) \<Rightarrow> ('s \<Rightarrow> 'c) \<Rightarrow> u32 \<Rightarrow> ('n, string, 'c) eff" where
  "vsock_serve cid_any bind_vsock accept_one frame port =
     bindE (bind_vsock cid_any port) (\<lambda>l. bindE (accept_one l) (\<lambda>s. okE (frame s)))"

definition guestd_main :: "string option \<Rightarrow> 'c daemon_run \<Rightarrow> (nat \<times> string) + 'c daemon_run" where
  "guestd_main runtime_error run =
     (case runtime_error of Some e \<Rightarrow> Inl (1, ''guestd: tokio runtime: '' @ e) | None \<Rightarrow> Inr run)"

section \<open>What host-driven mode says on the wire\<close>

fun native_gate :: "bool \<Rightarrow> host_to_guest \<Rightarrow> bool" where
  "native_gate gated (DrainRequest _) = True"
| "native_gate gated DrainCancel = False"
| "native_gate gated _ = gated"

fun native_reply :: "bool \<Rightarrow> host_to_guest \<Rightarrow> timestamp \<Rightarrow> guest_to_host list" where
  "native_reply gated (RunTurn t) now = (if gated then [] else [TurnStarted t now, TurnEnded t now])"
| "native_reply gated (DrainRequest _) now = [DrainAck None]"
| "native_reply gated H_Ping now = [G_Pong]"
| "native_reply gated _ now = []"

fun native_session :: "bool \<Rightarrow> (host_to_guest \<times> timestamp) list \<Rightarrow> guest_to_host list" where
  "native_session gated [] = []"
| "native_session gated ((m, now) # ms) = native_reply gated m now @ native_session (native_gate gated m) ms"

lemma handle_native:
  assumes "g_in_flight g = None"
  shows "guest_handle pc_send m now g = (Inr (), snd (guest_handle pc_send m now g))
    \<and> pc_sent (g_chan (snd (guest_handle pc_send m now g))) = pc_sent (g_chan g) @ native_reply (g_gated g) m now
    \<and> pc_inbox (g_chan (snd (guest_handle pc_send m now g))) = pc_inbox (g_chan g)
    \<and> g_in_flight (snd (guest_handle pc_send m now g)) = None
    \<and> g_gated (snd (guest_handle pc_send m now g)) = native_gate (g_gated g) m"
  using assms by (cases m)
    (auto simp: guest_handle_def run_turn_def g_send_def pc_send_def bindE_def seqE_def Let_def)

lemma serve_native:
  "g_in_flight g = None \<Longrightarrow> pc_sent (g_chan (serve_messages_only pc_send pc_recv nows g))
     = pc_sent (g_chan g) @ native_session (g_gated g) (zip (pc_inbox (g_chan g)) nows)"
proof (induction nows arbitrary: g)
  case (Cons now nows)
  show ?case
  proof (cases "pc_inbox (g_chan g)")
    case Nil
    then show ?thesis by (simp add: pc_recv_def)
  next
    case (Cons m ms)
    let ?g = "g \<lparr> g_chan := g_chan g \<lparr> pc_inbox := ms \<rparr> \<rparr>"
    let ?h = "snd (guest_handle pc_send m now ?g)"
    have f: "g_in_flight ?g = None" using Cons.prems by simp
    note h = handle_native [OF f, of m now]
    then have "serve_messages_only pc_send pc_recv (now # nows) g = serve_messages_only pc_send pc_recv nows ?h"
      using Cons by (auto simp: pc_recv_def split: prod.splits sum.splits)
    with Cons.IH [of ?h] h show ?thesis by (simp add: Cons)
  qed
qed simp

section \<open>Whole sessions\<close>

text \<open>A connection gets through the handshake exactly when the host's first message is its secrets.\<close>

definition secrets_first :: "pseudo_channel session \<Rightarrow> ((string, string) btree \<times> host_to_guest list) option" where
  "secrets_first s = (case pc_inbox (se_chan s) of Secrets env # ms \<Rightarrow> Some (env, ms) | _ \<Rightarrow> None)"

lemma guest_new_fields:
  "g_chan (guest_new v ver c) = c" "g_in_flight (guest_new v ver c) = None" "g_gated (guest_new v ver c) = False"
  by (simp_all add: guest_new_def)

lemma handshake_pc:
  "secrets_first s = Some (env, ms) \<Longrightarrow>
    handshake pc_send pc_recv (guest_new (se_vm s) version (se_chan s)) =
      (Inr (), (guest_new (se_vm s) version
         \<lparr> pc_inbox = ms, pc_sent = pc_sent (se_chan s) @ [Hello (se_vm s) version] \<rparr>) \<lparr> g_secrets := env \<rparr>)"
  by (cases "se_chan s") (auto simp: secrets_first_def handshake_def g_send_def g_recv_def pc_send_def pc_recv_def
      seqE_def bindE_def guest_new_def split: list.splits host_to_guest.splits)

lemma handshake_pc_fails:
  "secrets_first s = None \<Longrightarrow> \<exists>e g. handshake pc_send pc_recv (guest_new (se_vm s) version (se_chan s)) = (Inl e, g)"
  by (cases "se_chan s") (auto simp: secrets_first_def handshake_def g_send_def g_recv_def pc_send_def pc_recv_def
      seqE_def bindE_def guest_new_def split: list.splits host_to_guest.splits)

fun sessions :: "'s attempt list \<Rightarrow> 's list" where
  "sessions [] = []"
| "sessions (Session s # rest) = s # sessions rest"
| "sessions (_ # rest) = sessions rest"

definition native_transcript :: "guestd_version \<Rightarrow> pseudo_channel session \<Rightarrow> guest_to_host list option" where
  "native_transcript version s = map_option (\<lambda>(env, ms).
     pc_sent (se_chan s) @ Hello (se_vm s) version # native_session False (zip ms (se_nows s))) (secrets_first s)"

lemma run_host_driven_transcripts:
  "map (pc_sent \<circ> g_chan) (run_host_driven pc_send pc_recv version atts)
     = List.map_filter (native_transcript version) (sessions atts)"
proof (induction atts)
  case (Cons a atts)
  show ?case
  proof (cases a)
    case (Session s)
    show ?thesis
    proof (cases "secrets_first s")
      case None
      with handshake_pc_fails obtain e g where
        "handshake pc_send pc_recv (guest_new (se_vm s) version (se_chan s)) = (Inl e, g)" by blast
      with Cons None Session show ?thesis by (simp add: map_filter_simps native_transcript_def)
    next
      case (Some p)
      obtain env ms where "p = (env, ms)" by fastforce
      with Cons Some Session show ?thesis
        by (simp add: handshake_pc serve_native guest_new_fields map_filter_simps native_transcript_def)
    qed
  qed (use Cons in simp_all)
qed (simp add: map_filter_simps)

text \<open>The turns a session accepts: those that arrive while the gate is open.\<close>

fun accepted_turns :: "bool \<Rightarrow> host_to_guest list \<Rightarrow> turn_id list" where
  "accepted_turns gated [] = []"
| "accepted_turns gated (m # ms) =
     (case m of RunTurn t \<Rightarrow> if gated then [] else [t] | _ \<Rightarrow> []) @ accepted_turns (native_gate gated m) ms"

fun started_id :: "guest_to_host \<Rightarrow> turn_id option" where
  "started_id (TurnStarted t _) = Some t"
| "started_id _ = None"

lemma native_started:
  "List.map_filter started_id (native_session gated (zip ms nows)) = accepted_turns gated (take (length nows) ms)"
proof (induction ms arbitrary: gated nows)
  case (Cons m ms)
  show ?case
  proof (cases nows)
    case (Cons now nows')
    with Cons.IH [of _ nows'] show ?thesis by (cases m) (simp_all add: map_filter_simps)
  qed (simp add: map_filter_simps)
qed (simp add: map_filter_simps)

text \<open>
  C38. What the host-driven guest says, connection by connection. Each connection that delivers its
  secrets first gets its own transcript, a function of that connection's messages alone: every turn
  that arrives with the gate open starts and ends at once, a drain is always acknowledged with no turn
  in flight, and the turns started are exactly those. A turn deferred by the gate therefore never
  starts, neither after a cancel nor on a later connection, which begins with a new supervisor.
\<close>

theorem host_driven_transcripts:
  "map (pc_sent \<circ> g_chan) (run_host_driven pc_send pc_recv version atts)
     = List.map_filter (native_transcript version) (sessions atts)
   \<and> List.map_filter started_id (native_session False (zip ms nows)) = accepted_turns False (take (length nows) ms)"
  using run_host_driven_transcripts native_started by blast

section \<open>Wrap mode on the wire\<close>

fun wrap_reply :: "turn_tracker \<Rightarrow> host_to_guest \<Rightarrow> guest_to_host list" where
  "wrap_reply t (DrainRequest _) = [DrainAck (tracker_in_flight t)]"
| "wrap_reply t H_Ping = [G_Pong]"
| "wrap_reply t _ = []"

definition wrap_replies :: "turn_tracker list \<Rightarrow> host_to_guest list \<Rightarrow> guest_to_host list" where
  "wrap_replies ts ms = concat (map (\<lambda>(t, m). wrap_reply t m) (zip ts ms))"

lemma serve_wrap_replies:
  "pc_sent (serve_wrap_messages pc_send pc_recv ts c) = pc_sent c @ wrap_replies ts (pc_inbox c)"
proof (induction ts arbitrary: c)
  case (Cons t ts)
  show ?case
  proof (cases "pc_inbox c")
    case Nil
    then show ?thesis by (simp add: pc_recv_def wrap_replies_def)
  next
    case (Cons m ms)
    with Cons.IH show ?thesis
      by (cases m) (simp_all add: pc_recv_def pc_send_def wrap_replies_def)
  qed
qed (simp add: wrap_replies_def)

definition wrap_transcript :: "guestd_version \<Rightarrow> bool \<Rightarrow> pseudo_channel session \<Rightarrow> guest_to_host list option" where
  "wrap_transcript version first s = map_option (\<lambda>(env, ms).
     pc_sent (se_chan s) @ Hello (se_vm s) version # (if first then [] else [Resumed (se_now s)])
       @ wrap_replies (se_trackers s) ms) (secrets_first s)"

text \<open>The transcripts of the connections that get through, the first one without a \<open>Resumed\<close>.\<close>

fun wrap_transcripts :: "guestd_version \<Rightarrow> bool \<Rightarrow> pseudo_channel session list \<Rightarrow> guest_to_host list list" where
  "wrap_transcripts version first [] = []"
| "wrap_transcripts version first (s # ss) =
     (case wrap_transcript version first s of
        None \<Rightarrow> wrap_transcripts version first ss
      | Some ms \<Rightarrow> ms # wrap_transcripts version False ss)"

text \<open>The environments the child is started with on the way.\<close>

fun deferred_spawns :: "pseudo_channel session list \<Rightarrow> (string, string) btree list" where
  "deferred_spawns [] = []"
| "deferred_spawns (s # ss) = (case secrets_first s of None \<Rightarrow> deferred_spawns ss | Some (env, _) \<Rightarrow> [env])"

lemma wrapped_session_pc:
  assumes "\<And>env. spawn_child spawn cmd env = Inr ()" "\<not> wr_exited w"
    and "wr_first_connection w \<longrightarrow> wr_spawned w = (\<not> await)"
  shows "wrapped_session pc_send pc_recv version spawn cmd await s w =
    (case secrets_first s of None \<Rightarrow> w
     | Some (env, ms) \<Rightarrow> w \<lparr> wr_first_connection := False,
         wr_spawned := wr_spawned w \<or> wr_first_connection w,
         wr_spawns := wr_spawns w @ (if wr_first_connection w \<and> await then [env] else []),
         wr_chans := wr_chans w @ [serve_wrap_messages pc_send pc_recv (se_trackers s)
           \<lparr> pc_inbox = ms, pc_sent = pc_sent (se_chan s) @ Hello (se_vm s) version
               # (if wr_first_connection w then [] else [Resumed (se_now s)]) \<rparr>] \<rparr>)"
proof (cases "secrets_first s")
  case None
  with handshake_pc_fails obtain e g where
    "handshake pc_send pc_recv (guest_new (se_vm s) version (se_chan s)) = (Inl e, g)" by blast
  with None show ?thesis by (simp add: wrapped_session_def)
next
  case (Some p)
  obtain env ms where p: "p = (env, ms)" by fastforce
  show ?thesis
  proof (cases "wr_first_connection w")
    case True
    with assms Some p show ?thesis
      by (cases "await") (simp_all add: wrapped_session_def handshake_pc serve_wrapped_def Let_def guest_new_fields)
  next
    case False
    with assms(1,2) Some p show ?thesis
      by (simp add: wrapped_session_def handshake_pc serve_wrapped_def resume_def g_send_def pc_send_def
          seqE_def bindE_def guest_new_fields)
  qed
qed

lemma run_wrapped_pc:
  assumes "\<And>env. spawn_child spawn cmd env = Inr ()"
  shows "\<not> wr_exited w \<Longrightarrow> (wr_first_connection w \<longrightarrow> wr_spawned w = (\<not> await)) \<Longrightarrow>
    map pc_sent (wr_chans (run_wrapped pc_send pc_recv version spawn cmd await atts w))
      = map pc_sent (wr_chans w) @ wrap_transcripts version (wr_first_connection w) (sessions atts)
    \<and> wr_spawns (run_wrapped pc_send pc_recv version spawn cmd await atts w)
      = wr_spawns w @ (if wr_first_connection w \<and> await then deferred_spawns (sessions atts) else [])"
proof (induction atts arbitrary: w)
  case (Cons a atts)
  show ?case
  proof (cases a)
    case (Session s)
    let ?w = "wrapped_session pc_send pc_recv version spawn cmd await s w"
    note w = wrapped_session_pc [OF assms Cons.prems, of version s]
    have inv: "\<not> wr_exited ?w" "wr_first_connection ?w \<longrightarrow> wr_spawned ?w = (\<not> await)"
      unfolding w using Cons.prems by (auto split: option.split)
    show ?thesis
    proof (cases "secrets_first s")
      case None
      with Cons.IH [OF inv] w Session Cons.prems show ?thesis by (simp add: wrap_transcript_def)
    next
      case (Some p)
      obtain env ms where p: "p = (env, ms)" by fastforce
      with Cons.IH [OF inv] w Session Some Cons.prems show ?thesis
        by (simp add: wrap_transcript_def serve_wrap_replies)
    qed
  qed (use Cons in simp_all)
qed simp

text \<open>
  C34. Wrap mode on the wire, and the child it supervises. Provided the command can be started, every
  connection that delivers its secrets first sees a greeting, from the second one on the resume notice,
  and then one reply per drain, naming the turn the tracker shows at that moment, and per ping. The
  child is started exactly once: at boot without extra environment, or, when it awaits secrets, with
  those of the first connection that gets through, and never again after a migration.
\<close>

theorem wrapped_guest_spec:
  assumes "\<And>env. spawn_child spawn cmd env = Inr ()"
    and "w = run_wrapped pc_send pc_recv version spawn cmd await atts (wrapped_boot spawn cmd await)"
  shows "map pc_sent (wr_chans w) = wrap_transcripts version True (sessions atts)
    \<and> wr_spawns w = (if await then deferred_spawns (sessions atts) else [[]])"
  using run_wrapped_pc [OF assms(1), of "wrapped_boot spawn cmd await" await version atts] assms
  by (simp add: wrapped_boot_def Let_def)

lemma wrapped_guest_spec_witness:
  "map pc_sent (wr_chans (run_wrapped pc_send pc_recv (GuestdVersion ''1'') (\<lambda>_ _ _. Inr ()) ''x'' True
      [Accept_timed_out, Session \<lparr> se_chan = \<lparr> pc_inbox = [Secrets [(''k'', ''v'')], DrainRequest 5], pc_sent = [] \<rparr>,
         se_vm = VmId 1, se_now = Timestamp 0, se_nows = [], se_trackers = [\<lparr> tt_in_turn = True, tt_last_id = 3 \<rparr>] \<rparr>]
      (wrapped_boot (\<lambda>_ _ _. Inr ()) ''x'' True)))
    = [[Hello (VmId 1) (GuestdVersion ''1''), DrainAck (Some (TurnId 3))]]"
proof -
  have x: "trim_start ''x'' = ''x''" using trim_start_graph [of "CHR ''x''" "[]"] by (simp add: ascii_graph_def)
  have "\<exists>p args. split_whitespace ''x'' = p # args"
    using split_whitespace_Nil_iff [of "''x''"] x by (cases "split_whitespace ''x''") auto
  then have sp: "spawn_child (\<lambda>_ _ _. Inr ()) ''x'' env = Inr ()" for env by (auto simp: spawn_child_def)
  from wrapped_guest_spec [OF sp refl, of "GuestdVersion ''1''" True
      "[Accept_timed_out, Session \<lparr> se_chan = \<lparr> pc_inbox = [Secrets [(''k'', ''v'')], DrainRequest 5], pc_sent = [] \<rparr>,
         se_vm = VmId 1, se_now = Timestamp 0, se_nows = [], se_trackers = [\<lparr> tt_in_turn = True, tt_last_id = 3 \<rparr>] \<rparr>]"]
  show ?thesis by (simp add: wrap_transcript_def secrets_first_def wrap_replies_def tracker_in_flight_def)
qed

text \<open>
  The wrapped command is never empty. Whatever the environment and the file hold, a configuration
  found there names at least a program, so starting it cannot fail for want of one.
\<close>

theorem wrap_command_nonempty:
  assumes "wrap_config_from_env var read_to_string = Some (cmd, cfg)"
  shows "trim cmd = cmd \<and> (\<exists>program args. \<forall>spawn env. spawn_child spawn cmd env = spawn program args env)"
proof -
  from assms obtain s where s: "cmd = trim s" "trim s \<noteq> []"
    by (auto simp: wrap_config_from_env_def Let_def split: option.splits if_splits)
  then obtain program args where "split_whitespace cmd = program # args"
    using split_whitespace_trim [of s] by (cases "split_whitespace cmd") auto
  then show ?thesis using s trim_idem by (auto simp: spawn_child_def)
qed

lemma wrap_command_nonempty_witness:
  "\<exists>program args. \<forall>spawn env. spawn_child spawn ''x'' env = spawn program args env"
proof -
  have x: "trim ''x'' = ''x''"
    using trim_start_graph [of "CHR ''x''" "[]"] trim_end_graph [of "CHR ''x''" "[]"]
    by (simp add: trim_def ascii_graph_def)
  then have "wrap_config_from_env (\<lambda>v. if v = ''SLEEPWALK_WRAP_CMD'' then Some ''x'' else None) (\<lambda>_. None)
      = Some (''x'', wrap_default)" by (simp add: wrap_config_from_env_def)
  from wrap_command_nonempty [OF this] show ?thesis by blast
qed

end
