(* ===== verification/Fc_Api.thy ===== *)
theory Fc_Api
  imports Byte_Strings Btree_Map Proto_Ids
begin

text \<open>
  The Firecracker control port of \<open>crates/hostd/src/firecracker.rs\<close>, its HTTP client, and the recording
  fake of \<open>pseudo_firecracker.rs\<close>. A port is a record of effects over any state. The client is
  modelled up to the request it sends and how it reads the response; carrying one request over a unix
  socket (\<open>UnixStream\<close>, \<open>hyper\<close>) and turning a JSON value into text (\<open>serde_json\<close>) are parameters.
  Paths are byte strings, and \<open>path_str\<close> leaves a valid one as it is.
\<close>

type_synonym path = string

datatype firecracker_error = Rejected string string | Unreachable string string

fun show_fc_error :: "firecracker_error \<Rightarrow> string" where
  "show_fc_error (Rejected op d) = ''firecracker rejected '' @ op @ '': '' @ d"
| "show_fc_error (Unreachable op d) = ''firecracker unreachable for '' @ op @ '': '' @ d"

record boot_source =
  bs_kernel_image :: path
  bs_boot_args :: string

record drive_config =
  dr_drive_id :: string
  dr_path_on_host :: path
  dr_is_root_device :: bool
  dr_is_read_only :: bool

record machine_config =
  mc_vcpu_count :: u32
  mc_mem_size_mib :: u32

record vsock_config =
  vc_guest_cid :: u32
  vc_uds_path :: path

record network_config =
  nc_iface_id :: string
  nc_host_dev_name :: string
  nc_guest_mac :: string

record snapshot_target =
  st_mem_file :: path
  st_state_file :: path

datatype mem_backend = Backend_File path | Backend_Uffd path

record snapshot_source =
  ss_state_file :: path
  ss_backend :: mem_backend
  ss_resume :: bool

type_synonym ('k, 'a) fc_eff = "('k, firecracker_error, 'a) eff"

record 'k fc_api =
  fa_configure_machine :: "machine_config \<Rightarrow> ('k, unit) fc_eff"
  fa_configure_boot_source :: "boot_source \<Rightarrow> ('k, unit) fc_eff"
  fa_configure_drive :: "drive_config \<Rightarrow> ('k, unit) fc_eff"
  fa_configure_vsock :: "vsock_config \<Rightarrow> ('k, unit) fc_eff"
  fa_configure_network :: "network_config \<Rightarrow> ('k, unit) fc_eff"
  fa_boot :: "('k, unit) fc_eff"
  fa_pause :: "('k, unit) fc_eff"
  fa_resume :: "('k, unit) fc_eff"
  fa_shutdown :: "('k, unit) fc_eff"
  fa_create_snapshot :: "snapshot_target \<Rightarrow> ('k, unit) fc_eff"
  fa_load_snapshot :: "snapshot_source \<Rightarrow> ('k, unit) fc_eff"

section \<open>The client\<close>

text \<open>The part of \<open>serde_json::Value\<close> the client builds; an object is ordered by key, as in that crate.\<close>

datatype json = J_null | J_bool bool | J_num int | J_str string | J_arr "json list" | J_obj "(string \<times> json) list"

definition json_object :: "(string \<times> json) list \<Rightarrow> json" where
  "json_object kvs = J_obj (bt_of_list kvs)"

datatype http_method = GET | PUT | PATCH | POST

record http_request =
  rq_method :: http_method
  rq_path :: string
  rq_body :: string

text \<open>One exchange: an error reaching the socket, or the status and, when it is asked for, the body.\<close>

record http_response =
  rs_status :: u16
  rs_body :: "string + string"

type_synonym 'k transport = "http_request \<Rightarrow> ('k, string, http_response) eff"

record 'k firecracker =
  fx_exchange :: "'k transport"
  fx_to_vec :: "json \<Rightarrow> string + string"
  fx_from_slice :: "string \<Rightarrow> json option"
  fx_lossy :: "string \<Rightarrow> string"

definition json_field :: "json \<Rightarrow> string \<Rightarrow> json option" where
  "json_field v name = (case v of J_obj kvs \<Rightarrow> map_of kvs name | _ \<Rightarrow> None)"

definition as_str :: "json \<Rightarrow> string option" where
  "as_str v = (case v of J_str s \<Rightarrow> Some s | _ \<Rightarrow> None)"

definition fault_message :: "'k firecracker \<Rightarrow> string \<Rightarrow> u16 \<Rightarrow> string" where
  "fault_message fx body status =
     (case Option.bind (fx_from_slice fx body) (\<lambda>v. Option.bind (json_field v ''fault_message'') as_str) of
        Some msg \<Rightarrow> msg
      | None \<Rightarrow>
          if body = [] then ''HTTP '' @ show_nat (unat status)
          else ''HTTP '' @ show_nat (unat status) @ '': '' @ fx_lossy fx body)"

definition fc_send :: "'k firecracker \<Rightarrow> http_method \<Rightarrow> string \<Rightarrow> string \<Rightarrow> string \<Rightarrow> ('k, unit) fc_eff" where
  "fc_send fx method path body op k =
     (case fx_exchange fx \<lparr> rq_method = method, rq_path = path, rq_body = body \<rparr> k of
        (Inl e, k) \<Rightarrow> (Inl (Unreachable op e), k)
      | (Inr resp, k) \<Rightarrow>
          if rs_status resp = 204 then (Inr (), k)
          else case rs_body resp of
              Inl e \<Rightarrow> (Inl (Unreachable op (''read response body: '' @ e)), k)
            | Inr bytes \<Rightarrow> (Inl (Rejected op (fault_message fx bytes (rs_status resp))), k))"

definition json_body :: "'k firecracker \<Rightarrow> json \<Rightarrow> string \<Rightarrow> firecracker_error + string" where
  "json_body fx value op =
     (case fx_to_vec fx value of
        Inl e \<Rightarrow> Inl (Unreachable op (''serialize body: '' @ e))
      | Inr s \<Rightarrow> Inr s)"

definition send_json :: "'k firecracker \<Rightarrow> http_method \<Rightarrow> string \<Rightarrow> json \<Rightarrow> string \<Rightarrow> ('k, unit) fc_eff" where
  "send_json fx method path value op =
     (case json_body fx value op of Inl e \<Rightarrow> errE e | Inr body \<Rightarrow> fc_send fx method path body op)"

definition fc_configure_machine :: "'k firecracker \<Rightarrow> machine_config \<Rightarrow> ('k, unit) fc_eff" where
  "fc_configure_machine fx cfg = send_json fx PUT ''/machine-config''
     (json_object [(''vcpu_count'', J_num (uint (mc_vcpu_count cfg))), (''mem_size_mib'', J_num (uint (mc_mem_size_mib cfg)))])
     ''configure_machine''"

definition fc_configure_boot_source :: "'k firecracker \<Rightarrow> boot_source \<Rightarrow> ('k, unit) fc_eff" where
  "fc_configure_boot_source fx src = send_json fx PUT ''/boot-source''
     (json_object [(''kernel_image_path'', J_str (bs_kernel_image src)), (''boot_args'', J_str (bs_boot_args src))])
     ''configure_boot_source''"

definition fc_configure_drive :: "'k firecracker \<Rightarrow> drive_config \<Rightarrow> ('k, unit) fc_eff" where
  "fc_configure_drive fx d = send_json fx PUT (''/drives/'' @ dr_drive_id d)
     (json_object [(''drive_id'', J_str (dr_drive_id d)), (''path_on_host'', J_str (dr_path_on_host d)),
        (''is_root_device'', J_bool (dr_is_root_device d)), (''is_read_only'', J_bool (dr_is_read_only d))])
     ''configure_drive''"

definition fc_configure_vsock :: "'k firecracker \<Rightarrow> vsock_config \<Rightarrow> ('k, unit) fc_eff" where
  "fc_configure_vsock fx cfg = send_json fx PUT ''/vsock''
     (json_object [(''guest_cid'', J_num (uint (vc_guest_cid cfg))), (''uds_path'', J_str (vc_uds_path cfg))])
     ''configure_vsock''"

definition fc_configure_network :: "'k firecracker \<Rightarrow> network_config \<Rightarrow> ('k, unit) fc_eff" where
  "fc_configure_network fx cfg = send_json fx PUT (''/network-interfaces/'' @ nc_iface_id cfg)
     (json_object [(''iface_id'', J_str (nc_iface_id cfg)), (''host_dev_name'', J_str (nc_host_dev_name cfg)),
        (''guest_mac'', J_str (nc_guest_mac cfg))])
     ''configure_network''"

definition quoted :: "string \<Rightarrow> string" where
  "quoted s = CHR 0x22 # s @ [CHR 0x22]"

definition one_field :: "string \<Rightarrow> string \<Rightarrow> string" where
  "one_field name value = ''{'' @ quoted name @ '':'' @ quoted value @ ''}''"

definition fc_boot :: "'k firecracker \<Rightarrow> ('k, unit) fc_eff" where
  "fc_boot fx = fc_send fx PUT ''/actions'' (one_field ''action_type'' ''InstanceStart'') ''boot''"

definition fc_pause :: "'k firecracker \<Rightarrow> ('k, unit) fc_eff" where
  "fc_pause fx = fc_send fx PATCH ''/vm'' (one_field ''state'' ''Paused'') ''pause''"

definition fc_resume :: "'k firecracker \<Rightarrow> ('k, unit) fc_eff" where
  "fc_resume fx = fc_send fx PATCH ''/vm'' (one_field ''state'' ''Resumed'') ''resume''"

definition fc_shutdown :: "'k firecracker \<Rightarrow> ('k, unit) fc_eff" where
  "fc_shutdown fx = fc_send fx PUT ''/actions'' (one_field ''action_type'' ''SendCtrlAltDel'') ''shutdown''"

definition fc_create_snapshot :: "'k firecracker \<Rightarrow> snapshot_target \<Rightarrow> ('k, unit) fc_eff" where
  "fc_create_snapshot fx target = send_json fx PUT ''/snapshot/create''
     (json_object [(''mem_file_path'', J_str (st_mem_file target)), (''snapshot_path'', J_str (st_state_file target)),
        (''snapshot_type'', J_str ''Full'')])
     ''create_snapshot''"

definition fc_load_snapshot :: "'k firecracker \<Rightarrow> snapshot_source \<Rightarrow> ('k, unit) fc_eff" where
  "fc_load_snapshot fx src =
     (let (backend_type, backend_path) =
        (case ss_backend src of Backend_File m \<Rightarrow> (''File'', m) | Backend_Uffd s \<Rightarrow> (''Uffd'', s)) in
      send_json fx PUT ''/snapshot/load''
       (json_object [(''snapshot_path'', J_str (ss_state_file src)),
          (''mem_backend'', json_object [(''backend_type'', J_str backend_type), (''backend_path'', J_str backend_path)]),
          (''resume_vm'', J_bool (ss_resume src))])
       ''load_snapshot'')"

definition firecracker_api :: "'k firecracker \<Rightarrow> 'k fc_api" where
  "firecracker_api fx = \<lparr>
     fa_configure_machine = fc_configure_machine fx,
     fa_configure_boot_source = fc_configure_boot_source fx,
     fa_configure_drive = fc_configure_drive fx,
     fa_configure_vsock = fc_configure_vsock fx,
     fa_configure_network = fc_configure_network fx,
     fa_boot = fc_boot fx,
     fa_pause = fc_pause fx,
     fa_resume = fc_resume fx,
     fa_shutdown = fc_shutdown fx,
     fa_create_snapshot = fc_create_snapshot fx,
     fa_load_snapshot = fc_load_snapshot fx \<rparr>"

section \<open>The recording fake\<close>

datatype fail_kind = Fail_Rejected | Fail_Unreachable

record pseudo_firecracker =
  pf_calls :: "string list"
  pf_fail_next :: "(string \<times> fail_kind) option"

definition pf_new :: pseudo_firecracker where
  "pf_new = \<lparr> pf_calls = [], pf_fail_next = None \<rparr>"

definition pf_set_fail :: "string \<Rightarrow> fail_kind \<Rightarrow> pseudo_firecracker \<Rightarrow> pseudo_firecracker" where
  "pf_set_fail op kind p = p \<lparr> pf_fail_next := Some (op, kind) \<rparr>"

definition reject_next :: "string \<Rightarrow> pseudo_firecracker \<Rightarrow> pseudo_firecracker" where
  "reject_next op = pf_set_fail op Fail_Rejected"

definition unreachable_next :: "string \<Rightarrow> pseudo_firecracker \<Rightarrow> pseudo_firecracker" where
  "unreachable_next op = pf_set_fail op Fail_Unreachable"

definition pf_record :: "string \<Rightarrow> (pseudo_firecracker, unit) fc_eff" where
  "pf_record op st =
     (let st = st \<lparr> pf_calls := pf_calls st @ [op] \<rparr> in
      case pf_fail_next st of
        Some (failed_op, kind) \<Rightarrow>
          if failed_op = op then
            (let detail = ''injected by PseudoFirecracker'' in
             (Inl (case kind of Fail_Rejected \<Rightarrow> Rejected op detail | Fail_Unreachable \<Rightarrow> Unreachable op detail),
              st \<lparr> pf_fail_next := None \<rparr>))
          else (Inr (), st)
      | None \<Rightarrow> (Inr (), st))"

definition pseudo_fc_api :: "pseudo_firecracker fc_api" where
  "pseudo_fc_api = \<lparr>
     fa_configure_machine = (\<lambda>_. pf_record ''configure_machine''),
     fa_configure_boot_source = (\<lambda>_. pf_record ''configure_boot_source''),
     fa_configure_drive = (\<lambda>_. pf_record ''configure_drive''),
     fa_configure_vsock = (\<lambda>_. pf_record ''configure_vsock''),
     fa_configure_network = (\<lambda>_. pf_record ''configure_network''),
     fa_boot = pf_record ''boot'',
     fa_pause = pf_record ''pause'',
     fa_resume = pf_record ''resume'',
     fa_shutdown = pf_record ''shutdown'',
     fa_create_snapshot = (\<lambda>_. pf_record ''create_snapshot''),
     fa_load_snapshot = (\<lambda>_. pf_record ''load_snapshot'') \<rparr>"

section \<open>The contract of a control operation\<close>

text \<open>
  A control operation names itself in the error it reports. The locale is what the lifecycle needs of
  an implementation; both the client and the fake provide it.
\<close>

fun error_op :: "firecracker_error \<Rightarrow> string" where
  "error_op (Rejected op _) = op"
| "error_op (Unreachable op _) = op"

locale named_fc_ops =
  fixes api :: "'k fc_api"
  assumes boot_named: "fa_boot api k = (Inl e, k') \<Longrightarrow> error_op e = ''boot''"
    and pause_named: "fa_pause api k = (Inl e, k') \<Longrightarrow> error_op e = ''pause''"
    and resume_named: "fa_resume api k = (Inl e, k') \<Longrightarrow> error_op e = ''resume''"
    and shutdown_named: "fa_shutdown api k = (Inl e, k') \<Longrightarrow> error_op e = ''shutdown''"

lemma fc_send_named: "fc_send fx m p b op k = (Inl e, k') \<Longrightarrow> error_op e = op"
  by (auto simp: fc_send_def split: prod.splits sum.splits if_splits)

lemma pf_record_named: "pf_record op k = (Inl e, k') \<Longrightarrow> error_op e = op"
  by (auto simp: pf_record_def Let_def split: option.splits prod.splits if_splits fail_kind.splits)

interpretation fc: named_fc_ops "firecracker_api fx" for fx
  by unfold_locales (auto simp: firecracker_api_def fc_boot_def fc_pause_def fc_resume_def fc_shutdown_def fc_send_named)

interpretation pf: named_fc_ops pseudo_fc_api
  by unfold_locales (auto simp: pseudo_fc_api_def pf_record_named)

section \<open>Reading responses\<close>

lemma fc_send_Inr:
  "fc_send fx m p b op k = (Inr (), k') \<longleftrightarrow>
     (\<exists>resp. fx_exchange fx \<lparr> rq_method = m, rq_path = p, rq_body = b \<rparr> k = (Inr resp, k') \<and> rs_status resp = 204)"
  by (auto simp: fc_send_def split: prod.splits sum.splits if_splits)

lemma fc_send_Rejected:
  "fc_send fx m p b op k = (Inl (Rejected op' d), k') \<longleftrightarrow> op' = op \<and>
     (\<exists>resp body. fx_exchange fx \<lparr> rq_method = m, rq_path = p, rq_body = b \<rparr> k = (Inr resp, k')
        \<and> rs_status resp \<noteq> 204 \<and> rs_body resp = Inr body \<and> d = fault_message fx body (rs_status resp))"
  by (auto simp: fc_send_def split: prod.splits sum.splits if_splits)

end
