(* ===== verification/Vm_Lifecycle.thy ===== *)
theory Vm_Lifecycle
  imports Fc_Api Proto_Ids
begin

text \<open>
  \<open>crates/hostd/src/vm.rs\<close>: the per-VM lifecycle. A \<open>Vm\<close> guards every control operation by its run state;
  the operations are effects over the VM, whose port's state is \<open>vm_fc\<close>.
\<close>

datatype run_state = Created | Running | Paused | Stopped

datatype lifecycle_error = IllegalTransition run_state string | Lc_Firecracker firecracker_error

record 'k vm =
  vm_id_of :: vm_id
  vm_fc :: 'k
  vm_state :: run_state

definition vm_new :: "vm_id \<Rightarrow> 'k \<Rightarrow> 'k vm" where
  "vm_new i fc = \<lparr> vm_id_of = i, vm_fc = fc, vm_state = Created \<rparr>"

definition require :: "run_state \<Rightarrow> string \<Rightarrow> ('k vm, lifecycle_error, unit) eff" where
  "require want op v = (if vm_state v = want then (Inr (), v) else (Inl (IllegalTransition (vm_state v) op), v))"

text \<open>\<open>self.fc.op().await?\<close>\<close>

definition fc_call :: "('k, unit) fc_eff \<Rightarrow> ('k vm, lifecycle_error, unit) eff" where
  "fc_call m v = (case m (vm_fc v) of
      (Inl e, k) \<Rightarrow> (Inl (Lc_Firecracker e), v \<lparr> vm_fc := k \<rparr>)
    | (Inr _, k) \<Rightarrow> (Inr (), v \<lparr> vm_fc := k \<rparr>))"

definition set_state :: "run_state \<Rightarrow> ('k vm, lifecycle_error, unit) eff" where
  "set_state s v = (Inr (), v \<lparr> vm_state := s \<rparr>)"

definition vm_boot :: "'k fc_api \<Rightarrow> ('k vm, lifecycle_error, unit) eff" where
  "vm_boot api = seqE (require Created ''boot'') (seqE (fc_call (fa_boot api)) (set_state Running))"

definition vm_pause :: "'k fc_api \<Rightarrow> ('k vm, lifecycle_error, unit) eff" where
  "vm_pause api = seqE (require Running ''pause'') (seqE (fc_call (fa_pause api)) (set_state Paused))"

definition vm_resume :: "'k fc_api \<Rightarrow> ('k vm, lifecycle_error, unit) eff" where
  "vm_resume api = seqE (require Paused ''resume'') (seqE (fc_call (fa_resume api)) (set_state Running))"

definition vm_shutdown :: "'k fc_api \<Rightarrow> ('k vm, lifecycle_error, unit) eff" where
  "vm_shutdown api v =
     (if vm_state v \<noteq> Running \<and> vm_state v \<noteq> Paused then (Inl (IllegalTransition (vm_state v) ''shutdown''), v)
      else seqE (fc_call (fa_shutdown api)) (set_state Stopped) v)"

section \<open>The lifecycle as a transition relation\<close>

datatype lifecycle_op = Op_boot | Op_pause | Op_resume | Op_shutdown

inductive lifecycle_step :: "lifecycle_op \<Rightarrow> run_state \<Rightarrow> run_state \<Rightarrow> bool" where
  boots: "lifecycle_step Op_boot Created Running"
| pauses: "lifecycle_step Op_pause Running Paused"
| resumes: "lifecycle_step Op_resume Paused Running"
| stops_running: "lifecycle_step Op_shutdown Running Stopped"
| stops_paused: "lifecycle_step Op_shutdown Paused Stopped"

inductive_simps lifecycle_step_iff: "lifecycle_step op s t"

text \<open>A path through the relation that performs the given operations.\<close>

inductive lifecycle_path :: "run_state \<Rightarrow> lifecycle_op list \<Rightarrow> run_state \<Rightarrow> bool" where
  path_Nil: "lifecycle_path s [] s"
| path_snoc: "lifecycle_path s ops t \<Longrightarrow> lifecycle_step op t u \<Longrightarrow> lifecycle_path s (ops @ [op]) u"

definition do_op :: "'k fc_api \<Rightarrow> lifecycle_op \<Rightarrow> ('k vm, lifecycle_error, unit) eff" where
  "do_op api op = (case op of Op_boot \<Rightarrow> vm_boot api | Op_pause \<Rightarrow> vm_pause api
     | Op_resume \<Rightarrow> vm_resume api | Op_shutdown \<Rightarrow> vm_shutdown api)"

definition fa_op :: "'k fc_api \<Rightarrow> lifecycle_op \<Rightarrow> ('k, unit) fc_eff" where
  "fa_op api op = (case op of Op_boot \<Rightarrow> fa_boot api | Op_pause \<Rightarrow> fa_pause api
     | Op_resume \<Rightarrow> fa_resume api | Op_shutdown \<Rightarrow> fa_shutdown api)"

fun op_name :: "lifecycle_op \<Rightarrow> string" where
  "op_name Op_boot = ''boot''"
| "op_name Op_pause = ''pause''"
| "op_name Op_resume = ''resume''"
| "op_name Op_shutdown = ''shutdown''"

definition next_state :: "lifecycle_op \<Rightarrow> run_state \<Rightarrow> run_state option" where
  "next_state op s = (case (op, s) of (Op_boot, Created) \<Rightarrow> Some Running | (Op_pause, Running) \<Rightarrow> Some Paused
     | (Op_resume, Paused) \<Rightarrow> Some Running | (Op_shutdown, Running) \<Rightarrow> Some Stopped
     | (Op_shutdown, Paused) \<Rightarrow> Some Stopped | _ \<Rightarrow> None)"

lemma next_state_iff: "next_state op s = Some t \<longleftrightarrow> lifecycle_step op s t"
  by (cases op; cases s) (auto simp: next_state_def lifecycle_step_iff)

lemma do_op_cases:
  "do_op api op v =
    (case next_state op (vm_state v) of
       None \<Rightarrow> (Inl (IllegalTransition (vm_state v) (op_name op)), v)
     | Some t \<Rightarrow>
         (case fa_op api op (vm_fc v) of
            (Inl e, k) \<Rightarrow> (Inl (Lc_Firecracker e), v \<lparr> vm_fc := k \<rparr>)
          | (Inr _, k) \<Rightarrow> (Inr (), v \<lparr> vm_fc := k, vm_state := t \<rparr>)))"
  by (cases op; cases "vm_state v")
    (auto simp: do_op_def next_state_def fa_op_def vm_boot_def vm_pause_def vm_resume_def vm_shutdown_def
      seqE_def bindE_def require_def fc_call_def set_state_def split: prod.split sum.split)

text \<open>A run logs the operations that succeeded, in order.\<close>

fun run_ops :: "'k fc_api \<Rightarrow> lifecycle_op list \<Rightarrow> 'k vm \<Rightarrow> lifecycle_op list \<times> 'k vm" where
  "run_ops api [] v = ([], v)"
| "run_ops api (op # ops) v =
     (case do_op api op v of
        (Inl _, v') \<Rightarrow> run_ops api ops v'
      | (Inr _, v') \<Rightarrow> let (did, w) = run_ops api ops v' in (op # did, w))"

lemma lifecycle_path_Cons: "lifecycle_step op s t \<Longrightarrow> lifecycle_path t ops u \<Longrightarrow> lifecycle_path s (op # ops) u"
proof (induction ops arbitrary: u rule: rev_induct)
  case Nil
  then have "u = t" by (auto elim: lifecycle_path.cases)
  with Nil(1) path_snoc [OF path_Nil, of op s t] show ?case by simp
next
  case (snoc x ops)
  from snoc.prems(2) obtain w where "lifecycle_path t ops w" "lifecycle_step x w u"
    by (auto elim: lifecycle_path.cases)
  with snoc.IH [OF snoc.prems(1)] path_snoc [of s "op # ops" w x u] show ?case by simp
qed

lemma run_ops_path:
  "run_ops api ops v = (did, w) \<Longrightarrow> lifecycle_path (vm_state v) did (vm_state w)"
proof (induction ops arbitrary: v did)
  case (Cons op ops)
  show ?case
  proof (cases "do_op api op v")
    case (Pair r v')
    show ?thesis
    proof (cases r)
      case (Inl e)
      then have "vm_state v' = vm_state v"
        using Pair by (auto simp: do_op_cases split: option.splits prod.splits sum.splits)
      with Cons Pair Inl show ?thesis by fastforce
    next
      case (Inr u)
      then have "lifecycle_step op (vm_state v) (vm_state v')"
        using Pair by (auto simp: do_op_cases next_state_iff split: option.splits prod.splits sum.splits)
      with Cons Pair Inr show ?thesis by (auto split: prod.splits intro: lifecycle_path_Cons)
    qed
  qed
qed (auto intro: path_Nil)

text \<open>
  C24. The VM follows its lifecycle and nothing else. For every Firecracker port and every sequence of
  requests, the operations that took effect form a path of the transition relation from \<open>Created\<close> to
  the state the VM ends in; an illegal request is refused before Firecracker is called and an operation
  that Firecracker fails leaves the state as it was, so it can be retried.
\<close>

theorem vm_follows_lifecycle:
  "(case run_ops api ops (vm_new i fc) of (did, w) \<Rightarrow> lifecycle_path Created did (vm_state w))
   \<and> (case do_op api op v of
        (Inl (IllegalTransition s name), w) \<Rightarrow>
          (\<nexists>t. lifecycle_step op (vm_state v) t) \<and> s = vm_state v \<and> name = op_name op \<and> w = v
      | (Inl (Lc_Firecracker e), w) \<Rightarrow>
          fa_op api op (vm_fc v) = (Inl e, vm_fc w) \<and> w = v \<lparr> vm_fc := vm_fc w \<rparr>
      | (Inr _, w) \<Rightarrow> fa_op api op (vm_fc v) = (Inr (), vm_fc w) \<and> lifecycle_step op (vm_state v) (vm_state w))"
proof
  show "case run_ops api ops (vm_new i fc) of (did, w) \<Rightarrow> lifecycle_path Created did (vm_state w)"
    using run_ops_path [of api ops "vm_new i fc"] by (simp add: vm_new_def split: prod.split)
  show "case do_op api op v of
        (Inl (IllegalTransition s name), w) \<Rightarrow>
          (\<nexists>t. lifecycle_step op (vm_state v) t) \<and> s = vm_state v \<and> name = op_name op \<and> w = v
      | (Inl (Lc_Firecracker e), w) \<Rightarrow>
          fa_op api op (vm_fc v) = (Inl e, vm_fc w) \<and> w = v \<lparr> vm_fc := vm_fc w \<rparr>
      | (Inr _, w) \<Rightarrow> fa_op api op (vm_fc v) = (Inr (), vm_fc w) \<and> lifecycle_step op (vm_state v) (vm_state w)"
    by (simp add: do_op_cases flip: next_state_iff split: option.split prod.split sum.split)
qed

end
