(* ===== verification/Telemetry.thy ===== *)
theory Telemetry
  imports Prelude
begin

text \<open>
  The metrics of \<open>crates/hostd/src/telemetry.rs\<close>. The recorder behind the \<open>metrics\<close> facade is a record
  with one field per metric; counters are 64 bits wide and wrap, a labelled gauge is a map from its
  labels to its value.
\<close>

record metrics =
  mt_migrations :: u64
  mt_failures :: u64
  mt_freeze_window :: "duration list"
  mt_snapshot_bytes :: u64
  mt_vm_info :: "string \<times> string \<times> string \<Rightarrow> nat option"
  mt_host_info :: "string \<times> string \<Rightarrow> nat option"
  mt_test_turns :: "string \<times> string \<Rightarrow> u64"

definition metrics_new :: metrics where
  "metrics_new = \<lparr> mt_migrations = 0, mt_failures = 0, mt_freeze_window = [], mt_snapshot_bytes = 0,
     mt_vm_info = (\<lambda>_. None), mt_host_info = (\<lambda>_. None), mt_test_turns = (\<lambda>_. 0) \<rparr>"

definition host_class :: "string \<Rightarrow> string \<Rightarrow> metrics \<Rightarrow> metrics" where
  "host_class host cls m = m \<lparr> mt_host_info := (mt_host_info m) ((host, cls) := Some 1) \<rparr>"

definition test_turn :: "string \<Rightarrow> bool \<Rightarrow> metrics \<Rightarrow> metrics" where
  "test_turn vm ok m =
     (let outcome = (if ok then ''ok'' else ''dropped'') in
      m \<lparr> mt_test_turns := (mt_test_turns m) ((vm, outcome) := mt_test_turns m (vm, outcome) + 1) \<rparr>)"

definition vm_present :: "string \<Rightarrow> string \<Rightarrow> string \<Rightarrow> metrics \<Rightarrow> metrics" where
  "vm_present vm host ip m = m \<lparr> mt_vm_info := (mt_vm_info m) ((vm, host, ip) := Some 1) \<rparr>"

definition vm_absent :: "string \<Rightarrow> string \<Rightarrow> string \<Rightarrow> metrics \<Rightarrow> metrics" where
  "vm_absent vm host ip m = m \<lparr> mt_vm_info := (mt_vm_info m) ((vm, host, ip) := Some 0) \<rparr>"

definition migration_ok :: "duration \<Rightarrow> u64 \<Rightarrow> metrics \<Rightarrow> metrics" where
  "migration_ok freeze bytes m = m \<lparr> mt_migrations := mt_migrations m + 1,
     mt_freeze_window := mt_freeze_window m @ [freeze], mt_snapshot_bytes := mt_snapshot_bytes m + bytes \<rparr>"

definition migration_failed :: "metrics \<Rightarrow> metrics" where
  "migration_failed m = m \<lparr> mt_failures := mt_failures m + 1 \<rparr>"

lemma failures_updates [simp]:
  "mt_failures (vm_present v h i m) = mt_failures m"
  "mt_failures (vm_absent v h i m) = mt_failures m"
  "mt_failures (migration_ok d b m) = mt_failures m"
  "mt_failures (migration_failed m) = mt_failures m + 1"
  by (simp_all add: vm_present_def vm_absent_def migration_ok_def migration_failed_def)

section \<open>Names, descriptions and the recorder\<close>

definition MIGRATIONS_TOTAL :: string where "MIGRATIONS_TOTAL = ''sleepwalk_migrations_total''"
definition MIGRATION_FAILURES_TOTAL :: string where "MIGRATION_FAILURES_TOTAL = ''sleepwalk_migration_failures_total''"
definition FREEZE_WINDOW_SECONDS :: string where "FREEZE_WINDOW_SECONDS = ''sleepwalk_freeze_window_seconds''"
definition SNAPSHOT_BYTES_TOTAL :: string where "SNAPSHOT_BYTES_TOTAL = ''sleepwalk_snapshot_bytes_total''"
definition VM_INFO :: string where "VM_INFO = ''sleepwalk_vm_info''"
definition HOST_INFO :: string where "HOST_INFO = ''sleepwalk_host_info''"
definition TEST_TURNS_TOTAL :: string where "TEST_TURNS_TOTAL = ''sleepwalk_test_turns_total''"

datatype metric_kind = Counter | Gauge | Histogram
datatype metric_unit = Unit_seconds | Unit_bytes

text \<open>
  The global recorder: nothing, or the descriptions registered with it. Describing (and recording) with
  no recorder installed is a no-op.
\<close>

type_synonym recorder_state = "(string \<Rightarrow> (metric_kind \<times> metric_unit option \<times> string) option) option"

definition describe :: "recorder_state \<Rightarrow> recorder_state" where
  "describe = map_option (\<lambda>d. d
     (MIGRATIONS_TOTAL \<mapsto> (Counter, None, ''Migrations completed successfully''),
      MIGRATION_FAILURES_TOTAL \<mapsto> (Counter, None, ''Migration attempts that failed''),
      FREEZE_WINDOW_SECONDS \<mapsto> (Histogram, Some Unit_seconds, ''Source freeze window: pause to transfer-complete''),
      SNAPSHOT_BYTES_TOTAL \<mapsto> (Counter, Some Unit_bytes, ''Cumulative snapshot bytes moved''),
      VM_INFO \<mapsto> (Gauge, None, ''VM presence on this host (1 = here), labelled by vm_id/host/ip''),
      TEST_TURNS_TOTAL \<mapsto> (Counter, None, ''Load-generator turns by vm_id and outcome (ok/dropped)''),
      HOST_INFO \<mapsto> (Gauge, None, ''Host present (1), labelled by host and compatibility class'')))"

text \<open>
  \<open>recorder\<close> installs the recorder, once; \<open>install_exporter\<close> also serves it, which may fail first.
\<close>

datatype build_error = Failed_to_set_global_recorder | Failed_to_create_listener string

definition recorder :: "recorder_state \<Rightarrow> (build_error + unit) \<times> recorder_state" where
  "recorder g =
     (case g of
        Some _ \<Rightarrow> (Inl Failed_to_set_global_recorder, g)
      | None \<Rightarrow> (Inr (), describe (Some (\<lambda>_. None))))"

definition install_exporter :: "(string \<Rightarrow> string option) \<Rightarrow> string \<Rightarrow> recorder_state \<Rightarrow> (build_error + unit) \<times> recorder_state" where
  "install_exporter listen_error addr g =
     (case listen_error addr of Some e \<Rightarrow> (Inl (Failed_to_create_listener e), g) | None \<Rightarrow> recorder g)"

lemma metric_names_distinct:
  "distinct [MIGRATIONS_TOTAL, MIGRATION_FAILURES_TOTAL, FREEZE_WINDOW_SECONDS, SNAPSHOT_BYTES_TOTAL, VM_INFO, HOST_INFO,
     TEST_TURNS_TOTAL]"
  by (simp add: MIGRATIONS_TOTAL_def MIGRATION_FAILURES_TOTAL_def FREEZE_WINDOW_SECONDS_def SNAPSHOT_BYTES_TOTAL_def
      VM_INFO_def HOST_INFO_def TEST_TURNS_TOTAL_def)

lemma describe_idempotent: "describe (describe g) = describe g"
  using metric_names_distinct by (cases g) (auto simp: describe_def fun_eq_iff)

text \<open>The recorder is installed at most once, and every metric is described from then on.\<close>

lemma recorder_once: "recorder None = (Inr (), g) \<Longrightarrow> isl (fst (recorder g)) \<and> describe g = g"
  using describe_idempotent by (auto simp: recorder_def describe_def)

end
