(* ===== verification/Vm_Net.thy ===== *)
theory Vm_Net
  imports Byte_Strings
begin

text \<open>
  \<open>crates/hostd/src/net.rs\<close>: the network identity of a VM, the commands that plumb it and the gratuitous
  ARP that announces it after a move. Running an \<open>ip\<close> command, and the raw socket, are parameters.
\<close>

definition BRIDGE :: string where "BRIDGE = ''br-sw''"
definition GATEWAY :: string where "GATEWAY = ''10.200.0.1''"
definition NETMASK :: string where "NETMASK = ''255.255.255.0''"

datatype net_error = Net_Command string string | Net_OutOfRange u32 | Net_Announce string

fun show_net_error :: "net_error \<Rightarrow> string" where
  "show_net_error (Net_Command cmd d) = ''`'' @ cmd @ ''` failed: '' @ d"
| "show_net_error (Net_OutOfRange n) = ''vm network index '' @ show_nat (unat n) @ '' out of range (max 252)''"
| "show_net_error (Net_Announce d) = ''gratuitous ARP announce failed: '' @ d"

record net_id =
  net_tap :: string
  net_mac :: string
  net_ip :: string

text \<open>The outcome of \<open>ip args\<close>: an error starting it, or its success flag and standard error.\<close>

type_synonym 'w ip_command = "string list \<Rightarrow> ('w, string, bool \<times> string) eff"

definition run_ip :: "'w ip_command \<Rightarrow> string list \<Rightarrow> ('w, net_error, unit) eff" where
  "run_ip ip args w =
     (let cmd = ''ip '' @ join_with (CHR '' '') args in
      case ip args w of
        (Inl e, w) \<Rightarrow> (Inl (Net_Command cmd e), w)
      | (Inr (success, err), w) \<Rightarrow>
          if success then (Inr (), w) else (Inl (Net_Command cmd (trim err)), w))"

definition create_tap :: "'w ip_command \<Rightarrow> string \<Rightarrow> ('w, net_error, unit) eff" where
  "create_tap ip name =
     seqE (run_ip ip [''tuntap'', ''add'', name, ''mode'', ''tap''])
      (seqE (run_ip ip [''link'', ''set'', name, ''master'', BRIDGE])
        (seqE (run_ip ip [''link'', ''set'', name, ''up'']) (okE ())))"

definition destroy_tap :: "'w ip_command \<Rightarrow> string \<Rightarrow> 'w \<Rightarrow> 'w" where
  "destroy_tap ip tap w = snd (run_ip ip [''link'', ''del'', tap] w)"

definition net_create :: "'w ip_command \<Rightarrow> u32 \<Rightarrow> ('w, net_error, net_id) eff" where
  "net_create ip idx =
     (case checked_add idx 2 of
        None \<Rightarrow> errE (Net_OutOfRange idx)
      | Some host \<Rightarrow>
          if host \<le> 254 then
            (let net = \<lparr> net_tap = ''sw-tap'' @ show_nat (unat idx),
                         net_mac = ''02:00:00:00:00:'' @ show_hex2 (unat host),
                         net_ip = ''10.200.0.'' @ show_nat (unat host) \<rparr>
             in seqE (create_tap ip (net_tap net)) (okE net))
          else errE (Net_OutOfRange idx))"

definition boot_arg :: "net_id \<Rightarrow> string" where
  "boot_arg net = ''ip='' @ net_ip net @ ''::'' @ GATEWAY @ '':'' @ NETMASK @ ''::eth0:off''"

section \<open>Announcing\<close>

text \<open>The bytes parsed from a list of pieces, all of them or the error.\<close>

fun parse_bytes :: "(string \<Rightarrow> nat option) \<Rightarrow> net_error \<Rightarrow> string list \<Rightarrow> net_error + byte list" where
  "parse_bytes parse err [] = Inr []"
| "parse_bytes parse err (p # ps) =
     (case parse p of
        None \<Rightarrow> Inl err
      | Some n \<Rightarrow> (case parse_bytes parse err ps of Inl e \<Rightarrow> Inl e | Inr bs \<Rightarrow> Inr (of_nat n # bs)))"

definition parse_mac :: "string \<Rightarrow> net_error + byte list" where
  "parse_mac s =
     (let parts = split_on (CHR '':'') s; err = Net_Announce (''bad mac '' @ s) in
      if length parts \<noteq> 6 then Inl err else parse_bytes (parse_hex 255) err parts)"

definition parse_ipv4 :: "string \<Rightarrow> net_error + byte list" where
  "parse_ipv4 s =
     (let parts = split_on (CHR ''.'') s; err = Net_Announce (''bad ip '' @ s) in
      if length parts \<noteq> 4 then Inl err else parse_bytes (parse_uint 255) err parts)"

text \<open>\<open>frame[p..q].copy_from_slice(bs)\<close>\<close>

definition splice :: "nat \<Rightarrow> byte list \<Rightarrow> byte list \<Rightarrow> byte list" where
  "splice p bs frame = take p frame @ bs @ drop (p + length bs) frame"

definition arp_frame :: "byte list \<Rightarrow> byte list \<Rightarrow> byte list" where
  "arp_frame mac ip =
     (let frame = replicate 42 0;
          frame = splice 0 (replicate 6 0xff) frame;
          frame = splice 6 mac frame;
          frame = splice 12 [0x08, 0x06] frame;
          frame = splice 14 [0x00, 0x01] frame;
          frame = splice 16 [0x08, 0x00] frame;
          frame = frame [18 := 6];
          frame = frame [19 := 4];
          frame = splice 20 [0x00, 0x01] frame;
          frame = splice 22 mac frame;
          frame = splice 28 ip frame
      in splice 38 ip frame)"

text \<open>
  The system calls: the index of an interface (0 when there is none), opening the packet socket,
  sending a frame on an interface to a link-layer address, and closing.
\<close>

record 'w raw_net =
  rn_if_nametoindex :: "string \<Rightarrow> u32"
  rn_socket :: "u16 \<Rightarrow> ('w, string, int) eff"
  rn_sendto :: "int \<Rightarrow> u32 \<Rightarrow> byte list \<Rightarrow> byte list \<Rightarrow> ('w, string, unit) eff"
  rn_close :: "int \<Rightarrow> 'w \<Rightarrow> 'w"

definition ETH_P_ARP_be :: u16 where "ETH_P_ARP_be = 0x0608"

definition announce :: "'w raw_net \<Rightarrow> net_id \<Rightarrow> ('w, net_error, unit) eff" where
  "announce rn net w =
     (case parse_mac (net_mac net) of
        Inl e \<Rightarrow> (Inl e, w)
      | Inr mac \<Rightarrow>
        (case parse_ipv4 (net_ip net) of
           Inl e \<Rightarrow> (Inl e, w)
         | Inr ip \<Rightarrow>
           (let frame = arp_frame mac ip; ifindex = rn_if_nametoindex rn BRIDGE in
            if ifindex = 0 then (Inl (Net_Announce (''no interface '' @ BRIDGE)), w)
            else case rn_socket rn ETH_P_ARP_be w of
                (Inl e, w) \<Rightarrow> (Inl (Net_Announce e), w)
              | (Inr fd, w) \<Rightarrow>
                  (case rn_sendto rn fd ifindex (replicate 6 0xff) frame w of
                     (Inl e, w) \<Rightarrow> (Inl (Net_Announce e), rn_close rn fd w)
                   | (Inr _, w) \<Rightarrow> (Inr (), rn_close rn fd w)))))"

section \<open>What an identity is\<close>

lemma arp_frame_bytes:
  assumes "length mac = 6" "length ip = 4"
  shows "arp_frame mac ip = replicate 6 0xff @ mac @ [0x08, 0x06, 0x00, 0x01, 0x08, 0x00, 6, 4, 0x00, 0x01]
    @ mac @ ip @ replicate 6 0 @ ip"
proof -
  obtain m0 m1 m2 m3 m4 m5 where m: "mac = [m0, m1, m2, m3, m4, m5]"
    using assms(1) by (auto simp: length_Suc_conv eval_nat_numeral)
  obtain i0 i1 i2 i3 where i: "ip = [i0, i1, i2, i3]"
    using assms(2) by (auto simp: length_Suc_conv eval_nat_numeral)
  show ?thesis unfolding m i arp_frame_def Let_def splice_def by (simp add: eval_nat_numeral)
qed

lemma parse_hex_pieces: "parse_hex 255 ''02'' = Some 2" "parse_hex 255 ''00'' = Some 0"
  by (simp_all add: parse_hex_def hex_value_def)

lemma parse_uint_pieces: "parse_uint 255 ''10'' = Some 10" "parse_uint 255 ''200'' = Some 200" "parse_uint 255 ''0'' = Some 0"
  by (simp_all add: parse_uint_def Let_def is_dec_digit_def dec_fold_def dec_value_def)

lemma parse_mac_create:
  assumes "h < 256"
  shows "parse_mac (''02:00:00:00:00:'' @ show_hex2 h) = Inr [2, 0, 0, 0, 0, of_nat h]"
proof -
  let ?ps = "[''02'', ''00'', ''00'', ''00'', ''00'', show_hex2 h]"
  have "''02:00:00:00:00:'' @ show_hex2 h = join_with (CHR '':'') ?ps" by simp
  moreover have "split_on (CHR '':'') (join_with (CHR '':'') ?ps) = ?ps"
    by (rule split_join) (use show_hex2_no_colon [OF assms] in auto)
  ultimately show ?thesis
    using parse_hex_show [OF assms] parse_hex_pieces by (simp add: parse_mac_def Let_def)
qed

lemma parse_ipv4_create:
  assumes "h < 256"
  shows "parse_ipv4 (''10.200.0.'' @ show_nat h) = Inr [10, 200, 0, of_nat h]"
proof -
  let ?ps = "[''10'', ''200'', ''0'', show_nat h]"
  have "''10.200.0.'' @ show_nat h = join_with (CHR ''.'') ?ps" by simp
  moreover have "split_on (CHR ''.'') (join_with (CHR ''.'') ?ps) = ?ps"
    by (rule split_join) (use show_nat_chars [of _ h] dec_digit_neq in auto)
  ultimately show ?thesis using assms parse_uint_show_nat [of 255 h] parse_uint_pieces
    by (simp add: parse_ipv4_def Let_def)
qed

lemma net_create_Inr:
  "net_create ip idx w = (Inr net, w') \<Longrightarrow> unat idx \<le> 252
    \<and> net = \<lparr> net_tap = ''sw-tap'' @ show_nat (unat idx),
              net_mac = ''02:00:00:00:00:'' @ show_hex2 (unat idx + 2),
              net_ip = ''10.200.0.'' @ show_nat (unat idx + 2) \<rparr>"
  by (auto simp: net_create_def Let_def seqE_Inr_iff checked_add_def word_le_nat_alt unat_add_no_overflow
      split: option.splits if_splits)

text \<open>
  C36. The identity a VM is given is its own and is announced as it is. When an index is accepted it is
  at most 252, the MAC and the address parse to bytes that carry the index plus two, two indices never
  share a tap, a MAC or an address, and the frame that announces the VM is exactly the gratuitous ARP
  of that MAC and address; any larger index is refused before a command is run.
\<close>

theorem net_identity:
  assumes "net_create ip idx w = (Inr net, w')"
  shows "unat idx \<le> 252
    \<and> parse_mac (net_mac net) = Inr [2, 0, 0, 0, 0, of_nat (unat idx + 2)]
    \<and> parse_ipv4 (net_ip net) = Inr [10, 200, 0, of_nat (unat idx + 2)]
    \<and> (\<forall>idx2 v net2 v'. net_create ip idx2 v = (Inr net2, v') \<longrightarrow>
         net_tap net2 = net_tap net \<or> net_mac net2 = net_mac net \<or> net_ip net2 = net_ip net \<longrightarrow> idx2 = idx)
    \<and> arp_frame [2, 0, 0, 0, 0, of_nat (unat idx + 2)] [10, 200, 0, of_nat (unat idx + 2)] =
        replicate 6 0xff @ [2, 0, 0, 0, 0, of_nat (unat idx + 2)] @ [0x08, 0x06, 0x00, 0x01, 0x08, 0x00, 6, 4, 0x00, 0x01]
        @ [2, 0, 0, 0, 0, of_nat (unat idx + 2)] @ [10, 200, 0, of_nat (unat idx + 2)]
        @ replicate 6 0 @ [10, 200, 0, of_nat (unat idx + 2)]
    \<and> (\<forall>big v. 252 < unat big \<longrightarrow> net_create ip big v = (Inl (Net_OutOfRange big), v))"
proof (intro conjI allI impI)
  note n = net_create_Inr [OF assms]
  have h: "unat idx + 2 < 256" using n by simp
  show "unat idx \<le> 252" using n by blast
  show "parse_mac (net_mac net) = Inr [2, 0, 0, 0, 0, of_nat (unat idx + 2)]"
    using n parse_mac_create [OF h] by simp
  show "parse_ipv4 (net_ip net) = Inr [10, 200, 0, of_nat (unat idx + 2)]"
    using n parse_ipv4_create [OF h] by simp
  show "arp_frame [2, 0, 0, 0, 0, of_nat (unat idx + 2)] [10, 200, 0, of_nat (unat idx + 2)] =
        replicate 6 0xff @ [2, 0, 0, 0, 0, of_nat (unat idx + 2)] @ [0x08, 0x06, 0x00, 0x01, 0x08, 0x00, 6, 4, 0x00, 0x01]
        @ [2, 0, 0, 0, 0, of_nat (unat idx + 2)] @ [10, 200, 0, of_nat (unat idx + 2)]
        @ replicate 6 0 @ [10, 200, 0, of_nat (unat idx + 2)]"
    by (rule arp_frame_bytes) simp_all
next
  fix idx2 v net2 v'
  assume c: "net_create ip idx2 v = (Inr net2, v')"
    and s: "net_tap net2 = net_tap net \<or> net_mac net2 = net_mac net \<or> net_ip net2 = net_ip net"
  note n = net_create_Inr [OF assms] net_create_Inr [OF c]
  then have "show_hex2 (unat idx2 + 2) = show_hex2 (unat idx + 2) \<Longrightarrow> unat idx2 = unat idx"
    using parse_hex_show [of "unat idx + 2"] parse_hex_show [of "unat idx2 + 2"] by simp
  with n s have "unat idx2 = unat idx" by (auto simp: show_nat_inject)
  then show "idx2 = idx" by (simp add: word_unat_eq_iff)
next
  fix big :: u32 and v
  assume "252 < unat big"
  then show "net_create ip big v = (Inl (Net_OutOfRange big), v)"
    by (auto simp: net_create_def checked_add_def word_le_nat_alt unat_add_no_overflow split: option.split)
qed

lemma net_identity_witness:
  "\<exists>net. net_create (\<lambda>_ w. (Inr (True, []), w)) 5 () = (Inr net, ())
    \<and> parse_ipv4 (net_ip net) = Inr [10, 200, 0, 7] \<and> net_tap net = ''sw-tap5''"
proof -
  have "\<exists>net. net_create (\<lambda>_ w. (Inr (True, []), w)) 5 () = (Inr net, ())"
    by (simp add: net_create_def checked_add_def create_tap_def run_ip_def Let_def seqE_def bindE_def word_le_nat_alt)
  then obtain net where net: "net_create (\<lambda>_ w. (Inr (True, []), w)) 5 () = (Inr net, ())" by blast
  moreover have "net_tap net = ''sw-tap5''"
    using net_create_Inr [OF net] by (simp add: show_nat.simps dec_digit_def char_of_def bit_0)
  moreover have "parse_ipv4 (net_ip net) = Inr [10, 200, 0, 7]" using net_identity [OF net] by simp
  ultimately show ?thesis by blast
qed

end
