(* ===== verification/Guest_Link.thy ===== *)
theory Guest_Link
  imports Guest_Facts
begin

text \<open>
  The host's control link to a guest, \<open>crates/hostd/src/guestlink.rs\<close>. The streams underneath (a unix
  socket of Firecracker's vsock device, or TCP) are effects on the host's state, one stream per handle;
  the JSON text is a parameter. How often a connection is tried, and how many messages arrive before a
  drain's deadline, is what the clock allows and is given as a number.

  \<open>link_handshake\<close> and \<open>link_drain\<close> are written over any pair of send and receive operations, so they
  can also be run against the model of the guest itself.
\<close>

datatype io_error = Io_Eof | Io_TimedOut | Io_Other string

datatype drain_state = Link_Quiescent | Link_Busy

type_synonym ('l, 'a) io_eff = "('l, io_error, 'a) eff"

record 'w stream_net =
  sn_unix :: "string \<Rightarrow> ('w, nat) io_eff"
  sn_tcp :: "string \<Rightarrow> ('w, nat) io_eff"
  sn_write :: "nat \<Rightarrow> string \<Rightarrow> ('w, unit) io_eff"
  sn_read_line :: "nat \<Rightarrow> ('w, string) io_eff"
  sn_to_vec :: "host_to_guest \<Rightarrow> string + string"
  sn_from_str :: "string \<Rightarrow> string + guest_to_host"

definition connect_tcp :: "'w stream_net \<Rightarrow> string \<Rightarrow> ('w, nat) io_eff" where
  "connect_tcp net addr = sn_tcp net addr"

definition connect_vsock :: "'w stream_net \<Rightarrow> string \<Rightarrow> u32 \<Rightarrow> ('w, nat) io_eff" where
  "connect_vsock net uds port =
     bindE (sn_unix net uds) (\<lambda>s.
      seqE (sn_write net s (''CONNECT '' @ show_nat (unat port) @ [newline]))
       (bindE (sn_read_line net s) (\<lambda>ok.
         if \<not> starts_with ''OK'' ok then
           errE (Io_Other (''vsock CONNECT to port '' @ show_nat (unat port) @ '' failed: '' @ trim ok))
         else okE s)))"

text \<open>Retrying until the deadline, which the given number of attempts fit before.\<close>

fun connect_retry :: "nat \<Rightarrow> io_error \<Rightarrow> ('w, 'a) io_eff \<Rightarrow> ('w, 'a) io_eff" where
  "connect_retry 0 e0 connect w = (Inl e0, w)"
| "connect_retry (Suc n) e0 connect w =
     (case connect w of
        (Inr link, w) \<Rightarrow> (Inr link, w)
      | (Inl e, w) \<Rightarrow> connect_retry n e connect w)"

definition connect_tcp_retry :: "'w stream_net \<Rightarrow> nat \<Rightarrow> string \<Rightarrow> ('w, nat) io_eff" where
  "connect_tcp_retry net attempts addr = connect_retry attempts (Io_Other ''no attempt'') (connect_tcp net addr)"

definition connect_vsock_retry :: "'w stream_net \<Rightarrow> nat \<Rightarrow> string \<Rightarrow> u32 \<Rightarrow> ('w, nat) io_eff" where
  "connect_vsock_retry net attempts uds port =
     connect_retry attempts (Io_Other ''no attempt'') (connect_vsock net uds port)"

definition link_send :: "'w stream_net \<Rightarrow> nat \<Rightarrow> host_to_guest \<Rightarrow> ('w, unit) io_eff" where
  "link_send net s msg =
     (case sn_to_vec net msg of
        Inl e \<Rightarrow> errE (Io_Other e)
      | Inr line \<Rightarrow> sn_write net s (line @ [newline]))"

definition link_recv :: "'w stream_net \<Rightarrow> nat \<Rightarrow> ('w, guest_to_host) io_eff" where
  "link_recv net s =
     bindE (sn_read_line net s) (\<lambda>line.
       if line = [] then errE Io_Eof
       else case sn_from_str net (trim_end line) of
           Inl e \<Rightarrow> errE (Io_Other e)
         | Inr msg \<Rightarrow> okE msg)"

section \<open>The protocol over a link\<close>

type_synonym 'l h_send = "host_to_guest \<Rightarrow> ('l, unit) io_eff"
type_synonym 'l h_recv = "('l, guest_to_host) io_eff"

definition link_handshake :: "'l h_send \<Rightarrow> 'l h_recv \<Rightarrow> (string, string) btree \<Rightarrow> ('l, unit) io_eff" where
  "link_handshake send recv env =
     bindE recv (\<lambda>msg. case msg of
         Hello _ _ \<Rightarrow> send (Secrets env)
       | other \<Rightarrow> errE (Io_Other ''expected Hello''))"

fun await_ack :: "'l h_recv \<Rightarrow> nat \<Rightarrow> ('l, turn_id option) io_eff" where
  "await_ack recv 0 l = (Inl Io_TimedOut, l)"
| "await_ack recv (Suc n) l =
     (case recv l of
        (Inl e, l) \<Rightarrow> (Inl e, l)
      | (Inr (DrainAck in_flight), l) \<Rightarrow> (Inr in_flight, l)
      | (Inr _, l) \<Rightarrow> await_ack recv n l)"

definition link_drain :: "'l h_send \<Rightarrow> 'l h_recv \<Rightarrow> nat \<Rightarrow> duration \<Rightarrow> ('l, drain_state) io_eff" where
  "link_drain send recv arrivals deadline =
     seqE (send (DrainRequest deadline))
      (bindE (await_ack recv arrivals) (\<lambda>ack.
        okE (if ack = None then Link_Quiescent else Link_Busy)))"

text \<open>\<open>DRAIN_DEADLINE\<close> and \<open>drain_to_quiescence\<close> of \<open>migrate.rs\<close>.\<close>

definition DRAIN_DEADLINE :: duration where "DRAIN_DEADLINE = secs 5"

definition drain_to_quiescence :: "'l h_send \<Rightarrow> 'l h_recv \<Rightarrow> nat \<Rightarrow> ('l, drain_state) io_eff" where
  "drain_to_quiescence send recv arrivals =
     seqE (link_handshake send recv [])
      (bindE (link_drain send recv arrivals DRAIN_DEADLINE) (\<lambda>state l.
        if state = Link_Busy then (case send DrainCancel l of (_, l) \<Rightarrow> (Inr state, l))
        else (Inr state, l)))"

section \<open>The link and the guest\<close>

text \<open>
  The other end is the supervisor of \<open>crates/guestd\<close>, which handles each message as it arrives; the host
  reads what it has said, in order. A supervisor that fails to handle a message ends the connection.
\<close>

record peer =
  pr_guest :: "pseudo_channel guest"
  pr_read :: nat
  pr_now :: timestamp
  pr_closed :: bool

definition peer_send :: "peer h_send" where
  "peer_send m p =
     (if pr_closed p then (Inl (Io_Other ''broken pipe''), p)
      else case guest_handle pc_send m (pr_now p) (pr_guest p) of
          (Inl _, g) \<Rightarrow> (Inr (), p \<lparr> pr_guest := g, pr_closed := True \<rparr>)
        | (Inr _, g) \<Rightarrow> (Inr (), p \<lparr> pr_guest := g \<rparr>))"

definition peer_recv :: "peer h_recv" where
  "peer_recv p =
     (let out = pc_sent (g_chan (pr_guest p)) in
      if pr_read p < length out then (Inr (out ! pr_read p), p \<lparr> pr_read := pr_read p + 1 \<rparr>)
      else (Inl Io_Eof, p))"

definition unread :: "peer \<Rightarrow> guest_to_host list" where
  "unread p = drop (pr_read p) (pc_sent (g_chan (pr_guest p)))"

text \<open>The same guest, everything it has said read.\<close>

definition caught_up :: "peer \<Rightarrow> peer" where
  "caught_up p = p \<lparr> pr_read := length (pc_sent (g_chan (pr_guest p))) \<rparr>"

lemma peer_recv_cases:
  "peer_recv p = (case unread p of [] \<Rightarrow> (Inl Io_Eof, p) | m # _ \<Rightarrow> (Inr m, p \<lparr> pr_read := pr_read p + 1 \<rparr>))"
  by (auto simp: peer_recv_def unread_def Let_def Cons_nth_drop_Suc [symmetric] split: list.split)

lemma await_ack_peer:
  assumes "unread p = ms @ [DrainAck i]" "\<forall>m \<in> set ms. \<forall>j. m \<noteq> DrainAck j" "length ms < n"
  shows "await_ack peer_recv n p = (Inr i, caught_up p)"
  using assms
proof (induction ms arbitrary: n p)
  case Nil
  then obtain k where n: "n = Suc k" by (cases n) auto
  have "pr_read p + 1 = length (pc_sent (g_chan (pr_guest p)))"
    using Nil.prems(1) by (auto simp: unread_def dest: arg_cong [where f = length])
  moreover have "peer_recv p = (Inr (DrainAck i), p \<lparr> pr_read := pr_read p + 1 \<rparr>)"
    using Nil.prems(1) peer_recv_cases [of p] by simp
  ultimately show ?case by (simp add: n caught_up_def)
next
  case (Cons m ms)
  let ?p = "p \<lparr> pr_read := pr_read p + 1 \<rparr>"
  obtain k where n: "n = Suc k" using Cons.prems(3) by (cases n) auto
  have "unread ?p = tl (unread p)" by (simp add: unread_def drop_Suc tl_drop)
  with Cons have "await_ack peer_recv k ?p = (Inr i, caught_up ?p)" by (simp add: n)
  moreover have "caught_up ?p = caught_up p" by (simp add: caught_up_def)
  moreover have "peer_recv p = (Inr m, ?p)" using Cons.prems(1) peer_recv_cases [of p] by simp
  ultimately show ?case using Cons.prems(2) by (cases m) (simp_all add: n)
qed

lemma handle_drain:
  "guest_handle pc_send (DrainRequest d) now g =
    (Inr (), g \<lparr> g_gated := True, g_chan := g_chan g \<lparr> pc_sent := pc_sent (g_chan g) @ [DrainAck (g_in_flight g)] \<rparr> \<rparr>)"
  by (simp add: guest_handle_def g_send_def pc_send_def Let_def)

text \<open>The guest after a drain request, and, when it was busy, after the cancellation.\<close>

definition drained_guest :: "pseudo_channel guest \<Rightarrow> pseudo_channel guest" where
  "drained_guest g = g \<lparr> g_secrets := [], g_gated := (g_in_flight g = None),
     g_chan := g_chan g \<lparr> pc_sent := pc_sent (g_chan g) @ [DrainAck (g_in_flight g)] \<rparr> \<rparr>"

lemma drain_to_quiescence_peer:
  assumes "\<not> pr_closed p" "unread p = Hello v ver # ms" "\<forall>m \<in> set ms. \<forall>j. m \<noteq> DrainAck j" "length ms < n"
  shows "drain_to_quiescence peer_send peer_recv n p =
    (Inr (if g_in_flight (pr_guest p) = None then Link_Quiescent else Link_Busy),
     caught_up (p \<lparr> pr_guest := drained_guest (pr_guest p) \<rparr>))"
proof -
  let ?g = "pr_guest p"
  let ?g1 = "?g \<lparr> g_secrets := [] \<rparr>"
  let ?g2 = "?g1 \<lparr> g_gated := True, g_chan := g_chan ?g \<lparr> pc_sent := pc_sent (g_chan ?g) @ [DrainAck (g_in_flight ?g)] \<rparr> \<rparr>"
  let ?p2 = "p \<lparr> pr_read := pr_read p + 1, pr_guest := ?g2 \<rparr>"
  have le: "pr_read p + 1 \<le> length (pc_sent (g_chan ?g))"
    using assms(2) by (auto simp: unread_def dest: arg_cong [where f = length])
  have "drop (pr_read p + 1) (pc_sent (g_chan ?g)) = ms"
    using assms(2) by (metis Suc_eq_plus1 drop_Suc list.sel(3) tl_drop unread_def)
  with le have u: "unread ?p2 = ms @ [DrainAck (g_in_flight ?g)]" by (simp add: unread_def)
  have "peer_recv p = (Inr (Hello v ver), p \<lparr> pr_read := pr_read p + 1 \<rparr>)"
    using assms(2) peer_recv_cases [of p] by simp
  then have "link_handshake peer_send peer_recv [] p = (Inr (), p \<lparr> pr_read := pr_read p + 1, pr_guest := ?g1 \<rparr>)"
    using assms(1) by (simp add: link_handshake_def bindE_def peer_send_def guest_handle_def)
  moreover have "link_drain peer_send peer_recv n DRAIN_DEADLINE (p \<lparr> pr_read := pr_read p + 1, pr_guest := ?g1 \<rparr>) =
      (Inr (if g_in_flight ?g = None then Link_Quiescent else Link_Busy), caught_up ?p2)"
    using assms(1) await_ack_peer [OF u assms(3,4)]
    by (simp add: link_drain_def seqE_def bindE_def peer_send_def handle_drain)
  moreover have "peer_send DrainCancel (caught_up ?p2) = (Inr (), caught_up (p \<lparr> pr_guest := ?g2 \<lparr> g_gated := False \<rparr> \<rparr>))"
    using assms(1) by (simp add: peer_send_def caught_up_def guest_handle_def)
  ultimately show ?thesis
    by (simp add: drain_to_quiescence_def seqE_def bindE_def drained_guest_def caught_up_def)
qed

text \<open>
  C15. The host's drain tells the truth about the guest. Over a link to the supervisor, whatever the
  guest had said before, with no earlier acknowledgement left unread and enough time for its messages
  to arrive, the drain reports quiescence exactly when no turn is in flight, and then the gate is
  closed; a guest that is mid-turn is reported busy and its gate is open again, so its turns go on.
\<close>

theorem drain_verdict_is_the_guests:
  assumes "\<not> pr_closed p" "unread p = Hello v ver # ms" "\<forall>m \<in> set ms. \<forall>j. m \<noteq> DrainAck j" "length ms < n"
    and "drain_to_quiescence peer_send peer_recv n p = (r, p')"
  shows "r = Inr (if g_in_flight (pr_guest p) = None then Link_Quiescent else Link_Busy)
    \<and> g_in_flight (pr_guest p') = g_in_flight (pr_guest p)
    \<and> g_gated (pr_guest p') = (g_in_flight (pr_guest p) = None)
    \<and> unread p' = []"
  using drain_to_quiescence_peer [OF assms(1-4)] assms(5)
  by (auto simp: caught_up_def unread_def drained_guest_def)

lemma drain_verdict_is_the_guests_witness:
  "let g = (guest_new (VmId 1) (GuestdVersion ''1'') pc_new) \<lparr> g_in_flight := Some (TurnId 3),
         g_chan := \<lparr> pc_inbox = [], pc_sent = [Hello (VmId 1) (GuestdVersion ''1''), TurnStarted (TurnId 3) (Timestamp 0)] \<rparr> \<rparr>;
       p = \<lparr> pr_guest = g, pr_read = 0, pr_now = Timestamp 5, pr_closed = False \<rparr>
   in fst (drain_to_quiescence peer_send peer_recv 2 p) = Inr Link_Busy"
proof -
  let ?g = "(guest_new (VmId 1) (GuestdVersion ''1'') pc_new) \<lparr> g_in_flight := Some (TurnId 3),
         g_chan := \<lparr> pc_inbox = [], pc_sent = [Hello (VmId 1) (GuestdVersion ''1''), TurnStarted (TurnId 3) (Timestamp 0)] \<rparr> \<rparr>"
  let ?p = "\<lparr> pr_guest = ?g, pr_read = 0, pr_now = Timestamp 5, pr_closed = False \<rparr>"
  obtain r p' where r: "drain_to_quiescence peer_send peer_recv 2 ?p = (r, p')" by fastforce
  from drain_verdict_is_the_guests [OF _ _ _ _ r, of "VmId 1" "GuestdVersion ''1''" "[TurnStarted (TurnId 3) (Timestamp 0)]"]
  have "r = Inr Link_Busy" by (simp add: unread_def)
  with r show ?thesis by (simp add: Let_def)
qed

end
