(* ===== verification/Host_State.thy ===== *)
theory Host_State
  imports Telemetry Fc_Api Vm_Net Guest_Link Snapshot_Transfer Uffd_Server Compat_Class
begin

text \<open>
  The state of one host daemon and the operating system under it. \<open>'w\<close> is everything outside the
  program, reached through the effects of the record \<open>host_os\<close>; the program's own state is in \<open>host\<close>: the
  sequence counters that are statics in the code, the metrics, and the registry of VMs. This theory
  also has the Firecracker process of \<open>process.rs\<close>, the paths of \<open>statedir.rs\<close> and the TCP halves of
  \<open>transfer.rs\<close>.
\<close>

record ('w, 'h) host_os =
  os_temp_dir :: path
  os_pid :: u32
  os_create_dir_all :: "path \<Rightarrow> ('w, string, unit) eff"
  os_remove_dir_all :: "path \<Rightarrow> 'w \<Rightarrow> 'w"
  os_remove_file :: "path \<Rightarrow> 'w \<Rightarrow> 'w"
  os_create_file :: "path \<Rightarrow> ('w, string, unit) eff"
  os_write :: "path \<Rightarrow> string \<Rightarrow> ('w, string, unit) eff"
  os_read :: "path \<Rightarrow> ('w, string, string) eff"
  os_exists :: "path \<Rightarrow> 'w \<Rightarrow> bool"
  os_file_len :: "path \<Rightarrow> 'w \<Rightarrow> u64 option"
  os_spawn :: "path \<Rightarrow> string list \<Rightarrow> path \<Rightarrow> ('w, string, nat) eff"
  os_try_wait :: "nat \<Rightarrow> ('w, string, string option) eff"
  os_kill :: "nat \<Rightarrow> 'w \<Rightarrow> 'w"
  os_wait :: "nat \<Rightarrow> ('w, string, unit) eff"
  os_socket_polls :: nat
  os_fc :: "path \<Rightarrow> 'w firecracker"
  os_ip :: "'w ip_command"
  os_raw :: "'w raw_net"
  os_streams :: "'w stream_net"
  os_attempts :: nat
  os_arrivals :: nat
  os_tcp_connect :: "string \<Rightarrow> ('w, string, nat) eff"
  os_tcp_write :: "nat \<Rightarrow> 'w sink"
  os_tcp_shutdown :: "nat \<Rightarrow> ('w, string, unit) eff"
  os_tcp_accept :: "nat \<Rightarrow> ('w, string, nat option) eff"
  os_source :: "'w \<Rightarrow> source_fs"
  os_reads :: read_oracle
  os_hasher :: "'h hasher"
  os_rx :: "nat \<Rightarrow> 'w \<Rightarrow> receiver"
  os_put_rx :: "nat \<Rightarrow> receiver \<Rightarrow> 'w \<Rightarrow> 'w"
  os_uffd_bind :: "path \<Rightarrow> ('w, string, nat) eff"
  os_uffd_thread :: "nat \<Rightarrow> path \<Rightarrow> 'w \<Rightarrow> nat \<times> 'w"
  os_uffd_stop_join :: "nat \<Rightarrow> 'w \<Rightarrow> 'w"
  os_now :: "'w \<Rightarrow> duration"
  os_fresh_uuid :: "'w \<Rightarrow> vm_id \<times> 'w"
  os_show_vm :: "vm_id \<Rightarrow> string"
  os_net_to_vec :: "net_id \<Rightarrow> string + string"
  os_net_from_slice :: "string \<Rightarrow> string + net_id"
  os_env :: "string \<Rightarrow> string option"

text \<open>A VM the daemon owns: the process and the page-server thread by their handles.\<close>

record running_vm =
  rv_id :: vm_id
  rv_proc :: nat
  rv_fc :: path
  rv_work :: path
  rv_vsock_uds :: path
  rv_mib :: u32
  rv_uffd :: "nat option"
  rv_net :: "net_id option"

record 'w host =
  h_os :: 'w
  h_migrate_seq :: u64
  h_spawn_seq :: u64
  h_net_seq :: u64
  h_metrics :: metrics
  h_vms :: "(vm_id, running_vm) btree"
  h_host :: host_id
  h_compat :: compat_class

text \<open>An effect of the operating system, and one without a result, on the daemon's state.\<close>

definition on_os :: "('w, 'e, 'a) eff \<Rightarrow> ('w host, 'e, 'a) eff" where
  "on_os m h = (case m (h_os h) of (r, w) \<Rightarrow> (r, h \<lparr> h_os := w \<rparr>))"

definition do_os :: "('w \<Rightarrow> 'w) \<Rightarrow> 'w host \<Rightarrow> 'w host" where
  "do_os f h = h \<lparr> h_os := f (h_os h) \<rparr>"

definition meter :: "(metrics \<Rightarrow> metrics) \<Rightarrow> 'w host \<Rightarrow> 'w host" where
  "meter f h = h \<lparr> h_metrics := f (h_metrics h) \<rparr>"

lemma on_os_frame:
  "on_os m h = (r, h') \<Longrightarrow> h' = h \<lparr> h_os := h_os h' \<rparr>"
  by (auto simp: on_os_def split: prod.splits)

section \<open>Paths\<close>

definition join_path :: "path \<Rightarrow> string \<Rightarrow> path" where
  "join_path base name = path_join base name"

record vm_dir =
  vd_root :: path

definition vm_dir_new :: "(vm_id \<Rightarrow> string) \<Rightarrow> path \<Rightarrow> vm_id \<Rightarrow> vm_dir" where
  "vm_dir_new show_vm base vm = \<lparr> vd_root = join_path (join_path base ''vms'') (show_vm vm) \<rparr>"

definition vd_api_socket :: "vm_dir \<Rightarrow> path" where
  "vd_api_socket d = join_path (vd_root d) ''api.sock''"

definition vd_log_fifo :: "vm_dir \<Rightarrow> path" where
  "vd_log_fifo d = join_path (vd_root d) ''fc.log''"

section \<open>The Firecracker process\<close>

definition fc_process_kill :: "('w, 'h) host_os \<Rightarrow> nat \<Rightarrow> ('w, string, unit) eff" where
  "fc_process_kill os p w = os_wait os p (os_kill os p w)"

text \<open>The wait loop, with the number of polls that fit before the deadline.\<close>

fun wait_for_socket :: "('w, 'h) host_os \<Rightarrow> nat \<Rightarrow> nat \<Rightarrow> path \<Rightarrow> ('w, string, unit) eff" where
  "wait_for_socket os polls p sock w =
     (if os_exists os sock w then (Inr (), w)
      else case os_try_wait os p w of
          (Inl e, w) \<Rightarrow> (Inl e, w)
        | (Inr (Some status), w) \<Rightarrow> (Inl (''firecracker exited before its API socket appeared: '' @ status), w)
        | (Inr None, w) \<Rightarrow>
            (case polls of
               0 \<Rightarrow> (Inl ''firecracker API socket did not appear in time'', w)
             | Suc n \<Rightarrow> wait_for_socket os n p sock w))"

declare wait_for_socket.simps [simp del]

text \<open>When the wait fails the process value is dropped, which kills and reaps the child.\<close>

definition fc_process_spawn :: "('w, 'h) host_os \<Rightarrow> path \<Rightarrow> path \<Rightarrow> path \<Rightarrow> ('w, string, nat) eff" where
  "fc_process_spawn os bin api_sock serial_log w =
     (let w = os_remove_file os api_sock w in
      case os_create_file os serial_log w of
        (Inl e, w) \<Rightarrow> (Inl e, w)
      | (Inr _, w) \<Rightarrow>
        (case os_spawn os bin [''--api-sock'', api_sock] serial_log w of
           (Inl e, w) \<Rightarrow> (Inl e, w)
         | (Inr p, w) \<Rightarrow>
           (case wait_for_socket os (os_socket_polls os) p api_sock w of
              (Inl e, w) \<Rightarrow> (Inl e, snd (fc_process_kill os p w))
            | (Inr _, w) \<Rightarrow> (Inr p, w))))"

section \<open>Moving a snapshot over TCP\<close>

definition send_snapshot ::
  "('w, 'h) host_os \<Rightarrow> string \<Rightarrow> outbound_file list \<Rightarrow> ('w, transfer_error, unit) eff" where
  "send_snapshot os addr files w =
     (case os_tcp_connect os addr w of
        (Inl e, w) \<Rightarrow> (Inl (Tr_Io e), w)
      | (Inr s, w) \<Rightarrow>
        (case send_files (os_hasher os) (os_reads os) (os_source os w) (os_tcp_write os s) files w of
           (Inl e, w) \<Rightarrow> (Inl e, w)
         | (Inr _, w) \<Rightarrow> map_errE Tr_Io (os_tcp_shutdown os s) w))"

definition ACCEPT_TIMEOUT :: duration where "ACCEPT_TIMEOUT = secs 30"

text \<open>\<open>os_tcp_accept\<close> answers \<open>None\<close> when \<open>ACCEPT_TIMEOUT\<close> passes without a connection.\<close>

definition recv_snapshot ::
  "('w, 'h) host_os \<Rightarrow> nat \<Rightarrow> path \<Rightarrow> ('w, transfer_error, path list) eff" where
  "recv_snapshot os listener dest w =
     (case os_tcp_accept os listener w of
        (Inl e, w) \<Rightarrow> (Inl (Tr_Io e), w)
      | (Inr None, w) \<Rightarrow> (Inl (Tr_Io ''no sender connected before timeout''), w)
      | (Inr (Some s), w) \<Rightarrow>
          (case recv_files (os_hasher os) dest (os_rx os s w) of
             (r, rx) \<Rightarrow> (r, os_put_rx os s rx w)))"

section \<open>A system for examples\<close>

text \<open>
  A system on which everything succeeds at once, given how processes start and stop: files exist, Firecracker answers 204, and a guest
  answers every line with a drain acknowledgement. It serves the witnesses only.
\<close>

definition calm_world ::
  "('w, string, nat) eff \<Rightarrow> (nat \<Rightarrow> 'w \<Rightarrow> 'w) \<Rightarrow> ('w, unit) host_os" where
  "calm_world start stop = \<lparr> os_temp_dir = ''/tmp'', os_pid = 1,
     os_create_dir_all = (\<lambda>_. okE ()), os_remove_dir_all = (\<lambda>_ w. w), os_remove_file = (\<lambda>_ w. w),
     os_create_file = (\<lambda>_. okE ()), os_write = (\<lambda>_ _. okE ()), os_read = (\<lambda>_. okE []),
     os_exists = (\<lambda>_ _. True), os_file_len = (\<lambda>_ _. None),
     os_spawn = (\<lambda>_ _ _. start), os_try_wait = (\<lambda>_. okE None), os_kill = stop, os_wait = (\<lambda>_. okE ()),
     os_socket_polls = 1,
     os_fc = (\<lambda>_. \<lparr> fx_exchange = (\<lambda>_. okE \<lparr> rs_status = 204, rs_body = Inr [] \<rparr>), fx_to_vec = (\<lambda>_. Inr []),
        fx_from_slice = (\<lambda>_. None), fx_lossy = id \<rparr>),
     os_ip = (\<lambda>_. okE (True, [])),
     os_raw = \<lparr> rn_if_nametoindex = (\<lambda>_. 1), rn_socket = (\<lambda>_. okE 3), rn_sendto = (\<lambda>_ _ _ _. okE ()), rn_close = (\<lambda>_ w. w) \<rparr>,
     os_streams = \<lparr> sn_unix = (\<lambda>_. okE 0), sn_tcp = (\<lambda>_. okE 0), sn_write = (\<lambda>_ _. okE ()), sn_read_line = (\<lambda>_. okE ''OK''),
        sn_to_vec = (\<lambda>_. Inr []), sn_from_str = (\<lambda>_. Inr (DrainAck None)) \<rparr>,
     os_attempts = 1, os_arrivals = 1,
     os_tcp_connect = (\<lambda>_. okE 0), os_tcp_write = (\<lambda>_ _. okE ()), os_tcp_shutdown = (\<lambda>_. okE ()),
     os_tcp_accept = (\<lambda>_. okE None), os_source = (\<lambda>_ _. Inr (Inr 0, [])), os_reads = (\<lambda>_ _. Inr 1),
     os_hasher = \<lparr> hs_new = (), hs_update = (\<lambda>_ s. s), hs_finalize = (\<lambda>_. 0) \<rparr>,
     os_rx = (\<lambda>_ _. \<lparr> rx_stream = \<lparr> bs_bytes = [], bs_end = ''eof'' \<rparr>,
        rx_fs = \<lparr> tf_files = (\<lambda>_. None), tf_create_err = (\<lambda>_. None), tf_write_err = (\<lambda>_ _. None) \<rparr> \<rparr>),
     os_put_rx = (\<lambda>_ _ w. w),
     os_uffd_bind = (\<lambda>_. okE 0), os_uffd_thread = (\<lambda>_ _ w. (0, w)), os_uffd_stop_join = (\<lambda>_ w. w),
     os_now = (\<lambda>_. 0), os_fresh_uuid = (\<lambda>w. (VmId 1, w)), os_show_vm = (\<lambda>v. show_nat (unat (as_uuid v))),
     os_net_to_vec = (\<lambda>_. Inr []), os_net_from_slice = (\<lambda>_. Inl ''bad''), os_env = (\<lambda>_. None) \<rparr>"

definition calm_os :: "(unit, unit) host_os" where
  "calm_os = calm_world (okE 7) (\<lambda>_ w. w)"

end
