(* ===== verification/Vm_Registry.thy ===== *)
theory Vm_Registry
  imports Host_State
begin

text \<open>
  The registry of the VMs on a host, \<open>crates/hostd/src/registry.rs\<close>, with the error type and the
  artifacts of \<open>migrate.rs\<close> it uses. \<open>dropping p m\<close> is \<open>m\<close> run while the local \<open>FcProcess\<close> \<open>p\<close> is owned: an
  early return drops the value, which kills and reaps the child.
\<close>

datatype migrate_error =
    Me_Firecracker firecracker_error
  | Me_Transfer transfer_error
  | Me_Uffd uffd_error
  | Me_Io string string
  | Me_BootTimeout
  | Me_NotQuiescent
  | Me_MissingArtifact string
  | Me_Snapshot string

text \<open>The em dash of the message is the one character beyond ASCII, written as its UTF-8 bytes.\<close>

fun show_migrate_error :: "migrate_error \<Rightarrow> string" where
  "show_migrate_error (Me_Firecracker e) = show_fc_error e"
| "show_migrate_error (Me_Transfer e) = show_transfer_error e"
| "show_migrate_error (Me_Uffd e) = show_uffd_error e"
| "show_migrate_error (Me_Io ctx e) = ctx @ '': '' @ e"
| "show_migrate_error Me_BootTimeout = ''source VM never reached userspace''"
| "show_migrate_error Me_NotQuiescent = ''guest not quiescent before drain deadline (a turn was in flight)''"
| "show_migrate_error (Me_MissingArtifact a) =
     ''artifact not found: '' @ a @ '' '' @ map char_of [0xE2, 0x80, 0x94 :: nat] @ '' run `just fetch`''"
| "show_migrate_error (Me_Snapshot e) = ''malformed snapshot: '' @ e"

record artifacts =
  art_fc_bin :: path
  art_kernel :: path
  art_rootfs :: path

definition show_io :: "io_error \<Rightarrow> string" where
  "show_io e = (case e of Io_Eof \<Rightarrow> ''guest closed'' | Io_TimedOut \<Rightarrow> ''no DrainAck before deadline'' | Io_Other s \<Rightarrow> s)"

definition io_ctx :: "string \<Rightarrow> ('w, string, 'a) eff \<Rightarrow> ('w host, migrate_error, 'a) eff" where
  "io_ctx ctx m = map_errE (Me_Io ctx) (on_os m)"

definition fc_do :: "('w, 'a) fc_eff \<Rightarrow> ('w host, migrate_error, 'a) eff" where
  "fc_do m = map_errE Me_Firecracker (on_os m)"

definition dropping ::
  "('w, 'h) host_os \<Rightarrow> nat \<Rightarrow> ('w host, 'e, 'a) eff \<Rightarrow> ('w host, 'e, 'a) eff" where
  "dropping os p m h =
     (case m h of
        (Inl e, h) \<Rightarrow> (Inl e, do_os (\<lambda>w. snd (fc_process_kill os p w)) h)
      | (Inr a, h) \<Rightarrow> (Inr a, h))"

definition GUEST_CID :: u32 where "GUEST_CID = 3"

definition BOOT_ARGS :: string where
  "BOOT_ARGS = ''console=ttyS0 reboot=k panic=1 pci=off root=/dev/vda rw init=/init''"

section \<open>Teardown and status\<close>

definition teardown :: "('w, 'h) host_os \<Rightarrow> running_vm \<Rightarrow> 'w \<Rightarrow> 'w" where
  "teardown os vm w =
     (let w = snd (fc_process_kill os (rv_proc vm) w);
          w = (case rv_uffd vm of Some t \<Rightarrow> os_uffd_stop_join os t w | None \<Rightarrow> w);
          w = (case rv_net vm of Some net \<Rightarrow> destroy_tap (os_ip os) (net_tap net) w | None \<Rightarrow> w);
          w = os_remove_dir_all os (rv_work vm) w
      in os_remove_file os (rv_vsock_uds vm) w)"

definition vm_ip :: "net_id option \<Rightarrow> string" where
  "vm_ip net = (case net of Some n \<Rightarrow> net_ip n | None \<Rightarrow> ''none'')"

record 'p host_status =
  hs_host :: string
  hs_vms :: "string list"
  hs_pressure :: 'p
  hs_compat :: compat_class

definition registry_new :: "'w \<Rightarrow> host_id \<Rightarrow> compat_class \<Rightarrow> 'w host" where
  "registry_new w host cls =
     meter (host_class (host_str host) (compat_label cls))
      \<lparr> h_os = w, h_migrate_seq = 0, h_spawn_seq = 0, h_net_seq = 0, h_metrics = metrics_new, h_vms = [],
        h_host = host, h_compat = cls \<rparr>"

definition registry_status :: "('w, 'h) host_os \<Rightarrow> 'p \<Rightarrow> 'w host \<Rightarrow> 'p host_status" where
  "registry_status os pressure h =
     \<lparr> hs_host = host_str (h_host h), hs_vms = map (os_show_vm os \<circ> fst) (h_vms h), hs_pressure = pressure,
       hs_compat = h_compat h \<rparr>"

section \<open>Registering\<close>

definition gauge_present :: "('w, 'h) host_os \<Rightarrow> vm_id \<Rightarrow> net_id option \<Rightarrow> 'w host \<Rightarrow> 'w host" where
  "gauge_present os i net h = meter (vm_present (os_show_vm os i) (host_str (h_host h)) (vm_ip net)) h"

definition gauge_absent :: "('w, 'h) host_os \<Rightarrow> vm_id \<Rightarrow> net_id option \<Rightarrow> 'w host \<Rightarrow> 'w host" where
  "gauge_absent os i net h = meter (vm_absent (os_show_vm os i) (host_str (h_host h)) (vm_ip net)) h"

definition registry_insert :: "('w, 'h) host_os \<Rightarrow> running_vm \<Rightarrow> 'w host \<Rightarrow> 'w host" where
  "registry_insert os vm h =
     (let h = gauge_present os (rv_id vm) (rv_net vm) h in h \<lparr> h_vms := bt_insert (rv_id vm) vm (h_vms h) \<rparr>)"

definition registry_take :: "('w, 'h) host_os \<Rightarrow> vm_id \<Rightarrow> 'w host \<Rightarrow> running_vm option \<times> 'w host" where
  "registry_take os i h =
     (let vm = bt_get (h_vms h) i; h = h \<lparr> h_vms := bt_remove i (h_vms h) \<rparr> in
      case vm of None \<Rightarrow> (None, h) | Some v \<Rightarrow> (Some v, gauge_absent os i (rv_net v) h))"

definition registry_remove :: "('w, 'h) host_os \<Rightarrow> vm_id \<Rightarrow> 'w host \<Rightarrow> bool \<times> 'w host" where
  "registry_remove os i h =
     (let vm = bt_get (h_vms h) i; h = h \<lparr> h_vms := bt_remove i (h_vms h) \<rparr> in
      case vm of
        None \<Rightarrow> (False, h)
      | Some v \<Rightarrow> (True, do_os (teardown os v) (gauge_absent os i (rv_net v) h)))"

section \<open>Booting a VM\<close>

definition boot_secrets :: "(string \<Rightarrow> string option) \<Rightarrow> (string, string) btree option" where
  "boot_secrets var =
     (case var ''AGENT_API_KEY'' of
        None \<Rightarrow> None
      | Some key \<Rightarrow>
          if key = [] then None
          else Some (foldl (\<lambda>env k. case var k of Some v \<Rightarrow> bt_insert k v env | None \<Rightarrow> env)
            (bt_insert ''AGENT_API_KEY'' key []) [''AGENT_MODEL'', ''AGENT_GAP_SECS'']))"

definition plumb_net :: "('w, 'h) host_os \<Rightarrow> bool \<Rightarrow> ('w host, migrate_error, net_id option) eff" where
  "plumb_net os networked h =
     (if networked then
        (let idx = ucast (h_net_seq h) :: u32; h = h \<lparr> h_net_seq := h_net_seq h + 1 \<rparr> in
         case on_os (net_create (os_ip os) idx) h of
           (Inl e, h) \<Rightarrow> (Inl (Me_Io ''plumb vm network'' (show_net_error e)), h)
         | (Inr net, h) \<Rightarrow> (Inr (Some net), h))
      else (Inr None, h))"

definition boot_guest ::
  "('w, 'h) host_os \<Rightarrow> artifacts \<Rightarrow> path \<Rightarrow> u32 \<Rightarrow> string \<Rightarrow> path \<Rightarrow> net_id option \<Rightarrow> ('w host, migrate_error, unit) eff" where
  "boot_guest os art sock mib boot_args vsock_uds net =
     (let fc = firecracker_api (os_fc os sock) in
      seqE (fc_do (fa_configure_machine fc \<lparr> mc_vcpu_count = 1, mc_mem_size_mib = mib \<rparr>))
       (seqE (fc_do (fa_configure_boot_source fc \<lparr> bs_kernel_image = art_kernel art, bs_boot_args = boot_args \<rparr>))
        (seqE (fc_do (fa_configure_drive fc
            \<lparr> dr_drive_id = ''rootfs'', dr_path_on_host = art_rootfs art, dr_is_root_device = True, dr_is_read_only = False \<rparr>))
         (seqE (fc_do (fa_configure_vsock fc \<lparr> vc_guest_cid = GUEST_CID, vc_uds_path = vsock_uds \<rparr>))
          (seqE (case net of None \<Rightarrow> okE ()
              | Some n \<Rightarrow> fc_do (fa_configure_network fc
                  \<lparr> nc_iface_id = ''eth0'', nc_host_dev_name = net_tap n, nc_guest_mac = net_mac n \<rparr>))
           (fc_do (fa_boot fc)))))))"

definition deliver_secrets :: "('w, 'h) host_os \<Rightarrow> path \<Rightarrow> ('w host, migrate_error, unit) eff" where
  "deliver_secrets os vsock_uds =
     (case boot_secrets (os_env os) of
        None \<Rightarrow> okE ()
      | Some env \<Rightarrow>
          bindE (map_errE (\<lambda>e. Me_Io ''connect guest for boot secrets'' (show_io e))
              (on_os (connect_vsock_retry (os_streams os) (os_attempts os) vsock_uds GUEST_VSOCK_PORT)))
           (\<lambda>s. map_errE (\<lambda>e. Me_Io ''deliver boot secrets'' (show_io e))
              (on_os (link_handshake (link_send (os_streams os) s) (link_recv (os_streams os) s) env))))"

definition vm_work_name :: "string \<Rightarrow> u32 \<Rightarrow> u64 \<Rightarrow> string" where
  "vm_work_name stem pid n = stem @ show_nat (unat pid) @ ''-'' @ show_nat (unat n)"

definition registry_spawn ::
  "('w, 'h) host_os \<Rightarrow> artifacts \<Rightarrow> u32 \<Rightarrow> bool \<Rightarrow> ('w host, migrate_error, vm_id) eff" where
  "registry_spawn os art mib networked h =
     (let (i, w) = os_fresh_uuid os (h_os h);
          n = h_spawn_seq h;
          h = h \<lparr> h_os := w, h_spawn_seq := n + 1 \<rparr>;
          work = join_path (os_temp_dir os) (vm_work_name ''sleepwalk-vm-'' (os_pid os) n);
          vsock_uds = join_path (os_temp_dir os) (vm_work_name ''sleepwalk-vm-vsock-'' (os_pid os) n @ ''.sock'');
          sock = join_path work ''fc.sock''
      in seqE (io_ctx ''create vm work dir'' (os_create_dir_all os work))
          (bindE (plumb_net os networked) (\<lambda>net.
            bindE (io_ctx ''spawn firecracker'' (fc_process_spawn os (art_fc_bin art) sock (join_path work ''fc.log''))) (\<lambda>p.
              seqE (dropping os p
                  (seqE (boot_guest os art sock mib
                      (BOOT_ARGS @ (case net of None \<Rightarrow> [] | Some n \<Rightarrow> '' '' @ boot_arg n)) vsock_uds net)
                    (deliver_secrets os vsock_uds)))
               (\<lambda>h. let vm = \<lparr> rv_id = i, rv_proc = p, rv_fc = sock, rv_work = work, rv_vsock_uds = vsock_uds,
                       rv_mib = mib, rv_uffd = None, rv_net = net \<rparr>
                 in (Inr i, gauge_present os i net (h \<lparr> h_vms := bt_insert i vm (h_vms h) \<rparr>)))))) h)"

section \<open>What changes the registry\<close>

text \<open>Everything but \<open>h_vms\<close> left aside: effects of the system keep the registry.\<close>

definition keeps_vms :: "('w host, 'e, 'a) eff \<Rightarrow> bool" where
  "keeps_vms m \<longleftrightarrow> (\<forall>h r h'. m h = (r, h') \<longrightarrow> h_vms h' = h_vms h \<and> h_host h' = h_host h \<and> h_metrics h' = h_metrics h)"

named_theorems keeps \<open>operations that leave the registry and the metrics alone\<close>

lemma keeps_on_os [keeps]: "keeps_vms (on_os m)"
  by (auto simp: keeps_vms_def on_os_def split: prod.splits)

lemma keeps_map_err [keeps]: "keeps_vms m \<Longrightarrow> keeps_vms (map_errE f m)"
  by (fastforce simp: keeps_vms_def map_errE_def split: prod.splits sum.splits)

lemma keeps_ok [keeps]: "keeps_vms (okE a)"
  by (simp add: keeps_vms_def)

lemma keeps_err [keeps]: "keeps_vms (errE a)"
  by (simp add: keeps_vms_def)

lemma keeps_if [keeps]: "keeps_vms m \<Longrightarrow> keeps_vms n \<Longrightarrow> keeps_vms (if b then m else n)"
  by simp

lemma keeps_bind [keeps]: "keeps_vms m \<Longrightarrow> (\<And>a. keeps_vms (f a)) \<Longrightarrow> keeps_vms (bindE m f)"
  unfolding keeps_vms_def bindE_def by (fastforce split: prod.splits sum.splits)

lemma keeps_seq [keeps]: "keeps_vms m \<Longrightarrow> keeps_vms n \<Longrightarrow> keeps_vms (seqE m n)"
  unfolding seqE_def by (rule keeps_bind)

lemma keeps_dropping [keeps]: "keeps_vms m \<Longrightarrow> keeps_vms (dropping os p m)"
  unfolding keeps_vms_def dropping_def by (fastforce simp: do_os_def split: prod.splits sum.splits)

lemma keeps_io_ctx [keeps]: "keeps_vms (io_ctx c m)"
  unfolding io_ctx_def by (intro keeps)

lemma keeps_fc_do [keeps]: "keeps_vms (fc_do m)"
  unfolding fc_do_def by (intro keeps)

lemma keeps_boot_guest [keeps]: "keeps_vms (boot_guest os art s mib args uds net)"
  unfolding boot_guest_def Let_def by (cases net) (simp_all add: keeps)

lemma keeps_deliver [keeps]: "keeps_vms (deliver_secrets os uds)"
  unfolding deliver_secrets_def by (cases "boot_secrets (os_env os)") (auto intro!: keeps)

lemma keeps_plumb [keeps]: "keeps_vms (plumb_net os b)"
  by (auto simp: keeps_vms_def plumb_net_def Let_def on_os_def split: prod.splits sum.splits if_splits)

lemma keepsD: "keeps_vms m \<Longrightarrow> m h = (r, h') \<Longrightarrow> h_vms h' = h_vms h \<and> h_host h' = h_host h \<and> h_metrics h' = h_metrics h"
  by (simp add: keeps_vms_def)

section \<open>The presence gauge\<close>

text \<open>The registries a daemon can reach; an id that is registered anew is not in use.\<close>

inductive reachable_host :: "('w, 'h) host_os \<Rightarrow> 'w host \<Rightarrow> bool" for os where
  reach_new: "reachable_host os (registry_new w host cls)"
| reach_spawn: "reachable_host os h \<Longrightarrow> bt_get (h_vms h) (fst (os_fresh_uuid os (h_os h))) = None \<Longrightarrow>
    registry_spawn os art mib networked h = (r, h') \<Longrightarrow> reachable_host os h'"
| reach_insert: "reachable_host os h \<Longrightarrow> bt_get (h_vms h) (rv_id vm) = None \<Longrightarrow>
    reachable_host os (registry_insert os vm h)"
| reach_take: "reachable_host os h \<Longrightarrow> registry_take os i h = (r, h') \<Longrightarrow> reachable_host os h'"
| reach_remove: "reachable_host os h \<Longrightarrow> registry_remove os i h = (b, h') \<Longrightarrow> reachable_host os h'"
| reach_other: "reachable_host os h \<Longrightarrow> h_vms h' = h_vms h \<Longrightarrow> h_host h' = h_host h \<Longrightarrow>
    mt_vm_info (h_metrics h') = mt_vm_info (h_metrics h) \<Longrightarrow> reachable_host os h'"

definition gauge_ok :: "('w, 'h) host_os \<Rightarrow> 'w host \<Rightarrow> bool" where
  "gauge_ok os h \<longleftrightarrow> bt_ok (h_vms h)
     \<and> (\<forall>i ip. mt_vm_info (h_metrics h) (os_show_vm os i, host_str (h_host h), ip) = Some 1
          \<longleftrightarrow> (\<exists>vm. bt_get (h_vms h) i = Some vm \<and> vm_ip (rv_net vm) = ip))"

lemma gauge_ok_insert:
  assumes "inj (os_show_vm os)" "gauge_ok os h" "bt_get (h_vms h) i = None" "rv_net vm = net"
    and "h_vms h' = bt_insert i vm (h_vms h)" "h_host h' = h_host h"
    and "mt_vm_info (h_metrics h') = (mt_vm_info (h_metrics h)) ((os_show_vm os i, host_str (h_host h), vm_ip net) := Some 1)"
  shows "gauge_ok os h'"
  using assms by (auto simp: gauge_ok_def bt_get_insert bt_ok_insert inj_eq)

lemma gauge_ok_delete:
  assumes "inj (os_show_vm os)" "gauge_ok os h" "bt_get (h_vms h) i = Some vm"
    and "h_vms h' = bt_remove i (h_vms h)" "h_host h' = h_host h"
    and "mt_vm_info (h_metrics h') = (mt_vm_info (h_metrics h)) ((os_show_vm os i, host_str (h_host h), vm_ip (rv_net vm)) := Some 0)"
  shows "gauge_ok os h'"
  using assms by (auto simp: gauge_ok_def bt_get_remove bt_ok_remove inj_eq)

lemma gauge_ok_remove_absent:
  assumes "gauge_ok os h" "bt_get (h_vms h) i = None"
  shows "gauge_ok os (h \<lparr> h_vms := bt_remove i (h_vms h) \<rparr>)"
proof -
  have "bt_get (bt_remove i (h_vms h)) = bt_get (h_vms h)"
    using assms(2) by (auto simp: bt_get_remove fun_eq_iff)
  with assms(1) show ?thesis by (simp add: gauge_ok_def bt_ok_remove)
qed

lemmas registry_defs = registry_insert_def registry_take_def registry_remove_def gauge_present_def gauge_absent_def
  meter_def vm_present_def vm_absent_def do_os_def Let_def

lemma registry_spawn_vms:
  assumes "registry_spawn os art mib networked h = (r, h')"
  shows "(\<exists>e. r = Inl e \<and> h_vms h' = h_vms h \<and> h_host h' = h_host h \<and> h_metrics h' = h_metrics h)
    \<or> (let i = fst (os_fresh_uuid os (h_os h)) in r = Inr i \<and> h_host h' = h_host h
       \<and> (\<exists>vm. rv_id vm = i \<and> h_vms h' = bt_insert i vm (h_vms h)
          \<and> h_metrics h' = vm_present (os_show_vm os i) (host_str (h_host h)) (vm_ip (rv_net vm)) (h_metrics h)))"
proof -
  obtain i w where iw: "os_fresh_uuid os (h_os h) = (i, w)" by fastforce
  note keepsDs = keepsD [OF keeps_io_ctx] keepsD [OF keeps_plumb]
    keepsD [OF keeps_dropping [OF keeps_seq [OF keeps_boot_guest keeps_deliver]]]
  show ?thesis
  proof (cases r)
    case (Inl e)
    with assms show ?thesis
      by (auto simp: registry_spawn_def iw Let_def eff_iffs dest!: keepsDs)
  next
    case (Inr j)
    with assms show ?thesis
      by (fastforce simp: registry_spawn_def iw Let_def eff_iffs gauge_present_def meter_def dest!: keepsDs)
  qed
qed

lemma reachable_gauge_ok:
  assumes "inj (os_show_vm os)"
  shows "reachable_host os h \<Longrightarrow> gauge_ok os h"
proof (induction rule: reachable_host.induct)
  case (reach_new w host cls)
  show ?case
    by (simp add: gauge_ok_def registry_new_def meter_def host_class_def metrics_new_def bt_get_def)
next
  case (reach_spawn h art mib networked r h')
  from registry_spawn_vms [OF reach_spawn.hyps(3)] show ?case
  proof (elim disjE exE conjE)
    fix e
    assume "h_vms h' = h_vms h" "h_host h' = h_host h" "h_metrics h' = h_metrics h"
    with reach_spawn.IH show ?thesis by (simp add: gauge_ok_def)
  next
    assume "let i = fst (os_fresh_uuid os (h_os h)) in r = Inr i \<and> h_host h' = h_host h
       \<and> (\<exists>vm. rv_id vm = i \<and> h_vms h' = bt_insert i vm (h_vms h)
          \<and> h_metrics h' = vm_present (os_show_vm os i) (host_str (h_host h)) (vm_ip (rv_net vm)) (h_metrics h))"
    then obtain vm where "h_host h' = h_host h" "h_vms h' = bt_insert (fst (os_fresh_uuid os (h_os h))) vm (h_vms h)"
      "h_metrics h' = vm_present (os_show_vm os (fst (os_fresh_uuid os (h_os h)))) (host_str (h_host h)) (vm_ip (rv_net vm)) (h_metrics h)"
      by (auto simp: Let_def)
    then show ?thesis
      using gauge_ok_insert [OF assms reach_spawn.IH reach_spawn.hyps(2) refl] by (simp add: vm_present_def)
  qed
next
  case (reach_insert h vm)
  show ?case
    by (rule gauge_ok_insert [OF assms reach_insert.IH reach_insert.hyps(2) refl]) (simp_all add: registry_defs)
next
  case (reach_take h i r h')
  show ?case
  proof (cases "bt_get (h_vms h) i")
    case None
    with reach_take gauge_ok_remove_absent [OF reach_take.IH None] show ?thesis
      by (simp add: registry_defs)
  next
    case (Some vm)
    with reach_take show ?thesis
      by (auto intro!: gauge_ok_delete [OF assms reach_take.IH Some] simp: registry_defs)
  qed
next
  case (reach_remove h i b h')
  show ?case
  proof (cases "bt_get (h_vms h) i")
    case None
    with reach_remove gauge_ok_remove_absent [OF reach_remove.IH None] show ?thesis
      by (simp add: registry_defs)
  next
    case (Some vm)
    with reach_remove show ?thesis
      by (auto intro!: gauge_ok_delete [OF assms reach_remove.IH Some] simp: registry_defs)
  qed
next
  case (reach_other h h')
  then show ?case by (simp add: gauge_ok_def)
qed

text \<open>
  C25. The presence gauge shows the registry. In every registry a daemon reaches by booting, registering,
  handing out and removing VMs, with system effects of any kind in between, the gauge of a VM at an
  address on this host is 1 exactly while a VM of that id and address is registered.
\<close>

theorem gauge_tracks_registry:
  assumes "inj (os_show_vm os)" "reachable_host os h"
  shows "mt_vm_info (h_metrics h) (os_show_vm os i, host_str (h_host h), ip) = Some 1
    \<longleftrightarrow> (\<exists>vm. bt_get (h_vms h) i = Some vm \<and> vm_ip (rv_net vm) = ip)"
  using reachable_gauge_ok [OF assms] by (simp add: gauge_ok_def)

lemma calm_show_inj: "inj (os_show_vm calm_os)"
proof (rule injI)
  fix x y :: vm_id
  assume "os_show_vm calm_os x = os_show_vm calm_os y"
  then have "as_uuid x = as_uuid y" by (simp add: calm_os_def calm_world_def show_nat_inject word_unat_eq_iff)
  then show "x = y" by (rule vm_id.expand)
qed

definition calm_host :: "unit host" where
  "calm_host = registry_new () (HostId ''a'')
     \<lparr> cc_vendor = ''v'', cc_model = ''m'', cc_tsc_khz = 1, cc_kernel = ''6'' \<rparr>"

definition calm_vm :: running_vm where
  "calm_vm = \<lparr> rv_id = VmId 1, rv_proc = 7, rv_fc = ''/w/fc.sock'', rv_work = ''/w'', rv_vsock_uds = ''/v'', rv_mib = 1,
     rv_uffd = None, rv_net = None \<rparr>"

lemma calm_reachable: "reachable_host calm_os (registry_insert calm_os calm_vm calm_host)"
proof (rule reach_insert)
  show "reachable_host calm_os calm_host" by (simp add: calm_host_def reach_new)
  show "bt_get (h_vms calm_host) (rv_id calm_vm) = None" by (simp add: calm_host_def registry_new_def meter_def bt_get_def)
qed

lemma calm_registered: "h_vms (registry_insert calm_os calm_vm calm_host) = [(VmId 1, calm_vm)]"
  by (simp add: registry_defs calm_host_def registry_new_def calm_vm_def)

lemma gauge_tracks_registry_witness:
  "mt_vm_info (h_metrics (registry_insert calm_os calm_vm calm_host))
     (os_show_vm calm_os (VmId 1), ''a'', ''none'') = Some 1"
proof -
  have "host_str (h_host (registry_insert calm_os calm_vm calm_host)) = ''a''"
    by (simp add: registry_defs calm_host_def registry_new_def)
  moreover have "bt_get (h_vms (registry_insert calm_os calm_vm calm_host)) (VmId 1) = Some calm_vm"
    by (simp add: calm_registered bt_get_def)
  moreover have "vm_ip (rv_net calm_vm) = ''none''" by (simp add: vm_ip_def calm_vm_def)
  ultimately show ?thesis
    using gauge_tracks_registry [OF calm_show_inj calm_reachable, of "VmId 1" "''none''"] by simp
qed

end
