(* ===== verification/Migrate_Run.thy ===== *)
theory Migrate_Run
  imports Vm_Registry
begin

text \<open>
  Migration orchestration, \<open>crates/hostd/src/migrate.rs\<close>: the source half and the target half of moving
  one VM, over the state of \<open>Host_State\<close>. Closing a link has no effect of its own here.
\<close>

definition GUEST_MIB :: u32 where "GUEST_MIB = 256"

record source_timing =
  tm_snapshot :: duration
  tm_transfer :: duration
  tm_bytes :: u64

definition work_dir :: "('w, 'h) host_os \<Rightarrow> string \<Rightarrow> 'w host \<Rightarrow> path \<times> 'w host" where
  "work_dir os role h =
     (join_path (os_temp_dir os) (''sleepwalk-'' @ role @ ''-'' @ show_nat (unat (os_pid os)) @ ''-'' @ show_nat (unat (h_migrate_seq h))),
      h \<lparr> h_migrate_seq := h_migrate_seq h + 1 \<rparr>)"

section \<open>Artifacts\<close>

text \<open>A directory tree as \<open>read_dir\<close> shows it; an unreadable directory is marked.\<close>

datatype fs_entry = E_file string | E_dir string bool "fs_entry list"

fun entry_name :: "fs_entry \<Rightarrow> string option" where
  "entry_name (E_file n) = Some n"
| "entry_name (E_dir n r es) = None"

definition file_pick :: "(string \<Rightarrow> bool) \<Rightarrow> fs_entry \<Rightarrow> bool" where
  "file_pick pick e = (case entry_name e of Some n \<Rightarrow> pick n | None \<Rightarrow> False)"

fun find_dir :: "(string \<Rightarrow> bool) \<Rightarrow> path \<Rightarrow> bool \<Rightarrow> fs_entry list \<Rightarrow> path option"
  and find_subdirs :: "(string \<Rightarrow> bool) \<Rightarrow> path \<Rightarrow> fs_entry list \<Rightarrow> path option" where
  "find_dir pick base readable es =
     (if \<not> readable then None
      else case find (file_pick pick) es of
          Some e \<Rightarrow> map_option (join_path base) (entry_name e)
        | None \<Rightarrow> find_subdirs pick base es)"
| "find_subdirs pick base [] = None"
| "find_subdirs pick base (E_file n # es) = find_subdirs pick base es"
| "find_subdirs pick base (E_dir n r sub # es) =
     (case find_dir pick (join_path base n) r sub of
        Some p \<Rightarrow> Some p
      | None \<Rightarrow> find_subdirs pick base es)"

definition ends_with :: "string \<Rightarrow> string \<Rightarrow> bool" where
  "ends_with suffix s \<longleftrightarrow> starts_with (rev suffix) (rev s)"

definition discover_artifacts ::
  "(string \<Rightarrow> string option) \<Rightarrow> string + path \<Rightarrow> (path \<Rightarrow> bool \<times> fs_entry list) \<Rightarrow> migrate_error + artifacts" where
  "discover_artifacts var default_dir read_dir =
     (case (case var ''SLEEPWALK_ARTIFACTS'' of Some d \<Rightarrow> Inr d | None \<Rightarrow> default_dir) of
        Inl e \<Rightarrow> Inl (Me_Io ''resolve artifacts dir'' e)
      | Inr dir \<Rightarrow>
        (let search = (\<lambda>pick. find_dir pick dir (fst (read_dir dir)) (snd (read_dir dir))) in
         case (case var ''SLEEPWALK_ROOTFS'' of Some p \<Rightarrow> Some p | None \<Rightarrow> search (starts_with ''guestd-rootfs'')) of
           None \<Rightarrow> Inl (Me_MissingArtifact ''guestd rootfs (run `just guest-rootfs`)'')
         | Some rootfs \<Rightarrow>
           (case search (\<lambda>n. starts_with ''firecracker-'' n \<and> \<not> ends_with ''.debug'' n \<and> \<not> ends_with ''.tgz'' n) of
              None \<Rightarrow> Inl (Me_MissingArtifact ''firecracker binary'')
            | Some fc_bin \<Rightarrow>
              (case search (starts_with ''vmlinux'') of
                 None \<Rightarrow> Inl (Me_MissingArtifact ''kernel'')
               | Some kern \<Rightarrow> Inr \<lparr> art_fc_bin = fc_bin, art_kernel = kern, art_rootfs = rootfs \<rparr>))))"

section \<open>The source\<close>

definition snapshot_and_send ::
  "('w, 'h) host_os \<Rightarrow> path \<Rightarrow> path \<Rightarrow> string \<Rightarrow> outbound_file list \<Rightarrow> ('w host, migrate_error, source_timing) eff" where
  "snapshot_and_send os sock work addr extra h =
     (let fc = firecracker_api (os_fc os sock);
          mem = join_path work ''mem.snap'';
          state = join_path work ''state.snap'';
          t0 = os_now os (h_os h)
      in seqE (fc_do (fa_pause fc))
          (seqE (fc_do (fa_create_snapshot fc \<lparr> st_mem_file = mem, st_state_file = state \<rparr>)) (\<lambda>h.
            let t1 = os_now os (h_os h);
                files = [\<lparr> of_name = ''mem.snap'', of_path = mem \<rparr>, \<lparr> of_name = ''state.snap'', of_path = state \<rparr>] @ extra
            in seqE (map_errE Me_Transfer (on_os (send_snapshot os addr files))) (\<lambda>h.
                 let t2 = os_now os (h_os h);
                     bytes = (case os_file_len os mem (h_os h) of Some n \<Rightarrow> n | None \<Rightarrow> 0)
                 in (Inr \<lparr> tm_snapshot = t1 - t0, tm_transfer = t2 - t1, tm_bytes = bytes \<rparr>, h)) h)) h)"

text \<open>\<open>abort\<close>, and the end of a successful run, remove what \<open>migrate_source\<close> made.\<close>

definition source_cleanup :: "('w, 'h) host_os \<Rightarrow> nat \<Rightarrow> path \<Rightarrow> path \<Rightarrow> 'w host \<Rightarrow> 'w host" where
  "source_cleanup os p work vsock_uds =
     do_os (\<lambda>w. os_remove_file os vsock_uds (os_remove_dir_all os work (snd (fc_process_kill os p w))))"

definition drain_source ::
  "('w, 'h) host_os \<Rightarrow> nat \<Rightarrow> path \<Rightarrow> path \<Rightarrow> ('w host, migrate_error, unit) eff" where
  "drain_source os p work vsock_uds h =
     (let net = os_streams os; abort = source_cleanup os p work vsock_uds in
      case on_os (connect_vsock_retry net (os_attempts os) vsock_uds GUEST_VSOCK_PORT) h of
        (Inl e, h) \<Rightarrow> (Inl (Me_Io ''connect guest vsock'' (show_io e)), abort h)
      | (Inr s, h) \<Rightarrow>
        (case on_os (link_handshake (link_send net s) (link_recv net s) []) h of
           (Inl e, h) \<Rightarrow> (Inl (Me_Io ''guest handshake'' (show_io e)), abort h)
         | (Inr _, h) \<Rightarrow>
           (case on_os (link_drain (link_send net s) (link_recv net s) (os_arrivals os) DRAIN_DEADLINE) h of
              (Inr Link_Quiescent, h) \<Rightarrow> (Inr (), h)
            | (Inr Link_Busy, h) \<Rightarrow> (Inl Me_NotQuiescent, abort h)
            | (Inl e, h) \<Rightarrow> (Inl (Me_Io ''drain guest'' (show_io e)), abort h))))"

definition boot_source_vm ::
  "('w, 'h) host_os \<Rightarrow> artifacts \<Rightarrow> path \<Rightarrow> ('w host, migrate_error, path) eff" where
  "boot_source_vm os art sock h =
     (let fc = firecracker_api (os_fc os sock);
          n = h_migrate_seq h;
          vsock_uds = join_path (os_temp_dir os) (vm_work_name ''sleepwalk-vsock-'' (os_pid os) n @ ''.sock'')
      in seqE (fc_do (fa_configure_machine fc \<lparr> mc_vcpu_count = 1, mc_mem_size_mib = GUEST_MIB \<rparr>))
          (seqE (fc_do (fa_configure_boot_source fc \<lparr> bs_kernel_image = art_kernel art, bs_boot_args = BOOT_ARGS \<rparr>))
           (seqE (fc_do (fa_configure_drive fc
               \<lparr> dr_drive_id = ''rootfs'', dr_path_on_host = art_rootfs art, dr_is_root_device = True, dr_is_read_only = False \<rparr>))
            (seqE (\<lambda>h. (Inr (), h \<lparr> h_migrate_seq := n + 1 \<rparr>))
             (seqE (fc_do (fa_configure_vsock fc \<lparr> vc_guest_cid = GUEST_CID, vc_uds_path = vsock_uds \<rparr>))
              (seqE (fc_do (fa_boot fc)) (okE vsock_uds)))))) h)"

text \<open>
  The process is dropped, so killed, by an early return while booting and while sending; the drain's
  failures kill it themselves, and dropping a child that is already reaped does nothing.
\<close>

definition migrate_source ::
  "('w, 'h) host_os \<Rightarrow> artifacts \<Rightarrow> string \<Rightarrow> ('w host, migrate_error, source_timing) eff" where
  "migrate_source os art addr h =
     (let (work, h) = work_dir os ''src'' h; sock = join_path work ''fc.sock'' in
      seqE (io_ctx ''create work dir'' (os_create_dir_all os work))
       (bindE (io_ctx ''spawn firecracker'' (fc_process_spawn os (art_fc_bin art) sock (join_path work ''fc.log''))) (\<lambda>p.
         bindE (dropping os p (boot_source_vm os art sock)) (\<lambda>vsock_uds.
          seqE (drain_source os p work vsock_uds)
           (bindE (dropping os p (snapshot_and_send os sock work addr [])) (\<lambda>timing h.
             (Inr timing, meter (migration_ok (tm_snapshot timing + tm_transfer timing) (tm_bytes timing))
                (source_cleanup os p work vsock_uds h))))))) h)"

datatype migrate_outcome = Moved source_timing | StoodDown running_vm

definition guest_addr :: "net_id \<Rightarrow> string" where
  "guest_addr net = net_ip net @ '':'' @ show_nat (unat GUEST_DRAIN_TCP_PORT)"

text \<open>
  Reaching the guest and draining it, over TCP for a networked VM and over vsock otherwise. A failure to
  connect and a failure to drain are both answered by standing down.
\<close>

definition drain_guest :: "('w, 'h) host_os \<Rightarrow> running_vm \<Rightarrow> ('w host, io_error, drain_state) eff" where
  "drain_guest os vm =
     (let net = os_streams os in
      bindE (on_os (case rv_net vm of
          Some n \<Rightarrow> connect_tcp_retry net (os_attempts os) (guest_addr n)
        | None \<Rightarrow> connect_vsock_retry net (os_attempts os) (rv_vsock_uds vm) GUEST_VSOCK_PORT))
       (\<lambda>s. on_os (drain_to_quiescence (link_send net s) (link_recv net s) (os_arrivals os))))"

text \<open>The metadata files that travel with the snapshot.\<close>

definition write_metadata :: "('w, 'h) host_os \<Rightarrow> running_vm \<Rightarrow> ('w host, migrate_error, outbound_file list) eff" where
  "write_metadata os vm =
     (let vpath = join_path (rv_work vm) ''vsock.txt''; path = join_path (rv_work vm) ''net.json'' in
      seqE (io_ctx ''write vsock path'' (os_write os vpath (rv_vsock_uds vm)))
       (case rv_net vm of
          None \<Rightarrow> okE [\<lparr> of_name = ''vsock.txt'', of_path = vpath \<rparr>]
        | Some net \<Rightarrow>
            (case os_net_to_vec os net of
               Inl e \<Rightarrow> errE (Me_Io ''serialize net identity'' e)
             | Inr bytes \<Rightarrow>
                 seqE (io_ctx ''write net identity'' (os_write os path bytes))
                  (okE [\<lparr> of_name = ''vsock.txt'', of_path = vpath \<rparr>, \<lparr> of_name = ''net.json'', of_path = path \<rparr>]))))"

definition migrate_running ::
  "('w, 'h) host_os \<Rightarrow> running_vm \<Rightarrow> string \<Rightarrow> ('w host, migrate_error, migrate_outcome) eff" where
  "migrate_running os vm addr h =
     (case drain_guest os vm h of
        (Inl e, h) \<Rightarrow> (Inr (StoodDown vm), h)
      | (Inr Link_Busy, h) \<Rightarrow> (Inr (StoodDown vm), h)
      | (Inr Link_Quiescent, h) \<Rightarrow>
        (case write_metadata os vm h of
           (Inl e, h) \<Rightarrow> (Inl e, do_os (teardown os vm) h)
         | (Inr extra, h) \<Rightarrow>
           (case snapshot_and_send os (rv_fc vm) (rv_work vm) addr extra h of
              (Inr timing, h) \<Rightarrow>
                (Inr (Moved timing), do_os (teardown os vm)
                  (meter (migration_ok (tm_snapshot timing + tm_transfer timing) (tm_bytes timing)) h))
            | (Inl e, h) \<Rightarrow> (Inl e, do_os (teardown os vm) (meter migration_failed h)))))"

section \<open>The target\<close>

definition mem_mib :: "u64 option \<Rightarrow> u32" where
  "mem_mib len = ucast ((case len of Some n \<Rightarrow> n | None \<Rightarrow> 0) div (1024 * 1024))"

definition replumb_net :: "('w, 'h) host_os \<Rightarrow> path \<Rightarrow> ('w host, migrate_error, net_id option) eff" where
  "replumb_net os work h =
     (let net_path = join_path work ''net.json'' in
      if os_exists os net_path (h_os h) then
        (case io_ctx ''read net identity'' (os_read os net_path) h of
           (Inl e, h) \<Rightarrow> (Inl e, h)
         | (Inr bytes, h) \<Rightarrow>
           (case os_net_from_slice os bytes of
              Inl e \<Rightarrow> (Inl (Me_Io ''parse net identity'' e), h)
            | Inr net \<Rightarrow>
              (case on_os (create_tap (os_ip os) (net_tap net)) h of
                 (Inl e, h) \<Rightarrow> (Inl (Me_Io ''re-plumb vm tap'' (show_net_error e)), do_os (os_remove_dir_all os work) h)
               | (Inr _, h) \<Rightarrow> (Inr (Some net), h))))
      else (Inr None, h))"

definition restored_vsock :: "('w, 'h) host_os \<Rightarrow> path \<Rightarrow> 'w host \<Rightarrow> path \<times> 'w host" where
  "restored_vsock os work h =
     (let p = join_path work ''vsock.txt'' in
      if os_exists os p (h_os h) then
        (case on_os (os_read os p) h of (Inl _, h) \<Rightarrow> ([], h) | (Inr s, h) \<Rightarrow> (trim s, h))
      else ([], h))"

text \<open>When loading the snapshot fails, everything the restore set up is undone.\<close>

definition restore_undo :: "('w, 'h) host_os \<Rightarrow> nat \<Rightarrow> nat \<Rightarrow> net_id option \<Rightarrow> path \<Rightarrow> 'w \<Rightarrow> 'w" where
  "restore_undo os p t net work w =
     (let w = snd (fc_process_kill os p w);
          w = os_uffd_stop_join os t w;
          w = (case net of Some n \<Rightarrow> destroy_tap (os_ip os) (net_tap n) w | None \<Rightarrow> w)
      in os_remove_dir_all os work w)"

definition load_and_resume ::
  "('w, 'h) host_os \<Rightarrow> path \<Rightarrow> path \<Rightarrow> path \<Rightarrow> ('w, firecracker_error, unit) eff" where
  "load_and_resume os sock work uffd_sock =
     fa_load_snapshot (firecracker_api (os_fc os sock))
       \<lparr> ss_state_file = join_path work ''state.snap'', ss_backend = Backend_Uffd uffd_sock, ss_resume = True \<rparr>"

definition resume_restored ::
  "('w, 'h) host_os \<Rightarrow> path \<Rightarrow> nat \<Rightarrow> nat \<Rightarrow> net_id option \<Rightarrow> ('w host, migrate_error, running_vm) eff" where
  "resume_restored os work t p net h =
     (let sock = join_path work ''fc.sock'' in
      case on_os (load_and_resume os sock work (join_path work ''uffd.sock'')) h of
        (Inl e, h) \<Rightarrow> (Inl (Me_Firecracker e), do_os (restore_undo os p t net work) h)
      | (Inr _, h) \<Rightarrow>
        (let h = (case net of Some n \<Rightarrow> snd (on_os (announce (os_raw os) n) h) | None \<Rightarrow> h);
             (vsock_uds, h) = restored_vsock os work h;
             mib = mem_mib (os_file_len os (join_path work ''mem.snap'') (h_os h));
             (i, w) = os_fresh_uuid os (h_os h)
         in (Inr \<lparr> rv_id = i, rv_proc = p, rv_fc = sock, rv_work = work, rv_vsock_uds = vsock_uds,
                 rv_mib = mib, rv_uffd = Some t, rv_net = net \<rparr>, h \<lparr> h_os := w \<rparr>)))"

text \<open>The page server's thread runs on its own from here, until it is stopped and joined.\<close>

definition uffd_thread :: "('w, 'h) host_os \<Rightarrow> nat \<Rightarrow> path \<Rightarrow> ('w host, migrate_error, nat) eff" where
  "uffd_thread os handler mem h = (case os_uffd_thread os handler mem (h_os h) of (t, w) \<Rightarrow> (Inr t, h \<lparr> h_os := w \<rparr>))"

definition restore_into ::
  "('w, 'h) host_os \<Rightarrow> path \<Rightarrow> nat \<Rightarrow> path \<Rightarrow> ('w host, migrate_error, running_vm) eff" where
  "restore_into os fc_bin listener work =
     (seqE (io_ctx ''create work dir'' (os_create_dir_all os work))
       (bindE (map_errE Me_Transfer (on_os (recv_snapshot os listener work))) (\<lambda>files.
         if length files < 2 \<or> 4 < length files
         then errE (Me_Snapshot (''expected 2..4 files, got '' @ show_nat (length files)))
         else bindE (replumb_net os work) (\<lambda>net.
           bindE (io_ctx ''bind uffd socket'' (os_uffd_bind os (join_path work ''uffd.sock''))) (\<lambda>handler.
             bindE (uffd_thread os handler (join_path work ''mem.snap'')) (\<lambda>t.
               bindE (io_ctx ''spawn firecracker''
                   (fc_process_spawn os fc_bin (join_path work ''fc.sock'') (join_path work ''fc.log''))) (\<lambda>p.
                 resume_restored os work t p net)))))))"

definition receive_and_restore ::
  "('w, 'h) host_os \<Rightarrow> path \<Rightarrow> nat \<Rightarrow> ('w host, migrate_error, running_vm) eff" where
  "receive_and_restore os fc_bin listener h =
     (let (work, h) = work_dir os ''tgt'' h in restore_into os fc_bin listener work h)"

definition restore_target :: "('w, 'h) host_os \<Rightarrow> path \<Rightarrow> nat \<Rightarrow> ('w host, migrate_error, unit) eff" where
  "restore_target os fc_bin listener =
     bindE (receive_and_restore os fc_bin listener) (\<lambda>vm h. (Inr (), do_os (teardown os vm) h))"

definition restore_register :: "('w, 'h) host_os \<Rightarrow> path \<Rightarrow> nat \<Rightarrow> ('w host, migrate_error, running_vm) eff" where
  "restore_register = receive_and_restore"

section \<open>How a migration of a running VM ends\<close>

lemma migrate_running_cases:
  assumes "migrate_running os vm addr h = (r, h')"
  shows "case r of
      Inr (StoodDown v) \<Rightarrow> v = vm \<and> (\<exists>d. drain_guest os vm h = (d, h') \<and> d \<noteq> Inr Link_Quiescent)
    | Inr (Moved timing) \<Rightarrow>
        (\<exists>h1 extra h2 h3. drain_guest os vm h = (Inr Link_Quiescent, h1)
          \<and> write_metadata os vm h1 = (Inr extra, h2)
          \<and> snapshot_and_send os (rv_fc vm) (rv_work vm) addr extra h2 = (Inr timing, h3)
          \<and> h' = do_os (teardown os vm) (meter (migration_ok (tm_snapshot timing + tm_transfer timing) (tm_bytes timing)) h3))
    | Inl e \<Rightarrow>
        (\<exists>h1. drain_guest os vm h = (Inr Link_Quiescent, h1)
          \<and> (\<exists>h2. h' = do_os (teardown os vm) h2
              \<and> (write_metadata os vm h1 = (Inl e, h2)
                 \<or> (\<exists>extra h3 h4. write_metadata os vm h1 = (Inr extra, h3)
                      \<and> snapshot_and_send os (rv_fc vm) (rv_work vm) addr extra h3 = (Inl e, h4)
                      \<and> h2 = meter migration_failed h4))))"
  using assms unfolding migrate_running_def
  by (auto split: prod.splits sum.splits drain_state.splits)


lemma calm_streams:
  "sn_unix (os_streams calm_os) = (\<lambda>_. okE 0)"
  "sn_write (os_streams calm_os) = (\<lambda>_ _. okE ())"
  "sn_read_line (os_streams calm_os) = (\<lambda>_. okE ''OK'')"
  "sn_from_str (os_streams calm_os) = (\<lambda>_. Inr (DrainAck None))"
  "os_attempts calm_os = Suc 0"
  by (simp_all add: calm_os_def calm_world_def)

lemma calm_drain: "drain_guest calm_os calm_vm h = (Inl (Io_Other ''expected Hello''), h)"
proof -
  have "connect_vsock (os_streams calm_os) uds port w = (Inr 0, w)" for uds port w
    by (simp add: connect_vsock_def calm_streams bindE_def seqE_def starts_with_def)
  moreover have "link_recv (os_streams calm_os) s w = (Inr (DrainAck None), w)" for s w
    by (simp add: link_recv_def calm_streams bindE_def)
  moreover have "rv_net calm_vm = None" by (simp add: calm_vm_def)
  ultimately show ?thesis
    by (simp add: drain_guest_def drain_to_quiescence_def link_handshake_def connect_vsock_retry_def calm_streams
        on_os_def bindE_def seqE_def Let_def)
qed

lemma calm_stands_down: "migrate_running calm_os calm_vm addr h = (Inr (StoodDown calm_vm), h)"
  by (simp add: migrate_running_def calm_drain)


end
