(* ===== verification/Host_Frames.thy ===== *)
theory Host_Frames
  imports Migrate_Run
begin

text \<open>
  What the operations of a host leave alone. A predicate on the outside world that every effect of the
  system preserves, but for starting and killing processes, is preserved by talking to a guest and by
  every call on Firecracker; and the operations that start and kill processes account for them.
\<close>

section \<open>What talking to a guest leaves alone\<close>

definition preserves :: "('s \<Rightarrow> bool) \<Rightarrow> ('s, 'e, 'a) eff \<Rightarrow> bool" where
  "preserves Q m \<longleftrightarrow> (\<forall>s r s'. Q s \<longrightarrow> m s = (r, s') \<longrightarrow> Q s')"

named_theorems preserved \<open>effects that preserve a predicate on the state\<close>

lemma preservesD: "preserves Q m \<Longrightarrow> Q s \<Longrightarrow> m s = (r, s') \<Longrightarrow> Q s'"
  by (auto simp: preserves_def)

lemma preserves_ok [preserved]: "preserves Q (okE a)"
  by (simp add: preserves_def)

lemma preserves_err [preserved]: "preserves Q (errE e)"
  by (simp add: preserves_def)

lemma preserves_bind [preserved]:
  assumes "preserves Q m" "\<And>a. preserves Q (f a)"
  shows "preserves Q (bindE m f)"
proof (unfold preserves_def, intro allI impI)
  fix s r s'
  assume Q: "Q s" and b: "bindE m f s = (r, s')"
  obtain x t where m: "m s = (x, t)" by fastforce
  have "Q t" by (rule preservesD [OF assms(1) Q m])
  with b m show "Q s'" by (cases x) (auto simp: bindE_def dest: preservesD [OF assms(2)])
qed

lemma preserves_seq [preserved]: "preserves Q m \<Longrightarrow> preserves Q n \<Longrightarrow> preserves Q (seqE m n)"
  unfolding seqE_def by (rule preserves_bind)

lemma preserves_retry [preserved]:
  assumes "preserves Q m"
  shows "preserves Q (connect_retry n e m)"
proof -
  have "Q s \<Longrightarrow> connect_retry n e m s = (r, s') \<Longrightarrow> Q s'" for s r s'
  proof (induction n arbitrary: e s)
    case (Suc n)
    obtain x t where m: "m s = (x, t)" by fastforce
    have "Q t" by (rule preservesD [OF assms Suc.prems(1) m])
    with Suc m show ?case by (cases x) auto
  qed simp
  then show ?thesis by (simp add: preserves_def)
qed

lemma preserves_await [preserved]:
  assumes "preserves Q m"
  shows "preserves Q (await_ack m n)"
proof -
  have "Q s \<Longrightarrow> await_ack m n s = (r, s') \<Longrightarrow> Q s'" for s r s'
  proof (induction n arbitrary: s)
    case (Suc n)
    obtain x t where m: "m s = (x, t)" by fastforce
    have "Q t" by (rule preservesD [OF assms Suc.prems(1) m])
    with Suc m show ?case by (cases x) (auto split: guest_to_host.splits)
  qed simp
  then show ?thesis by (simp add: preserves_def)
qed

lemma preserves_on_os:
  assumes "preserves Q m"
  shows "preserves (\<lambda>h. h = h0 \<lparr> h_os := h_os h \<rparr> \<and> Q (h_os h)) (on_os m)"
proof (unfold preserves_def, intro allI impI)
  fix h r h'
  assume h: "h = h0 \<lparr> h_os := h_os h \<rparr> \<and> Q (h_os h)" and m: "on_os m h = (r, h')"
  obtain x w where "m (h_os h) = (x, w)" by fastforce
  with m have h': "h' = h \<lparr> h_os := w \<rparr>" and w: "Q w"
    using h preservesD [OF assms] by (auto simp: on_os_def)
  have "h' = h0 \<lparr> h_os := w \<rparr>" using h' arg_cong [OF conjunct1 [OF h], of "h_os_update (\<lambda>_. w)"] by simp
  with w h' show "h' = h0 \<lparr> h_os := h_os h' \<rparr> \<and> Q (h_os h')" by simp
qed

definition streams_keep :: "('w \<Rightarrow> bool) \<Rightarrow> 'w stream_net \<Rightarrow> bool" where
  "streams_keep Q net \<longleftrightarrow> (\<forall>a. preserves Q (sn_unix net a)) \<and> (\<forall>a. preserves Q (sn_tcp net a))
     \<and> (\<forall>s l. preserves Q (sn_write net s l)) \<and> (\<forall>s. preserves Q (sn_read_line net s))"

lemma link_send_preserves [preserved]: "streams_keep Q net \<Longrightarrow> preserves Q (link_send net s m)"
  by (auto simp: link_send_def streams_keep_def intro!: preserved split: sum.split)

lemma link_recv_preserves [preserved]: "streams_keep Q net \<Longrightarrow> preserves Q (link_recv net s)"
  by (auto simp: link_recv_def streams_keep_def intro!: preserved split: sum.split)

lemma connect_preserves [preserved]:
  "streams_keep Q net \<Longrightarrow> preserves Q (connect_tcp_retry net n a)"
  "streams_keep Q net \<Longrightarrow> preserves Q (connect_vsock_retry net n a port)"
  by (auto simp: connect_tcp_retry_def connect_tcp_def connect_vsock_retry_def connect_vsock_def streams_keep_def
      intro!: preserved)

lemma handshake_preserves [preserved]:
  "(\<And>m. preserves Q (send m)) \<Longrightarrow> preserves Q recv \<Longrightarrow> preserves Q (link_handshake send recv env)"
  by (auto simp: link_handshake_def intro!: preserved split: guest_to_host.split)

lemma quiescence_preserves [preserved]:
  assumes "\<And>m. preserves Q (send m)" "preserves Q recv"
  shows "preserves Q (drain_to_quiescence send recv n)"
proof -
  have "preserves Q (link_drain send recv n d)" for d
    using assms by (auto simp: link_drain_def intro!: preserved)
  moreover have "preserves Q (\<lambda>l. if state = Link_Busy then (case send DrainCancel l of (_, l) \<Rightarrow> (Inr state, l)) else (Inr state, l))"
    for state :: drain_state
    using assms(1) by (auto simp: preserves_def split: prod.splits)
  ultimately show ?thesis
    unfolding drain_to_quiescence_def using assms by (intro preserved)
qed

lemma drain_guest_frame:
  assumes "streams_keep Q (os_streams os)"
  shows "preserves (\<lambda>h. h = h0 \<lparr> h_os := h_os h \<rparr> \<and> Q (h_os h)) (drain_guest os vm)"
  unfolding drain_guest_def Let_def
proof (rule preserves_bind)
  show "preserves (\<lambda>h. h = h0 \<lparr> h_os := h_os h \<rparr> \<and> Q (h_os h))
      (on_os (case rv_net vm of
          Some n \<Rightarrow> connect_tcp_retry (os_streams os) (os_attempts os) (guest_addr n)
        | None \<Rightarrow> connect_vsock_retry (os_streams os) (os_attempts os) (rv_vsock_uds vm) GUEST_VSOCK_PORT))"
    by (rule preserves_on_os) (auto intro: preserved assms split: option.split)
  show "preserves (\<lambda>h. h = h0 \<lparr> h_os := h_os h \<rparr> \<and> Q (h_os h))
      (on_os (drain_to_quiescence (link_send (os_streams os) s) (link_recv (os_streams os) s) (os_arrivals os)))" for s
    by (rule preserves_on_os) (intro preserved assms)
qed

lemma drain_guest_keeps:
  assumes "drain_guest os vm h = (r, h')"
  shows "h' = h \<lparr> h_os := h_os h' \<rparr>"
proof -
  have "streams_keep (\<lambda>_. True) (os_streams os)" by (simp add: streams_keep_def preserves_def)
  from preservesD [OF drain_guest_frame [OF this] _ assms] show ?thesis by simp
qed

section \<open>Triples\<close>

text \<open>After \<open>m\<close> from a state with \<open>P\<close>, an error and a value each come with their own postcondition.\<close>

definition holds :: "('s \<Rightarrow> bool) \<Rightarrow> ('s, 'e, 'a) eff \<Rightarrow> ('s \<Rightarrow> bool) \<Rightarrow> ('a \<Rightarrow> 's \<Rightarrow> bool) \<Rightarrow> bool" where
  "holds P m E R \<longleftrightarrow> (\<forall>s r s'. P s \<longrightarrow> m s = (r, s') \<longrightarrow> (case r of Inl _ \<Rightarrow> E s' | Inr a \<Rightarrow> R a s'))"

lemma holdsI: "(\<And>s r s'. P s \<Longrightarrow> m s = (r, s') \<Longrightarrow> case r of Inl _ \<Rightarrow> E s' | Inr a \<Rightarrow> R a s') \<Longrightarrow> holds P m E R"
  by (simp add: holds_def)

lemma holdsD: "holds P m E R \<Longrightarrow> P s \<Longrightarrow> m s = (r, s') \<Longrightarrow> case r of Inl _ \<Rightarrow> E s' | Inr a \<Rightarrow> R a s'"
  by (simp add: holds_def)

lemma holds_Inl: "holds P m E R \<Longrightarrow> P s \<Longrightarrow> m s = (Inl e, s') \<Longrightarrow> E s'"
  by (drule (2) holdsD) simp

lemma holds_Inr: "holds P m E R \<Longrightarrow> P s \<Longrightarrow> m s = (Inr a, s') \<Longrightarrow> R a s'"
  by (drule (2) holdsD) simp

lemma holds_preserves: "preserves Q m \<Longrightarrow> holds Q m Q (\<lambda>_. Q)"
  by (auto simp: holds_def preserves_def split: sum.split)

lemma preserves_holds: "holds Q m Q (\<lambda>_. Q) \<Longrightarrow> preserves Q m"
  by (auto simp: holds_def preserves_def split: sum.splits)

lemma holds_bind:
  assumes "holds P m E R" "\<And>a. holds (R a) (f a) E T"
  shows "holds P (bindE m f) E T"
proof (rule holdsI)
  fix s r s'
  assume P: "P s" and b: "bindE m f s = (r, s')"
  obtain x t where m: "m s = (x, t)" by fastforce
  show "case r of Inl _ \<Rightarrow> E s' | Inr a \<Rightarrow> T a s'"
  proof (cases x)
    case (Inl e)
    with b m holds_Inl [OF assms(1) P] show ?thesis by (auto simp: bindE_def)
  next
    case (Inr a)
    with b m holds_Inr [OF assms(1) P] holdsD [OF assms(2)] show ?thesis by (auto simp: bindE_def)
  qed
qed

lemma holds_seq: "holds P m E (\<lambda>_. R) \<Longrightarrow> holds R n E T \<Longrightarrow> holds P (seqE m n) E T"
  unfolding seqE_def by (rule holds_bind)

lemma holds_map_err: "holds P m E R \<Longrightarrow> holds P (map_errE f m) E R"
  by (rule holdsI) (auto simp: map_errE_def split: prod.splits sum.splits dest: holds_Inl holds_Inr)

lemma holds_on_os: "holds P m E R \<Longrightarrow> holds (\<lambda>h. P (h_os h)) (on_os m) (\<lambda>h. E (h_os h)) (\<lambda>a h. R a (h_os h))"
  by (rule holdsI) (auto simp: on_os_def split: prod.splits sum.split dest: holds_Inl holds_Inr)

lemma holds_io_ctx: "holds P m E R \<Longrightarrow> holds (\<lambda>h. P (h_os h)) (io_ctx c m) (\<lambda>h. E (h_os h)) (\<lambda>a h. R a (h_os h))"
  unfolding io_ctx_def by (intro holds_map_err holds_on_os)

section \<open>Effects that keep a predicate\<close>

lemma preserves_map_err [preserved]: "preserves Q m \<Longrightarrow> preserves Q (map_errE f m)"
  by (rule preserves_holds, rule holds_map_err, rule holds_preserves)

lemma preserves_lift [preserved]: "preserves Q m \<Longrightarrow> preserves (\<lambda>h. Q (h_os h)) (on_os m)"
  using holds_on_os [OF holds_preserves] by (rule preserves_holds)

lemma preserves_io_ctx [preserved]: "preserves Q m \<Longrightarrow> preserves (\<lambda>h. Q (h_os h)) (io_ctx c m)"
  unfolding io_ctx_def by (intro preserved)

lemma preserves_fc_do [preserved]: "preserves Q m \<Longrightarrow> preserves (\<lambda>h. Q (h_os h)) (fc_do m)"
  unfolding fc_do_def by (intro preserved)

lemma preserves_if [preserved]: "preserves Q m \<Longrightarrow> preserves Q n \<Longrightarrow> preserves Q (if b then m else n)"
  by simp

text \<open>Everything the system does but starting and killing processes.\<close>

definition os_keeps :: "('w \<Rightarrow> bool) \<Rightarrow> ('w, 'h) host_os \<Rightarrow> bool" where
  "os_keeps Q os \<longleftrightarrow> streams_keep Q (os_streams os)
     \<and> (\<forall>p. preserves Q (os_create_dir_all os p)) \<and> (\<forall>p. preserves Q (os_create_file os p))
     \<and> (\<forall>p s. preserves Q (os_write os p s)) \<and> (\<forall>p. preserves Q (os_read os p))
     \<and> (\<forall>p w. Q w \<longrightarrow> Q (os_remove_dir_all os p w)) \<and> (\<forall>p w. Q w \<longrightarrow> Q (os_remove_file os p w))
     \<and> (\<forall>p. preserves Q (os_try_wait os p)) \<and> (\<forall>p. preserves Q (os_wait os p))
     \<and> (\<forall>s rq. preserves Q (fx_exchange (os_fc os s) rq)) \<and> (\<forall>args. preserves Q (os_ip os args))
     \<and> (\<forall>t. preserves Q (rn_socket (os_raw os) t)) \<and> (\<forall>fd i a f. preserves Q (rn_sendto (os_raw os) fd i a f))
     \<and> (\<forall>fd w. Q w \<longrightarrow> Q (rn_close (os_raw os) fd w))
     \<and> (\<forall>a. preserves Q (os_tcp_connect os a)) \<and> (\<forall>s bs. preserves Q (os_tcp_write os s bs))
     \<and> (\<forall>s. preserves Q (os_tcp_shutdown os s)) \<and> (\<forall>l. preserves Q (os_tcp_accept os l))
     \<and> (\<forall>s rx w. Q w \<longrightarrow> Q (os_put_rx os s rx w)) \<and> (\<forall>p. preserves Q (os_uffd_bind os p))
     \<and> (\<forall>u m w. Q w \<longrightarrow> Q (snd (os_uffd_thread os u m w))) \<and> (\<forall>t w. Q w \<longrightarrow> Q (os_uffd_stop_join os t w))
     \<and> (\<forall>w. Q w \<longrightarrow> Q (snd (os_fresh_uuid os w)))"

lemma os_keeps_effects [preserved]:
  assumes "os_keeps Q os"
  shows "preserves Q (os_create_dir_all os p)" "preserves Q (os_create_file os p)" "preserves Q (os_write os p s)"
    "preserves Q (os_read os p)" "preserves Q (os_try_wait os i)" "preserves Q (os_wait os i)"
    "preserves Q (fx_exchange (os_fc os p) rq)" "preserves Q (os_ip os args)" "preserves Q (os_tcp_connect os p)"
    "preserves Q (os_tcp_write os i bs)" "preserves Q (os_tcp_shutdown os i)" "preserves Q (os_tcp_accept os i)"
    "preserves Q (os_uffd_bind os p)"
  using assms by (auto simp: os_keeps_def)

lemma os_keeps_streams [preserved]: "os_keeps Q os \<Longrightarrow> streams_keep Q (os_streams os)"
  by (simp add: os_keeps_def)

lemma os_keeps_steps:
  assumes "os_keeps Q os" "Q w"
  shows "Q (os_remove_dir_all os p w)" "Q (os_remove_file os p w)" "Q (rn_close (os_raw os) fd w)" "Q (os_put_rx os i rx w)"
    "Q (snd (os_uffd_thread os i p w))" "Q (os_uffd_stop_join os i w)" "Q (snd (os_fresh_uuid os w))"
  using assms by (auto simp: os_keeps_def)

lemma os_keeps_raw:
  "os_keeps Q os \<Longrightarrow> preserves Q (rn_socket (os_raw os) t)" "os_keeps Q os \<Longrightarrow> preserves Q (rn_sendto (os_raw os) fd i a f)"
  by (auto simp: os_keeps_def)

lemma fc_send_keeps [preserved]: "os_keeps Q os \<Longrightarrow> preserves Q (fc_send (os_fc os s) m p b op)"
  using os_keeps_effects(7) [of Q os s]
  by (fastforce simp: preserves_def fc_send_def split: prod.splits sum.splits if_splits)

lemma send_json_keeps [preserved]: "os_keeps Q os \<Longrightarrow> preserves Q (send_json (os_fc os s) m p v op)"
  unfolding send_json_def by (cases "json_body (os_fc os s) v op") (auto intro!: preserved)

lemma firecracker_keeps [preserved]:
  assumes "os_keeps Q os"
  shows "preserves Q (fa_configure_machine (firecracker_api (os_fc os s)) mc)"
    "preserves Q (fa_configure_boot_source (firecracker_api (os_fc os s)) bs)"
    "preserves Q (fa_configure_drive (firecracker_api (os_fc os s)) dc)"
    "preserves Q (fa_configure_vsock (firecracker_api (os_fc os s)) vc)"
    "preserves Q (fa_configure_network (firecracker_api (os_fc os s)) nc)"
    "preserves Q (fa_boot (firecracker_api (os_fc os s)))" "preserves Q (fa_pause (firecracker_api (os_fc os s)))"
    "preserves Q (fa_resume (firecracker_api (os_fc os s)))"
    "preserves Q (fa_create_snapshot (firecracker_api (os_fc os s)) st)"
    "preserves Q (fa_load_snapshot (firecracker_api (os_fc os s)) ss)"
  by (auto simp: firecracker_api_def fc_configure_machine_def fc_configure_boot_source_def fc_configure_drive_def
      fc_configure_vsock_def fc_configure_network_def fc_boot_def fc_pause_def fc_resume_def fc_create_snapshot_def
      fc_load_snapshot_def Let_def intro!: preserved assms split: mem_backend.split)

lemma run_ip_keeps [preserved]: "os_keeps Q os \<Longrightarrow> preserves Q (run_ip (os_ip os) args)"
  using os_keeps_effects(8) [of Q os args] by (auto simp: preserves_def run_ip_def Let_def split: prod.splits sum.splits if_splits)

lemma create_tap_keeps [preserved]: "os_keeps Q os \<Longrightarrow> preserves Q (create_tap (os_ip os) n)"
  unfolding create_tap_def by (intro preserved)

lemma net_create_keeps [preserved]: "os_keeps Q os \<Longrightarrow> preserves Q (net_create (os_ip os) i)"
  unfolding net_create_def by (auto intro!: preserved simp: Let_def split: option.split)

lemma destroy_tap_keeps: "os_keeps Q os \<Longrightarrow> Q w \<Longrightarrow> Q (destroy_tap (os_ip os) n w)"
  unfolding destroy_tap_def using preservesD [OF run_ip_keeps] by (metis prod.collapse)

lemma announce_keeps [preserved]:
  assumes "os_keeps Q os"
  shows "preserves Q (announce (os_raw os) net)"
proof (unfold preserves_def, intro allI impI)
  fix w r w'
  assume Q: "Q w" and run: "announce (os_raw os) net w = (r, w')"
  let ?mac = "parse_mac (net_mac net)" and ?ip = "parse_ipv4 (net_ip net)"
  show "Q w'"
  proof (cases "(\<exists>e. ?mac = Inl e) \<or> (\<exists>e. ?ip = Inl e) \<or> rn_if_nametoindex (os_raw os) BRIDGE = 0")
    case True
    with run Q show ?thesis by (auto simp: announce_def split: sum.splits)
  next
    case False
    then obtain mac ip where ok: "?mac = Inr mac" "?ip = Inr ip" by (metis sum.exhaust_sel)
    obtain x w1 where s: "rn_socket (os_raw os) ETH_P_ARP_be w = (x, w1)" by fastforce
    have w1: "Q w1" by (rule preservesD [OF os_keeps_raw(1) [OF assms] Q s])
    show ?thesis
    proof (cases x)
      case (Inl e)
      with run ok False s w1 show ?thesis by (simp add: announce_def Let_def)
    next
      case (Inr fd)
      let ?send = "rn_sendto (os_raw os) fd (rn_if_nametoindex (os_raw os) BRIDGE) (replicate 6 0xff) (arp_frame mac ip)"
      obtain y w2 where y: "?send w1 = (y, w2)" by fastforce
      have "Q w2" by (rule preservesD [OF os_keeps_raw(2) [OF assms] w1 y])
      then have "Q (rn_close (os_raw os) fd w2)" by (rule os_keeps_steps(3) [OF assms])
      with run ok False s Inr y show ?thesis by (cases y) (simp_all add: announce_def Let_def)
    qed
  qed
qed

section \<open>Moving files\<close>

lemma put_keeps [preserved]: "preserves Q (wr bs) \<Longrightarrow> preserves Q (put wr bs)"
  unfolding put_def by (intro preserved)

lemma send_data_keeps:
  assumes wr: "\<And>bs. preserves Q (wr bs)"
  shows "preserves Q (send_data h rd wr name n data st)"
proof -
  have "Q w \<Longrightarrow> send_data h rd wr name n data st w = (r, w') \<Longrightarrow> Q w'" for w r w'
  proof (induction n arbitrary: data st w rule: less_induct)
    case (less n)
    let ?want = "min n CHUNK"
    let ?k = "\<lambda>k. read_len k ?want (length data)"
    note simps = send_data.simps [of h rd wr name n data st w]
    show ?case
    proof (cases "n = 0 \<or> (\<exists>e. rd ?want (length data) = Inl e) \<or> (\<exists>k. rd ?want (length data) = Inr k \<and> ?k k = 0)")
      case True
      with less.prems show ?thesis by (auto simp: simps Let_def split: if_splits)
    next
      case False
      then obtain k where k: "n \<noteq> 0" "rd ?want (length data) = Inr k" "?k k \<noteq> 0" by (metis sum.exhaust_sel)
      obtain x w1 where x: "put wr (take (?k k) data) w = (x, w1)" by fastforce
      have Q: "Q w1" by (rule preservesD [OF put_keeps [OF wr] less.prems(1) x])
      show ?thesis
      proof (cases x)
        case (Inl e)
        with less.prems k x Q show ?thesis by (simp add: simps Let_def)
      next
        case (Inr u)
        have "n - ?k k < n" using k by simp
        from less.IH [OF this Q] less.prems(2) k x Inr show ?thesis by (simp add: simps Let_def)
      qed
    qed
  qed
  then show ?thesis by (simp add: preserves_def)
qed

lemma send_files_keeps:
  assumes wr: "\<And>bs. preserves Q (wr bs)"
  shows "preserves Q (send_files h rd src wr fs)"
proof -
  have "preserves Q (send_file h rd src wr f)" for f
    unfolding send_file_def Let_def
    by (auto intro!: preserved wr send_data_keeps [OF wr] split: sum.split prod.split)
  then have "preserves Q (send_each h rd src wr fs)" by (induction fs) (auto intro: preserved)
  then show ?thesis unfolding send_files_def by (intro preserved wr)
qed

lemma send_snapshot_keeps [preserved]:
  assumes "os_keeps Q os"
  shows "preserves Q (send_snapshot os addr fs)"
proof (unfold preserves_def, intro allI impI)
  fix w r w'
  assume Q: "Q w" and run: "send_snapshot os addr fs w = (r, w')"
  note conn = preservesD [OF os_keeps_effects(9) [OF assms] Q]
    and files = preservesD [OF send_files_keeps [OF os_keeps_effects(10) [OF assms]]]
    and shut = preservesD [OF preserves_map_err [OF os_keeps_effects(11) [OF assms]]]
  from run show "Q w'"
    by (auto simp: send_snapshot_def split: sum.splits prod.splits dest!: conn dest: files shut)
qed

lemma recv_snapshot_keeps [preserved]:
  assumes "os_keeps Q os"
  shows "preserves Q (recv_snapshot os l dest)"
proof (unfold preserves_def, intro allI impI)
  fix w r w'
  assume Q: "Q w" and run: "recv_snapshot os l dest w = (r, w')"
  note acc = preservesD [OF os_keeps_effects(12) [OF assms] Q]
  from run show "Q w'"
    by (auto simp: recv_snapshot_def split: sum.splits prod.splits option.splits dest!: acc intro: os_keeps_steps(4) [OF assms])
qed

end
