(* ===== verification/Host_Probe.thy ===== *)
theory Host_Probe
  imports Byte_Strings Compat_Class Complex_Main
begin

text \<open>
  What a host daemon measures of its host: memory pressure, \<open>crates/hostd/src/sysmem.rs\<close>, and the
  compatibility class, \<open>crates/hostd/src/compat.rs\<close> (the Linux on x86-64 build). A double is the real
  number it denotes and \<open>rnd\<close>, a parameter, is the rounding to the nearest double that every operation
  ends with; \<open>/proc\<close> files, the TSC and the clock are parameters.
\<close>

section \<open>Memory pressure\<close>

definition parse_kb :: "string \<Rightarrow> nat option" where
  "parse_kb s = (case split_whitespace s of [] \<Rightarrow> None | w # _ \<Rightarrow> parse_uint (2 ^ 64 - 1) w)"

definition meminfo_line :: "string \<Rightarrow> nat option \<times> nat option \<Rightarrow> nat option \<times> nat option" where
  "meminfo_line line st =
     (case st of (tot, avail) \<Rightarrow>
       (case strip_prefix ''MemTotal:'' line of
          Some rest \<Rightarrow> (parse_kb rest, avail)
        | None \<Rightarrow>
            (case strip_prefix ''MemAvailable:'' line of
               Some rest \<Rightarrow> (tot, parse_kb rest)
             | None \<Rightarrow> (tot, avail))))"

definition parse_pressure :: "(real \<Rightarrow> real) \<Rightarrow> string \<Rightarrow> real option" where
  "parse_pressure rnd meminfo =
     (case fold meminfo_line (str_lines meminfo) (None, None) of
        (Some tot, Some avail) \<Rightarrow>
          if tot = 0 then None
          else Some (rnd (rnd (real (tot - avail)) / rnd (real tot)))
      | _ \<Rightarrow> None)"

definition memory_pressure :: "(real \<Rightarrow> real) \<Rightarrow> string option \<Rightarrow> real" where
  "memory_pressure rnd meminfo =
     (case Option.bind meminfo (parse_pressure rnd) of Some p \<Rightarrow> p | None \<Rightarrow> 0)"

lemma parse_pressure_unit:
  assumes "mono rnd" "rnd 0 = 0" "rnd 1 = 1" "parse_pressure rnd s = Some p"
  shows "0 \<le> p \<and> p \<le> 1"
proof -
  obtain t a where t: "t > 0" and p: "p = rnd (rnd (real (t - a)) / rnd (real t))"
    using assms(4) by (auto simp: parse_pressure_def split: prod.splits option.splits if_splits)
  have "1 \<le> rnd (real t)" using t monoD [OF assms(1), of 1 "real t"] assms(3) by simp
  moreover have "0 \<le> rnd (real (t - a))" using monoD [OF assms(1), of 0 "real (t - a)"] assms(2) by simp
  moreover have "rnd (real (t - a)) \<le> rnd (real t)" by (rule monoD [OF assms(1)]) simp
  ultimately have "0 \<le> rnd (real (t - a)) / rnd (real t)" "rnd (real (t - a)) / rnd (real t) \<le> 1" by simp_all
  with monoD [OF assms(1), of 0 _] monoD [OF assms(1), of _ 1] show ?thesis
    unfolding p by (metis assms(2,3))
qed

text \<open>
  Memory pressure is a fraction. Whatever \<open>/proc/meminfo\<close> holds, well formed or not, readable or
  not, with \<open>MemAvailable\<close> above \<open>MemTotal\<close> or not, the pressure reported is between 0 and 1, for any
  monotone rounding that is exact at 0 and 1.
\<close>

theorem pressure_is_a_fraction:
  assumes "mono rnd" "rnd 0 = 0" "rnd 1 = 1"
  shows "0 \<le> memory_pressure rnd meminfo \<and> memory_pressure rnd meminfo \<le> 1"
  using parse_pressure_unit [OF assms]
  by (auto simp: memory_pressure_def split: option.split bind_splits)

lemma pressure_is_a_fraction_witness:
  "0 \<le> memory_pressure id (Some ''MemTotal: 4 kB'') \<and> memory_pressure id (Some ''MemTotal: 4 kB'') \<le> 1"
  by (rule pressure_is_a_fraction) (auto simp: mono_def)

section \<open>The compatibility class of this host\<close>

definition cpu_field :: "string \<Rightarrow> string \<Rightarrow> string" where
  "cpu_field info key =
     (case find_map (\<lambda>l. case split_once (CHR '':'') l of
          None \<Rightarrow> None
        | Some (k, v) \<Rightarrow> if trim k = key then Some (trim v) else None) (str_lines info) of
        Some v \<Rightarrow> v
      | None \<Rightarrow> ''unknown'')"

definition cpu_vendor_model :: "string option \<Rightarrow> string \<times> string" where
  "cpu_vendor_model cpuinfo =
     (let info = (case cpuinfo of Some s \<Rightarrow> s | None \<Rightarrow> []) in
      (cpu_field info ''vendor_id'', cpu_field info ''model name''))"

definition kernel_release :: "string option \<Rightarrow> string" where
  "kernel_release osrelease = (case osrelease of Some s \<Rightarrow> trim s | None \<Rightarrow> ''unknown'')"

text \<open>\<open>f64::round\<close> and the saturating cast \<open>as u32\<close>.\<close>

definition f64_round :: "real \<Rightarrow> int" where
  "f64_round x = (if x < 0 then - \<lfloor>1 / 2 - x\<rfloor> else \<lfloor>x + 1 / 2\<rfloor>)"

definition as_u32 :: "int \<Rightarrow> u32" where
  "as_u32 n = (if n \<le> 0 then 0 else if 2 ^ 32 - 1 \<le> n then - 1 else of_int n)"

definition measure_tsc_khz :: "(real \<Rightarrow> real) \<Rightarrow> u64 \<Rightarrow> u64 \<Rightarrow> real \<Rightarrow> u32" where
  "measure_tsc_khz rnd c0 c1 elapsed =
     (if elapsed \<le> 0 then 0
      else as_u32 (f64_round (rnd (rnd (rnd (real (unat (c1 - c0))) / elapsed) / 1000))))"

definition detect ::
  "(real \<Rightarrow> real) \<Rightarrow> string option \<Rightarrow> string option \<Rightarrow> u64 \<Rightarrow> u64 \<Rightarrow> real \<Rightarrow> compat_class" where
  "detect rnd cpuinfo osrelease c0 c1 elapsed =
     (case cpu_vendor_model cpuinfo of (vendor, model) \<Rightarrow>
       \<lparr> cc_vendor = vendor, cc_model = model, cc_tsc_khz = measure_tsc_khz rnd c0 c1 elapsed,
         cc_kernel = kernel_release osrelease \<rparr>)"

end
