(* ===== verification/Host_Daemon.thy ===== *)
theory Host_Daemon
  imports Host_Frames Host_Probe
begin

text \<open>
  The HTTP surface of a host daemon, \<open>crates/hostd/src/bin/hostd.rs\<close> (the Linux build), over the state of
  \<open>Host_State\<close>. A request is its method, path and query; a reply its status and body. JSON and number
  rendering, the text form of a VM id, the directory listing of the artifacts, the listening socket and
  the metrics renderer are parameters. A receive request leaves its restore running in the
  background: the reply carries the task, and \<open>recv_task\<close> is what it does.
\<close>

record 'w daemon_deps =
  dd_default_dir :: "string + path"
  dd_read_dir :: "path \<Rightarrow> 'w \<Rightarrow> bool \<times> fs_entry list"
  dd_bind :: "string \<Rightarrow> ('w, string, nat) eff"
  dd_parse_vm :: "string \<Rightarrow> string + vm_id"
  dd_render :: "metrics \<Rightarrow> string"
  dd_status_json :: "real host_status \<Rightarrow> string + string"
  dd_object :: "(string \<times> string) list \<Rightarrow> string"
  dd_millis :: "duration \<Rightarrow> string"
  dd_rnd :: "real \<Rightarrow> real"

record reply =
  rp_status :: nat
  rp_body :: string
  rp_task :: "(path \<times> nat) option"

definition reply_text :: "nat \<Rightarrow> string \<Rightarrow> reply" where
  "reply_text status body = \<lparr> rp_status = status, rp_body = body, rp_task = None \<rparr>"

definition line :: "string \<Rightarrow> string" where
  "line s = s @ [CHR 0x0A]"

definition query_param :: "string option \<Rightarrow> string \<Rightarrow> string option" where
  "query_param query key =
     (case query of
        None \<Rightarrow> None
      | Some q \<Rightarrow> find_map (\<lambda>pair. case split_once (CHR ''='') pair of
            None \<Rightarrow> None
          | Some (k, v) \<Rightarrow> if k = key then Some v else None) (split_on (CHR ''&'') q))"

definition timing_json :: "'w daemon_deps \<Rightarrow> source_timing \<Rightarrow> string" where
  "timing_json dd t = dd_object dd
     [(''snapshot_ms'', dd_millis dd (tm_snapshot t)), (''transfer_ms'', dd_millis dd (tm_transfer t)),
      (''bytes'', show_nat (unat (tm_bytes t)))]"

definition daemon_status :: "'w daemon_deps \<Rightarrow> ('w, 'h) host_os \<Rightarrow> 'w host \<Rightarrow> reply \<times> 'w host" where
  "daemon_status dd os h =
     (let (meminfo, w) = os_read os ''/proc/meminfo'' (h_os h);
          h = h \<lparr> h_os := w \<rparr>;
          pressure = memory_pressure (dd_rnd dd) (case meminfo of Inr s \<Rightarrow> Some s | Inl _ \<Rightarrow> None)
      in case dd_status_json dd (registry_status os pressure h) of
           Inr json \<Rightarrow> (reply_text 200 (line json), h)
         | Inl e \<Rightarrow> (reply_text 500 (line e), h))"

definition artifacts_here :: "'w daemon_deps \<Rightarrow> ('w, 'h) host_os \<Rightarrow> 'w host \<Rightarrow> migrate_error + artifacts" where
  "artifacts_here dd os h = discover_artifacts (os_env os) (dd_default_dir dd) (\<lambda>d. dd_read_dir dd d (h_os h))"

definition vms_spawn :: "'w daemon_deps \<Rightarrow> ('w, 'h) host_os \<Rightarrow> string option \<Rightarrow> 'w host \<Rightarrow> reply \<times> 'w host" where
  "vms_spawn dd os query h =
     (let mib = (case Option.bind (query_param query ''mib'') (parse_uint (2 ^ 32 - 1)) of Some n \<Rightarrow> of_nat n | None \<Rightarrow> 128);
          networked = (query_param query ''net'' = Some ''1'')
      in case artifacts_here dd os h of
           Inl e \<Rightarrow> (reply_text 500 (line (show_migrate_error e)), h)
         | Inr art \<Rightarrow>
           (case registry_spawn os art mib networked h of
              (Inr i, h) \<Rightarrow> (reply_text 200 (line (''{\"vm\":\"'' @ os_show_vm os i @ ''\"}'')), h)
            | (Inl e, h) \<Rightarrow> (reply_text 500 (line (show_migrate_error e)), h)))"

definition send_registered ::
  "'w daemon_deps \<Rightarrow> ('w, 'h) host_os \<Rightarrow> string \<Rightarrow> string \<Rightarrow> 'w host \<Rightarrow> reply \<times> 'w host" where
  "send_registered dd os vm dest h =
     (case dd_parse_vm dd vm of
        Inl e \<Rightarrow> (reply_text 400 (line (''bad vm id: '' @ e)), h)
      | Inr i \<Rightarrow>
        (case registry_take os i h of
           (None, h) \<Rightarrow> (reply_text 404 (line ''no such vm here''), h)
         | (Some running, h) \<Rightarrow>
           (case migrate_running os running dest h of
              (Inr (Moved t), h) \<Rightarrow> (reply_text 200 (line (timing_json dd t)), h)
            | (Inr (StoodDown vm), h) \<Rightarrow>
                (reply_text 409 (line ''guest busy; migration stood down''), registry_insert os vm h)
            | (Inl e, h) \<Rightarrow> (reply_text 500 (line (show_migrate_error e)), meter migration_failed h))))"

definition migrate_send :: "'w daemon_deps \<Rightarrow> ('w, 'h) host_os \<Rightarrow> string option \<Rightarrow> 'w host \<Rightarrow> reply \<times> 'w host" where
  "migrate_send dd os query h =
     (case query_param query ''to'' of
        None \<Rightarrow> (reply_text 400 (line ''missing ?to=IP:PORT''), h)
      | Some dest \<Rightarrow>
        (case query_param query ''vm'' of
           Some vm \<Rightarrow> send_registered dd os vm dest h
         | None \<Rightarrow>
           (case artifacts_here dd os h of
              Inl e \<Rightarrow> (reply_text 500 (line (show_migrate_error e)), h)
            | Inr art \<Rightarrow>
              (case migrate_source os art dest h of
                 (Inr t, h) \<Rightarrow> (reply_text 200 (line (timing_json dd t)), h)
               | (Inl e, h) \<Rightarrow> (reply_text 500 (line (show_migrate_error e)), meter migration_failed h)))))"

definition bind_receiver :: "'w daemon_deps \<Rightarrow> string \<Rightarrow> ('w host, migrate_error, nat) eff" where
  "bind_receiver dd addr = io_ctx ''bind receiver'' (dd_bind dd addr)"

definition migrate_recv :: "'w daemon_deps \<Rightarrow> ('w, 'h) host_os \<Rightarrow> string option \<Rightarrow> 'w host \<Rightarrow> reply \<times> 'w host" where
  "migrate_recv dd os query h =
     (case query_param query ''listen'' of
        None \<Rightarrow> (reply_text 400 (line ''missing ?listen=ADDR''), h)
      | Some listen \<Rightarrow>
        (case artifacts_here dd os h of
           Inl e \<Rightarrow> (reply_text 500 (line (show_migrate_error e)), h)
         | Inr art \<Rightarrow>
           (case bind_receiver dd listen h of
              (Inl e, h) \<Rightarrow> (reply_text 500 (line (show_migrate_error e)), h)
            | (Inr l, h) \<Rightarrow> (\<lparr> rp_status = 202, rp_body = line ''receiving'', rp_task = Some (art_fc_bin art, l) \<rparr>, h))))"

definition recv_task :: "('w, 'h) host_os \<Rightarrow> path \<times> nat \<Rightarrow> 'w host \<Rightarrow> 'w host" where
  "recv_task os task h =
     (case restore_register os (fst task) (snd task) h of
        (Inr vm, h) \<Rightarrow> registry_insert os vm h
      | (Inl e, h) \<Rightarrow> meter migration_failed h)"

definition route ::
  "'w daemon_deps \<Rightarrow> ('w, 'h) host_os \<Rightarrow> http_method \<Rightarrow> path \<Rightarrow> string option \<Rightarrow> 'w host \<Rightarrow> reply \<times> 'w host" where
  "route dd os meth path query h =
     (if meth = GET \<and> path = ''/healthz'' then (reply_text 200 (line ''ok''), h)
      else if meth = GET \<and> path = ''/metrics'' then (reply_text 200 (dd_render dd (h_metrics h)), h)
      else if meth = GET \<and> path = ''/status'' then daemon_status dd os h
      else if meth = POST \<and> path = ''/vms/spawn'' then vms_spawn dd os query h
      else if meth = POST \<and> path = ''/migrate/send'' then migrate_send dd os query h
      else if meth = POST \<and> path = ''/migrate/recv'' then migrate_recv dd os query h
      else (reply_text 404 (line ''not found''), h))"

section \<open>Sending a registered VM\<close>

lemma write_metadata_keeps: "keeps_vms (write_metadata os vm)"
  unfolding write_metadata_def Let_def
  by (intro keeps; cases "rv_net vm") (auto intro!: keeps split: sum.split)

lemma write_metadata_error: "write_metadata os vm h = (Inl e, h') \<Longrightarrow> \<exists>c d. e = Me_Io c d"
  by (auto simp: write_metadata_def Let_def io_ctx_def eff_iffs split: option.splits sum.splits)

lemma snapshot_and_send_keeps: "keeps_vms (snapshot_and_send os sock work addr extra)"
proof (unfold keeps_vms_def, intro allI impI)
  fix h r h'
  assume run: "snapshot_and_send os sock work addr extra h = (r, h')"
  note keepsDs = keepsD [OF keeps_fc_do] keepsD [OF keeps_map_err [OF keeps_on_os]] keepsD [OF keeps_on_os]
  show "h_vms h' = h_vms h \<and> h_host h' = h_host h \<and> h_metrics h' = h_metrics h"
    by (cases r) (use run in \<open>auto simp: snapshot_and_send_def Let_def eff_iffs dest!: keepsDs\<close>)
qed

lemma boot_source_vm_keeps: "keeps_vms (boot_source_vm os art sock)"
proof (unfold keeps_vms_def, intro allI impI)
  fix h r h'
  assume run: "boot_source_vm os art sock h = (r, h')"
  note keepsDs = keepsD [OF keeps_fc_do]
  show "h_vms h' = h_vms h \<and> h_host h' = h_host h \<and> h_metrics h' = h_metrics h"
    by (cases r) (use run in \<open>auto simp: boot_source_vm_def Let_def eff_iffs dest!: keepsDs\<close>)
qed

lemma drain_source_keeps: "keeps_vms (drain_source os p work uds)"
  by (auto simp: keeps_vms_def drain_source_def Let_def on_os_def source_cleanup_def do_os_def
      split: prod.splits sum.splits drain_state.splits)

lemma migrate_source_frame:
  assumes "migrate_source os art addr h = (r, h')"
  shows "h_vms h' = h_vms h \<and> mt_failures (h_metrics h') = mt_failures (h_metrics h)
    \<and> mt_migrations (h_metrics h') = mt_migrations (h_metrics h) + (case r of Inr _ \<Rightarrow> 1 | Inl _ \<Rightarrow> 0)"
proof -
  obtain work h1 where w: "work_dir os ''src'' h = (work, h1)" by fastforce
  then have m: "h_metrics h1 = h_metrics h \<and> h_vms h1 = h_vms h" by (auto simp: work_dir_def)
  note keepsDs = keepsD [OF keeps_io_ctx] keepsD [OF keeps_dropping [OF boot_source_vm_keeps]] keepsD [OF drain_source_keeps]
    keepsD [OF keeps_dropping [OF snapshot_and_send_keeps]]
  from assms w m show ?thesis
    by (cases r) (auto simp: migrate_source_def Let_def eff_iffs meter_def migration_ok_def source_cleanup_def do_os_def dest!: keepsDs)
qed

lemma snapshot_and_send_error: "snapshot_and_send os sock work addr extra h = (Inl e, h') \<Longrightarrow> e \<noteq> Me_Io c d"
  by (auto simp: snapshot_and_send_def Let_def fc_do_def eff_iffs)

lemma reachable_ids: "reachable_host os h \<Longrightarrow> bt_get (h_vms h) i = Some vm \<Longrightarrow> rv_id vm = i"
proof (induction arbitrary: i vm rule: reachable_host.induct)
  case (reach_spawn h art mib networked r h')
  from registry_spawn_vms [OF reach_spawn.hyps(3)] reach_spawn.IH reach_spawn.prems show ?case
    by (auto simp: Let_def bt_get_insert split: if_splits)
qed (auto simp: registry_defs registry_new_def bt_get_def [of "[]"] bt_get_insert bt_get_remove
    split: if_splits option.splits)

lemma bt_reinsert: "bt_ok m \<Longrightarrow> bt_get m k = Some v \<Longrightarrow> bt_insert k v (bt_remove k m) = m"
  by (rule bt.entries_ext) (auto simp: bt_ok_insert bt_ok_remove bt_get_insert bt_get_remove)

text \<open>Taking a VM out and putting it back is the identity on the daemon's state.\<close>

lemma take_insert:
  assumes inj: "inj (os_show_vm os)" and reach: "reachable_host os h" and vm: "bt_get (h_vms h) i = Some vm"
    and take: "registry_take os i h = (v, h1)"
  shows "v = Some vm \<and> h_vms h1 = bt_remove i (h_vms h)
    \<and> mt_failures (h_metrics h1) = mt_failures (h_metrics h) \<and> mt_migrations (h_metrics h1) = mt_migrations (h_metrics h)
    \<and> h_os h1 = h_os h
    \<and> registry_insert os vm (h1 \<lparr> h_os := w \<rparr>) = h \<lparr> h_os := w \<rparr>"
proof -
  have ok: "gauge_ok os h" by (rule reachable_gauge_ok [OF inj reach])
  have id: "rv_id vm = i" by (rule reachable_ids [OF reach vm])
  have "mt_vm_info (h_metrics h) (os_show_vm os i, host_str (h_host h), vm_ip (rv_net vm)) = Some 1"
    using ok vm by (auto simp: gauge_ok_def)
  then have "(mt_vm_info (h_metrics h)) ((os_show_vm os i, host_str (h_host h), vm_ip (rv_net vm)) := Some 1)
      = mt_vm_info (h_metrics h)" by (metis fun_upd_triv)
  with ok vm take id show ?thesis
    by (auto simp: registry_defs gauge_ok_def bt_reinsert)
qed

lemma migrate_running_stood_down:
  assumes "streams_keep Q (os_streams os)" "Q (h_os h)" "migrate_running os vm dest h = (Inr (StoodDown v), h')"
  shows "v = vm \<and> h' = h \<lparr> h_os := h_os h' \<rparr> \<and> Q (h_os h')"
proof -
  from migrate_running_cases [OF assms(3)] obtain d where v: "v = vm" and d: "drain_guest os vm h = (d, h')" by auto
  have "h = h \<lparr> h_os := h_os h \<rparr> \<and> Q (h_os h)" using assms(2) by simp
  from preservesD [OF drain_guest_frame [OF assms(1)] this d] v show ?thesis by simp
qed

lemma migrate_running_moved:
  assumes "migrate_running os vm dest h = (Inr (Moved t), h')"
  shows "h_vms h' = h_vms h \<and> (\<exists>w. h_os h' = teardown os vm w)
    \<and> mt_failures (h_metrics h') = mt_failures (h_metrics h)
    \<and> mt_migrations (h_metrics h') = mt_migrations (h_metrics h) + 1"
proof -
  from migrate_running_cases [OF assms] obtain h1 extra h2 h3 where
    d: "drain_guest os vm h = (Inr Link_Quiescent, h1)" and w: "write_metadata os vm h1 = (Inr extra, h2)"
    and s: "snapshot_and_send os (rv_fc vm) (rv_work vm) dest extra h2 = (Inr t, h3)"
    and h': "h' = do_os (teardown os vm) (meter (migration_ok (tm_snapshot t + tm_transfer t) (tm_bytes t)) h3)"
    by auto
  have "h_vms h1 = h_vms h \<and> h_metrics h1 = h_metrics h" 
    using arg_cong [OF drain_guest_keeps [OF d], of h_metrics] arg_cong [OF drain_guest_keeps [OF d], of h_vms] by simp
  with keepsD [OF write_metadata_keeps w] keepsD [OF snapshot_and_send_keeps s] h' show ?thesis
    by (auto simp: do_os_def meter_def migration_ok_def)
qed

lemma migrate_running_failed:
  assumes "migrate_running os vm dest h = (Inl e, h')"
  shows "h_vms h' = h_vms h \<and> (\<exists>w. h_os h' = teardown os vm w)
    \<and> mt_failures (h_metrics h') = mt_failures (h_metrics h) + (case e of Me_Io _ _ \<Rightarrow> 0 | _ \<Rightarrow> 1)
    \<and> mt_migrations (h_metrics h') = mt_migrations (h_metrics h)"
proof -
  from migrate_running_cases [OF assms] obtain h1 h2 where
    d: "drain_guest os vm h = (Inr Link_Quiescent, h1)" and h': "h' = do_os (teardown os vm) h2"
    and or: "write_metadata os vm h1 = (Inl e, h2)
      \<or> (\<exists>extra h3 h4. write_metadata os vm h1 = (Inr extra, h3)
          \<and> snapshot_and_send os (rv_fc vm) (rv_work vm) dest extra h3 = (Inl e, h4) \<and> h2 = meter migration_failed h4)"
    by auto
  have k: "h_vms h1 = h_vms h \<and> h_metrics h1 = h_metrics h" 
    using arg_cong [OF drain_guest_keeps [OF d], of h_metrics] arg_cong [OF drain_guest_keeps [OF d], of h_vms] by simp
  from or show ?thesis
  proof (elim disjE exE conjE)
    assume w: "write_metadata os vm h1 = (Inl e, h2)"
    from keepsD [OF write_metadata_keeps w] write_metadata_error [OF w] k h' show ?thesis by (auto simp: do_os_def)
  next
    fix extra h3 h4
    assume w: "write_metadata os vm h1 = (Inr extra, h3)" and h2: "h2 = meter migration_failed h4"
      and s: "snapshot_and_send os (rv_fc vm) (rv_work vm) dest extra h3 = (Inl e, h4)"
    from keepsD [OF write_metadata_keeps w] keepsD [OF snapshot_and_send_keeps s] k h' h2
      snapshot_and_send_error [OF s] show ?thesis
      by (cases e) (auto simp: do_os_def meter_def migration_failed_def)
  qed
qed

lemma migrate_send_cases:
  assumes "inj (os_show_vm os)" "reachable_host os h" "bt_get (h_vms h) i = Some vm"
    and "query_param query ''to'' = Some dest" "query_param query ''vm'' = Some s" "dd_parse_vm dd s = Inr i"
    and "streams_keep Q (os_streams os)" "Q (h_os h)"
    and "migrate_send dd os query h = (rep, h')"
  shows "(rp_status rep = 409 \<and> h' = h \<lparr> h_os := h_os h' \<rparr> \<and> Q (h_os h'))
    \<or> (rp_status rep = 200 \<and> h_vms h' = bt_remove i (h_vms h) \<and> (\<exists>w. h_os h' = teardown os vm w)
        \<and> mt_migrations (h_metrics h') = mt_migrations (h_metrics h) + 1
        \<and> mt_failures (h_metrics h') = mt_failures (h_metrics h))
    \<or> (\<exists>e. rp_status rep = 500 \<and> rp_body rep = line (show_migrate_error e)
        \<and> h_vms h' = bt_remove i (h_vms h) \<and> (\<exists>w. h_os h' = teardown os vm w)
        \<and> mt_failures (h_metrics h') = mt_failures (h_metrics h) + (case e of Me_Io _ _ \<Rightarrow> 1 | _ \<Rightarrow> 2))"
proof -
  obtain v h1 where take: "registry_take os i h = (v, h1)" by fastforce
  note t = take_insert [OF assms(1-3) take]
  obtain r h2 where run: "migrate_running os vm dest h1 = (r, h2)" by fastforce
  have send: "migrate_send dd os query h = (case (r, h2) of
        (Inr (Moved t), h) \<Rightarrow> (reply_text 200 (line (timing_json dd t)), h)
      | (Inr (StoodDown vm), h) \<Rightarrow> (reply_text 409 (line ''guest busy; migration stood down''), registry_insert os vm h)
      | (Inl e, h) \<Rightarrow> (reply_text 500 (line (show_migrate_error e)), meter migration_failed h))"
    using t take run assms(4-6) by (simp add: migrate_send_def send_registered_def)
  show ?thesis
  proof (cases r)
    case (Inl e)
    have "rep = reply_text 500 (line (show_migrate_error e))" "h' = meter migration_failed h2"
      using send Inl assms(9) by simp_all
    with migrate_running_failed [OF run [unfolded Inl]] t show ?thesis
      by (intro disjI2 exI [of _ e])
        (auto simp: reply_text_def meter_def migration_failed_def split: migrate_error.splits)
  next
    case (Inr outcome)
    show ?thesis
    proof (cases outcome)
      case (Moved tm)
      from migrate_running_moved [OF run [unfolded Inr Moved]] send Inr Moved assms(9) t show ?thesis
        by (auto simp: reply_text_def)
    next
      case (StoodDown v')
      have "Q (h_os h1)" using assms(8) t by simp
      from migrate_running_stood_down [OF assms(7) this run [unfolded Inr StoodDown]]
      have v': "v' = vm" and Q: "Q (h_os h2)" and h2: "h2 = h1 \<lparr> h_os := h_os h2 \<rparr>" by auto
      have "registry_insert os vm h2 = h \<lparr> h_os := h_os h2 \<rparr>"
        by (subst h2) (use t in blast)
      with send Inr StoodDown assms(9) v' Q show ?thesis by (auto simp: reply_text_def)
    qed
  qed
qed

text \<open>
  C14. What a request to move a registered VM does to this host, in every case. For a VM that is
  registered in a registry the daemon can have reached, the reply is one of three. 409: the guest was busy
  or unreachable, the daemon's own state (registry, gauges, counters) is exactly what it was, and
  anything about the host that talking to a guest leaves true is still true, so the VM was not
  touched. 200: the VM was moved, is no longer registered here and has been torn down, and one
  migration was counted. 500: the VM is gone and torn down as well, and the one failed attempt is
  counted twice unless it failed while its metadata was written.
\<close>

theorem migrate_send_outcomes:
  assumes "inj (os_show_vm os)" "reachable_host os h" "bt_get (h_vms h) i = Some vm"
    and "query_param query ''to'' = Some dest" "query_param query ''vm'' = Some s" "dd_parse_vm dd s = Inr i"
    and "streams_keep Q (os_streams os)" "Q (h_os h)"
    and "migrate_send dd os query h = (rep, h')"
  shows "(rp_status rep = 409 \<and> h' = h \<lparr> h_os := h_os h' \<rparr> \<and> Q (h_os h'))
    \<or> (rp_status rep = 200 \<and> h_vms h' = bt_remove i (h_vms h) \<and> (\<exists>w. h_os h' = teardown os vm w)
        \<and> mt_migrations (h_metrics h') = mt_migrations (h_metrics h) + 1
        \<and> mt_failures (h_metrics h') = mt_failures (h_metrics h))
    \<or> (\<exists>e. rp_status rep = 500 \<and> rp_body rep = line (show_migrate_error e)
        \<and> h_vms h' = bt_remove i (h_vms h) \<and> (\<exists>w. h_os h' = teardown os vm w)
        \<and> mt_failures (h_metrics h') = mt_failures (h_metrics h) + (case e of Me_Io _ _ \<Rightarrow> 1 | _ \<Rightarrow> 2))"
  by (rule migrate_send_cases [OF assms])

definition calm_deps :: "'w daemon_deps" where
  "calm_deps = \<lparr> dd_default_dir = Inr ''/a'', dd_read_dir = (\<lambda>_ _. (True, [])), dd_bind = (\<lambda>_. okE 0),
     dd_parse_vm = (\<lambda>_. Inr (VmId 1)), dd_render = (\<lambda>_. []), dd_status_json = (\<lambda>_. Inr []), dd_object = (\<lambda>_. []),
     dd_millis = (\<lambda>_. []), dd_rnd = id \<rparr>"

lemma calm_query:
  "query_param (Some ''to=b&vm=1'') ''to'' = Some ''b''" "query_param (Some ''to=b&vm=1'') ''vm'' = Some ''1''"
  by (simp_all add: query_param_def split_once_def)

lemma migrate_send_outcomes_witness:
  "rp_status (fst (migrate_send calm_deps calm_os (Some ''to=b&vm=1'') (registry_insert calm_os calm_vm calm_host))) = 409
   \<and> h_vms (snd (migrate_send calm_deps calm_os (Some ''to=b&vm=1'') (registry_insert calm_os calm_vm calm_host)))
       = [(VmId 1, calm_vm)]"
proof -
  let ?h = "registry_insert calm_os calm_vm calm_host"
  obtain rep h' where run: "migrate_send calm_deps calm_os (Some ''to=b&vm=1'') ?h = (rep, h')" by fastforce
  have vm: "bt_get (h_vms ?h) (VmId 1) = Some calm_vm" by (simp add: calm_registered bt_get_def)
  have "rp_status rep = 409"
    using run vm by (auto simp: migrate_send_def send_registered_def calm_query calm_deps_def registry_take_def Let_def
        calm_stands_down reply_text_def)
  moreover have "streams_keep (\<lambda>_. True) (os_streams calm_os)" by (simp add: streams_keep_def preserves_def)
  from migrate_send_outcomes [OF calm_show_inj calm_reachable vm calm_query _ this _ run]
  have "rp_status rep = 409 \<longrightarrow> h' = ?h \<lparr> h_os := h_os h' \<rparr>" by (auto simp: calm_deps_def)
  ultimately have "h_vms h' = h_vms ?h" by (metis host.select_convs(6) host.surjective host.update_convs(1))
  with run \<open>rp_status rep = 409\<close> show ?thesis by (simp add: calm_registered)
qed

end
