(* ===== verification/Daemon_Steps.thy ===== *)
theory Daemon_Steps
  imports Host_Daemon
begin

text \<open>
  The requests of one daemon interleaved. Every handler runs as a task of its own, and the registry's
  lock is held only for one operation at a time, so a state is the host together with the migrations in
  flight: the VMs that \<open>send_registered\<close> has taken and not yet put back or torn down. Between the
  operations on the registry anything can happen to the system and to the counters that the relation
  \<open>same\<close> allows. \<open>w0\<close> is the system when the daemon starts.
\<close>

type_synonym 'w daemon = "'w host \<times> (running_vm \<times> string) list"

definition owned :: "'w daemon \<Rightarrow> vm_id list" where
  "owned d = map fst (h_vms (fst d)) @ map (rv_id \<circ> fst) (snd d)"

text \<open>What a finished migration does to the registry, as \<open>send_registered\<close> goes on.\<close>

definition finish_send :: "('w, 'h) host_os \<Rightarrow> (migrate_error + migrate_outcome) \<times> 'w host \<Rightarrow> 'w host" where
  "finish_send os rh =
     (case rh of
        (Inr (Moved t), h) \<Rightarrow> h
      | (Inr (StoodDown vm), h) \<Rightarrow> registry_insert os vm h
      | (Inl e, h) \<Rightarrow> meter migration_failed h)"

text \<open>
  A handler runs inside its connection's task, and \<open>hyper\<close> drops it where it waits when the client closes
  the connection. A migration that is dropped drops the VM it took, and of that only the Firecracker
  process has a destructor.
\<close>

definition drop_running :: "('w, 'h) host_os \<Rightarrow> running_vm \<Rightarrow> 'w host \<Rightarrow> 'w host" where
  "drop_running os vm h = do_os (\<lambda>w. snd (fc_process_kill os (rv_proc vm) w)) h"

inductive daemon_step :: "('w, 'h) host_os \<Rightarrow> ('w \<Rightarrow> 'w \<Rightarrow> bool) \<Rightarrow> 'w daemon \<Rightarrow> 'w daemon \<Rightarrow> bool" for os same where
  step_spawn: "fst (os_fresh_uuid os (h_os h)) \<notin> set (owned (h, fl)) \<Longrightarrow>
    registry_spawn os art mib networked h = (r, h') \<Longrightarrow> daemon_step os same (h, fl) (h', fl)"
| step_take: "registry_take os i h = (Some vm, h') \<Longrightarrow> daemon_step os same (h, fl) (h', (vm, dest) # fl)"
| step_finish: "migrate_running os vm dest h = (r, h') \<Longrightarrow>
    daemon_step os same (h, xs @ (vm, dest) # ys) (finish_send os (r, h'), xs @ ys)"
| step_cancel: "daemon_step os same (h, xs @ (vm, dest) # ys) (drop_running os vm h, xs @ ys)"
| step_restored: "restore_register os bin l h = (Inr vm, h') \<Longrightarrow> rv_id vm \<notin> set (owned (h, fl)) \<Longrightarrow>
    daemon_step os same (h, fl) (registry_insert os vm h', fl)"
| step_restore_failed: "restore_register os bin l h = (Inl e, h') \<Longrightarrow> daemon_step os same (h, fl) (h', fl)"
| step_source: "migrate_source os art dest h = (r, h') \<Longrightarrow> daemon_step os same (h, fl) (h', fl)"
| step_remove: "registry_remove os i h = (b, h') \<Longrightarrow> daemon_step os same (h, fl) (h', fl)"
| step_other: "h_vms h' = h_vms h \<Longrightarrow> h_host h' = h_host h \<Longrightarrow>
    mt_vm_info (h_metrics h') = mt_vm_info (h_metrics h) \<Longrightarrow> same (h_os h) (h_os h') \<Longrightarrow> daemon_step os same (h, fl) (h', fl)"

inductive_cases daemon_stepE: "daemon_step os same d d'"

inductive reachable_daemon :: "('w, 'h) host_os \<Rightarrow> ('w \<Rightarrow> 'w \<Rightarrow> bool) \<Rightarrow> 'w \<Rightarrow> 'w daemon \<Rightarrow> bool" for os same w0 where
  daemon_start: "reachable_daemon os same w0 (registry_new w0 host cls, [])"
| daemon_next: "reachable_daemon os same w0 d \<Longrightarrow> daemon_step os same d d' \<Longrightarrow> reachable_daemon os same w0 d'"

section \<open>The invariant\<close>

definition ids_ok :: "'w host \<Rightarrow> bool" where
  "ids_ok h \<longleftrightarrow> bt_ok (h_vms h) \<and> (\<forall>i vm. bt_get (h_vms h) i = Some vm \<longrightarrow> rv_id vm = i)"

definition one_place :: "'w daemon \<Rightarrow> bool" where
  "one_place d \<longleftrightarrow> ids_ok (fst d) \<and> distinct (owned d)"

lemma one_place_frame: "one_place (h, fl) \<Longrightarrow> h_vms h' = h_vms h \<Longrightarrow> one_place (h', fl)"
  by (simp add: one_place_def owned_def ids_ok_def)

lemma bt_keys_get: "i \<in> fst ` set m \<longleftrightarrow> bt_get m i \<noteq> None"
  by (simp add: bt_get_def map_of_eq_None_iff)

lemma owned_iff: "i \<in> set (owned (h, fl)) \<longleftrightarrow> bt_get (h_vms h) i \<noteq> None \<or> (\<exists>x \<in> set fl. i = rv_id (fst x))"
proof -
  have "i \<in> set (owned (h, fl)) \<longleftrightarrow> i \<in> fst ` set (h_vms h) \<or> i \<in> (rv_id \<circ> fst) ` set fl"
    by (simp add: owned_def)
  then show ?thesis by (simp only: bt_keys_get) auto
qed

lemma one_place_iff:
  "one_place (h, fl) \<longleftrightarrow> ids_ok h \<and> distinct (map (rv_id \<circ> fst) fl)
     \<and> (\<forall>x \<in> set fl. bt_get (h_vms h) (rv_id (fst x)) = None)"
proof -
  have "set (map fst (h_vms h)) \<inter> set (map (rv_id \<circ> fst) fl) = {}
      \<longleftrightarrow> (\<forall>x \<in> set fl. rv_id (fst x) \<notin> fst ` set (h_vms h))"
    by (simp only: set_map disjoint_iff image_iff o_apply) blast
  then have "distinct (owned (h, fl)) \<longleftrightarrow> distinct (map fst (h_vms h)) \<and> distinct (map (rv_id \<circ> fst) fl)
      \<and> (\<forall>x \<in> set fl. rv_id (fst x) \<notin> fst ` set (h_vms h))"
    by (simp only: owned_def fst_conv snd_conv distinct_append)
  moreover have "ids_ok h \<Longrightarrow> distinct (map fst (h_vms h))" by (simp add: ids_ok_def bt_ok_distinct)
  ultimately show ?thesis
    by (auto simp only: one_place_def fst_conv bt_keys_get)
qed

lemma ids_ok_put: "ids_ok h \<Longrightarrow> h_vms h' = bt_insert (rv_id vm) vm (h_vms h) \<Longrightarrow> ids_ok h'"
  by (auto simp: ids_ok_def bt_ok_insert bt_get_insert split: if_splits)

lemma ids_ok_drop: "ids_ok h \<Longrightarrow> h_vms h' = bt_remove i (h_vms h) \<Longrightarrow> ids_ok h'"
  by (auto simp: ids_ok_def bt_ok_remove bt_get_remove split: if_splits)

lemma one_place_put:
  assumes "one_place (h, fl)" "h_vms h' = bt_insert i vm (h_vms h)" "rv_id vm = i" "i \<notin> set (owned (h, fl))"
  shows "one_place (h', fl)"
  using assms ids_ok_put [OF _ assms(2) [folded assms(3)]] by (auto simp: one_place_iff owned_iff bt_get_insert)

lemma one_place_drop:
  assumes "one_place (h, fl)" "h_vms h' = bt_remove i (h_vms h)"
  shows "one_place (h', fl)"
  using assms ids_ok_drop [OF _ assms(2)] by (auto simp: one_place_iff bt_get_remove)

lemma one_place_take:
  assumes "one_place (h, fl)" "bt_get (h_vms h) i = Some vm" "h_vms h' = bt_remove i (h_vms h)"
  shows "one_place (h', (vm, dest) # fl)"
proof -
  have "rv_id vm = i" using assms(1,2) by (simp add: one_place_iff ids_ok_def)
  with assms ids_ok_drop [OF _ assms(3)] show ?thesis
    by (auto simp: one_place_iff bt_get_remove)
qed

lemma one_place_forget: "one_place (h, xs @ (vm, dest) # ys) \<Longrightarrow> one_place (h, xs @ ys) \<and> rv_id vm \<notin> set (owned (h, xs @ ys))"
  by (auto simp: one_place_def owned_def)

section \<open>What the operations do to the registry\<close>

lemma migrate_running_vms: "migrate_running os vm dest h = (r, h') \<Longrightarrow> h_vms h' = h_vms h"
proof -
  assume run: "migrate_running os vm dest h = (r, h')"
  show ?thesis
  proof (cases r)
    case (Inl e)
    with run migrate_running_failed show ?thesis by blast
  next
    case (Inr x)
    show ?thesis
    proof (cases x)
      case (Moved t)
      with run Inr migrate_running_moved show ?thesis by blast
    next
      case (StoodDown v)
      have "streams_keep (\<lambda>_. True) (os_streams os)" by (simp add: streams_keep_def preserves_def)
      from migrate_running_stood_down [OF this _ run [unfolded Inr StoodDown]]
      have "h' = h \<lparr> h_os := h_os h' \<rparr>" by simp
      from arg_cong [OF this, of h_vms] show ?thesis by simp
    qed
  qed
qed

lemma stood_down_same: "migrate_running os vm dest h = (Inr (StoodDown v), h') \<Longrightarrow> v = vm"
  using migrate_running_cases by fastforce


lemma finish_send_cases:
  assumes "migrate_running os vm dest h = (r, h1)"
  shows "h_vms (finish_send os (r, h1)) = h_vms h
    \<or> h_vms (finish_send os (r, h1)) = bt_insert (rv_id vm) vm (h_vms h)"
proof (cases r)
  case (Inl e)
  with migrate_running_vms [OF assms] show ?thesis by (simp add: finish_send_def meter_def)
next
  case (Inr x)
  with migrate_running_vms [OF assms] stood_down_same [of os vm dest h _ h1] assms show ?thesis
    by (cases x) (auto simp: finish_send_def registry_defs)
qed

lemma replumb_keeps [keeps]: "keeps_vms (replumb_net os work)"
  unfolding keeps_vms_def replumb_net_def Let_def
  by (auto simp: do_os_def on_os_def io_ctx_def map_errE_def split: prod.splits sum.splits if_splits)

lemma restored_vsock_frame: "restored_vsock os work h = (p, h') \<Longrightarrow> h_vms h' = h_vms h \<and> h_host h' = h_host h \<and> h_metrics h' = h_metrics h"
  by (auto simp: restored_vsock_def Let_def on_os_def split: prod.splits sum.splits if_splits)

lemma resume_restored_keeps [keeps]: "keeps_vms (resume_restored os work t p net)"
  unfolding keeps_vms_def resume_restored_def Let_def
  by (auto simp: do_os_def on_os_def split: prod.splits sum.splits option.splits dest!: restored_vsock_frame)

lemma uffd_thread_keeps [keeps]: "keeps_vms (uffd_thread os x mem)"
  by (auto simp: keeps_vms_def uffd_thread_def split: prod.splits)

lemma restore_into_keeps: "keeps_vms (restore_into os bin l work)"
  unfolding restore_into_def by (intro keeps)

lemma receive_and_restore_frame:
  assumes "receive_and_restore os bin l h = (r, h')"
  shows "h_vms h' = h_vms h \<and> h_host h' = h_host h \<and> h_metrics h' = h_metrics h"
proof -
  obtain work h1 where w: "work_dir os ''tgt'' h = (work, h1)" by fastforce
  then have "restore_into os bin l work h1 = (r, h')" using assms by (simp add: receive_and_restore_def)
  from keepsD [OF restore_into_keeps this] w show ?thesis by (auto simp: work_dir_def)
qed

section \<open>One place\<close>

lemma step_one_place: "daemon_step os same d d' \<Longrightarrow> one_place d \<Longrightarrow> one_place d'"
proof (induction rule: daemon_step.induct)
  case (step_spawn h fl art mib networked r h')
  from registry_spawn_vms [OF step_spawn.hyps(2)] step_spawn show ?case
    by (auto simp: Let_def intro: one_place_frame one_place_put)
next
  case (step_take i h vm h' fl dest)
  then show ?case
    by (auto simp: registry_defs intro!: one_place_take split: option.splits)
next
  case (step_finish vm dest h r h' xs ys)
  from one_place_forget [OF step_finish.prems] finish_send_cases [OF step_finish.hyps] show ?case
    by (auto intro: one_place_frame one_place_put)
next
  case (step_cancel h xs vm dest ys)
  from one_place_forget [OF step_cancel.prems] show ?case
    by (auto intro: one_place_frame simp: drop_running_def do_os_def)
next
  case (step_restored bin l h vm h' fl)
  from receive_and_restore_frame [OF step_restored.hyps(1) [unfolded restore_register_def]] step_restored show ?case
    by (auto simp: registry_defs intro: one_place_put)
next
  case (step_restore_failed bin l h e h' fl)
  from receive_and_restore_frame [OF step_restore_failed.hyps [unfolded restore_register_def]] step_restore_failed.prems
  show ?case by (auto intro: one_place_frame)
next
  case (step_source art dest h r h' fl)
  from migrate_source_frame [OF step_source.hyps] step_source.prems show ?case by (auto intro: one_place_frame)
next
  case (step_remove i h b h' fl)
  then show ?case
    by (auto simp: registry_defs intro: one_place_drop split: option.splits)
qed (rule one_place_frame)

lemma reachable_one_place: "reachable_daemon os same w0 d \<Longrightarrow> one_place d"
proof (induction rule: reachable_daemon.induct)
  case (daemon_start host cls)
  show ?case by (simp add: one_place_iff ids_ok_def registry_new_def meter_def bt_get_def)
qed (rule step_one_place)

text \<open>
  C11. A VM is in one place. However the requests of a daemon interleave, with restores finishing, VMs
  being spawned and removed, any number of migrations in flight and clients hanging up on them, no VM is registered twice, in flight
  twice, or both registered and in flight; every VM is registered under its own id; and a
  request to send a VM that is already in flight is refused with 404.
\<close>

theorem vm_in_one_place:
  assumes "reachable_daemon os same w0 (h, fl)"
  shows "distinct (map fst (h_vms h) @ map (rv_id \<circ> fst) fl)
    \<and> (\<forall>i vm. bt_get (h_vms h) i = Some vm \<longrightarrow> rv_id vm = i)
    \<and> (\<forall>x \<in> set fl. dd_parse_vm dd s = Inr (rv_id (fst x)) \<longrightarrow> rp_status (fst (send_registered dd os s dest h)) = 404)"
proof -
  have one: "one_place (h, fl)" by (rule reachable_one_place [OF assms])
  then have "\<forall>x \<in> set fl. bt_get (h_vms h) (rv_id (fst x)) = None" by (simp add: one_place_iff)
  then have "\<forall>x \<in> set fl. dd_parse_vm dd s = Inr (rv_id (fst x)) \<longrightarrow> rp_status (fst (send_registered dd os s dest h)) = 404"
    by (auto simp: send_registered_def registry_take_def Let_def reply_text_def)
  with one show ?thesis by (simp add: one_place_def owned_def ids_ok_def)
qed

text \<open>
  A client that hangs up in the middle of a migration loses the VM: it is in no registry and in no
  migration, its process is dead, and the gauges and the tap are as they were.
\<close>

lemma cancel_loses_vm:
  assumes "reachable_daemon os same w0 (h, xs @ (vm, dest) # ys)"
  shows "rv_id vm \<notin> set (owned (drop_running os vm h, xs @ ys))
    \<and> h_metrics (drop_running os vm h) = h_metrics h \<and> h_os (drop_running os vm h) = snd (fc_process_kill os (rv_proc vm) (h_os h))"
proof -
  have "owned (drop_running os vm h, xs @ ys) = owned (h, xs @ ys)"
    by (simp add: owned_def drop_running_def do_os_def)
  with one_place_forget [OF reachable_one_place [OF assms]] show ?thesis by (simp add: drop_running_def do_os_def)
qed

text \<open>On the calm system a VM boots, is registered and is taken for a migration.\<close>

lemma calm_fc: "os_fc (calm_world start stop) s = \<lparr> fx_exchange = (\<lambda>_. okE \<lparr> rs_status = 204, rs_body = Inr [] \<rparr>),
    fx_to_vec = (\<lambda>_. Inr []), fx_from_slice = (\<lambda>_. None), fx_lossy = id \<rparr>"
  by (simp add: calm_world_def)

lemma calm_send: "fc_send (os_fc (calm_world start stop) s) m p b op w = (Inr (), w)"
  by (simp add: fc_send_def calm_fc)

lemma calm_boot: "boot_guest (calm_world start stop) art sock mib args uds None h = (Inr (), h)"
proof -
  have json: "send_json (os_fc (calm_world start stop) s) m p v op w = (Inr (), w)" for s m p v op w
    using calm_send by (simp add: send_json_def json_body_def calm_fc bindE_def)
  show ?thesis
    by (simp add: boot_guest_def Let_def seqE_def bindE_def fc_do_def map_errE_def on_os_def firecracker_api_def
        fc_configure_machine_def fc_configure_boot_source_def fc_configure_drive_def fc_configure_vsock_def fc_boot_def
        json calm_send)
qed

lemma calm_process:
  "start w = (Inr p, w') \<Longrightarrow> fc_process_spawn (calm_world start stop) bin sock log_file w = (Inr p, w')"
  by (simp add: fc_process_spawn_def wait_for_socket.simps calm_world_def)

lemma calm_secrets: "boot_secrets (os_env (calm_world start stop)) = None"
  by (simp add: boot_secrets_def calm_world_def)

lemma calm_spawn:
  assumes "start (h_os h) = (Inr p, w')"
  shows "\<exists>vm h'. registry_spawn (calm_world start stop) art mib False h = (Inr (VmId 1), h')
     \<and> h_vms h' = bt_insert (VmId 1) vm (h_vms h) \<and> rv_id vm = VmId 1 \<and> rv_proc vm = p \<and> h_os h' = w'"
proof -
  have "os_fresh_uuid (calm_world start stop) w = (VmId 1, w)" "os_create_dir_all (calm_world start stop) path = okE ()" for w path
    by (simp_all add: calm_world_def)
  then show ?thesis using calm_process [of start "h_os h", OF assms]
    by (intro exI [of _ "\<lparr> rv_id = VmId 1, rv_proc = p, rv_fc = _, rv_work = _, rv_vsock_uds = _, rv_mib = mib,
        rv_uffd = None, rv_net = None \<rparr>"])
      (simp add: registry_spawn_def Let_def seqE_def bindE_def plumb_net_def io_ctx_def map_errE_def on_os_def
        calm_boot dropping_def deliver_secrets_def calm_secrets gauge_present_def meter_def)
qed

lemma vm_in_one_place_witness:
  "\<exists>h vm. reachable_daemon calm_os (\<lambda>_ _. True) () (h, [(vm, ''b'')]) \<and> rp_status (fst (send_registered calm_deps calm_os ''1'' ''c'' h)) = 404"
proof -
  obtain art :: artifacts where True by simp
  obtain vm h where spawn: "registry_spawn calm_os art 1 False calm_host = (Inr (VmId 1), h)"
    and vms: "h_vms h = bt_insert (VmId 1) vm (h_vms calm_host)" and id: "rv_id vm = VmId 1"
    using calm_spawn [of "okE 7" calm_host] unfolding calm_os_def by fastforce
  have empty: "h_vms calm_host = []" by (simp add: calm_host_def registry_new_def meter_def)
  have "reachable_daemon calm_os (\<lambda>_ _. True) () (calm_host, [])" unfolding calm_host_def by (rule daemon_start)
  moreover have "daemon_step calm_os (\<lambda>_ _. True) (calm_host, []) (h, [])"
    by (rule step_spawn [OF _ spawn]) (simp add: owned_def empty)
  moreover obtain h' where "registry_take calm_os (VmId 1) h = (Some vm, h')"
    by (simp add: registry_take_def Let_def vms bt_get_insert)
  then have "daemon_step calm_os (\<lambda>_ _. True) (h, []) (h', [(vm, ''b'')])" by (rule step_take)
  ultimately have reach: "reachable_daemon calm_os (\<lambda>_ _. True) () (h', [(vm, ''b'')])" by (blast intro: daemon_next)
  from vm_in_one_place [OF reach, where dd = calm_deps and s = "''1''" and dest = "''c''"] id
  have "rp_status (fst (send_registered calm_deps calm_os ''1'' ''c'' h')) = 404" by (simp add: calm_deps_def)
  with reach show ?thesis by blast
qed

end
