(* ===== verification/Process_Accounts.thy ===== *)
theory Process_Accounts
  imports Daemon_Steps "HOL-Library.Multiset"
begin

text \<open>
  The Firecracker processes of a daemon. \<open>procs\<close> reads off the outside world the child processes that were
  started and not yet killed; every operation is shown to account for them, failures included, and a daemon
  owns exactly those its registry and its migrations in flight hold.
\<close>

text \<open>Only \<open>os_spawn\<close> and \<open>os_kill\<close> change the set, and a process that starts is new.\<close>

definition tracks :: "('w, 'h) host_os \<Rightarrow> ('w \<Rightarrow> nat set) \<Rightarrow> bool" where
  "tracks os procs \<longleftrightarrow> (\<forall>S. os_keeps (\<lambda>w. procs w = S) os)
     \<and> (\<forall>bin args out S. holds (\<lambda>w. procs w = S) (os_spawn os bin args out) (\<lambda>w. procs w = S) (\<lambda>p w. p \<notin> S \<and> procs w = insert p S))
     \<and> (\<forall>p w. procs (os_kill os p w) = procs w - {p})"

abbreviation owns :: "('w \<Rightarrow> nat set) \<Rightarrow> nat set \<Rightarrow> 'w host \<Rightarrow> bool" where
  "owns procs S h \<equiv> procs (h_os h) = S"

abbreviation started :: "('w \<Rightarrow> nat set) \<Rightarrow> nat set \<Rightarrow> nat \<Rightarrow> 'w host \<Rightarrow> bool" where
  "started procs S p h \<equiv> p \<notin> S \<and> procs (h_os h) = insert p S"

lemma tracks_keeps: "tracks os procs \<Longrightarrow> os_keeps (\<lambda>w. procs w = S) os"
  by (simp add: tracks_def)

lemma tracks_spawn:
  "tracks os procs \<Longrightarrow>
     holds (\<lambda>w. procs w = S) (os_spawn os bin args out) (\<lambda>w. procs w = S) (\<lambda>p w. p \<notin> S \<and> procs w = insert p S)"
  by (simp add: tracks_def)

lemma tracks_kill: "tracks os procs \<Longrightarrow> procs (snd (fc_process_kill os p w)) = procs w - {p}"
proof -
  assume t: "tracks os procs"
  obtain r w' where w: "os_wait os p (os_kill os p w) = (r, w')" by fastforce
  have "procs (os_kill os p w) = procs w - {p}" using t by (simp add: tracks_def)
  with preservesD [OF os_keeps_effects(6) [OF tracks_keeps [OF t]] _ w] w show ?thesis by (simp add: fc_process_kill_def)
qed

section \<open>Starting a process\<close>

lemma wait_for_socket_keeps:
  assumes "os_keeps Q os"
  shows "preserves Q (wait_for_socket os n p sock)"
proof -
  have "Q w \<Longrightarrow> wait_for_socket os n p sock w = (r, w') \<Longrightarrow> Q w'" for w r w'
  proof (induction n arbitrary: w)
    case 0
    with preservesD [OF os_keeps_effects(5) [OF assms] 0(1)] show ?case
      by (auto simp: wait_for_socket.simps [of os 0] split: if_splits prod.splits sum.splits option.splits)
  next
    case (Suc n)
    with preservesD [OF os_keeps_effects(5) [OF assms] Suc.prems(1)] show ?case
      by (auto simp: wait_for_socket.simps [of os "Suc n"] split: if_splits prod.splits sum.splits option.splits)
  qed
  then show ?thesis by (simp add: preserves_def)
qed

lemma process_spawn_counts:
  assumes t: "tracks os procs"
  shows "holds (\<lambda>w. procs w = S) (fc_process_spawn os bin sock out) (\<lambda>w. procs w = S) (\<lambda>p w. p \<notin> S \<and> procs w = insert p S)"
proof (rule holdsI)
  fix w r w'
  assume w: "procs w = S" and run: "fc_process_spawn os bin sock out w = (r, w')"
  note k = tracks_keeps [OF t]
  obtain x w1 where x: "os_create_file os out (os_remove_file os sock w) = (x, w1)" by fastforce
  have w1: "procs w1 = S"
    by (rule preservesD [OF os_keeps_effects(2) [OF k] _ x]) (rule os_keeps_steps(2) [OF k w])
  show "case r of Inl _ \<Rightarrow> procs w' = S | Inr p \<Rightarrow> p \<notin> S \<and> procs w' = insert p S"
  proof (cases x)
    case (Inl e)
    with run x w1 show ?thesis by (auto simp: fc_process_spawn_def Let_def)
  next
    case (Inr u)
    obtain y w2 where y: "os_spawn os bin [''--api-sock'', sock] out w1 = (y, w2)" by fastforce
    show ?thesis
    proof (cases y)
      case (Inl e)
      with run x \<open>x = Inr u\<close> y holds_Inl [OF tracks_spawn [OF t] w1] show ?thesis by (auto simp: fc_process_spawn_def Let_def)
    next
      case (Inr p)
      with y holds_Inr [OF tracks_spawn [OF t] w1] have p: "p \<notin> S" "procs w2 = insert p S" by blast+
      obtain z w3 where z: "wait_for_socket os (os_socket_polls os) p sock w2 = (z, w3)" by fastforce
      have w3: "procs w3 = insert p S" by (rule preservesD [OF wait_for_socket_keeps [OF k] p(2) z])
      show ?thesis
      proof (cases z)
        case (Inl e)
        with run x \<open>x = Inr u\<close> y Inr z have "r = Inl e" "w' = snd (fc_process_kill os p w3)"
          by (auto simp: fc_process_spawn_def Let_def)
        with w3 p(1) tracks_kill [OF t] show ?thesis by simp
      next
        case (Inr v)
        with run x \<open>x = Inr u\<close> y \<open>y = Inr p\<close> z w3 p(1) show ?thesis by (auto simp: fc_process_spawn_def Let_def)
      qed
    qed
  qed
qed

lemma dropping_counts:
  assumes t: "tracks os procs" and m: "preserves (owns procs (insert p S)) m"
  shows "holds (started procs S p) (dropping os p m) (owns procs S) (\<lambda>_. started procs S p)"
proof (rule holdsI)
  fix h r h'
  assume h: "started procs S p h" and run: "dropping os p m h = (r, h')"
  obtain x h1 where x: "m h = (x, h1)" by fastforce
  then have "owns procs (insert p S) h1" using preservesD [OF m] h by blast
  with run x h tracks_kill [OF t] show "case r of Inl _ \<Rightarrow> owns procs S h' | Inr _ \<Rightarrow> started procs S p h'"
    by (cases x) (auto simp: dropping_def do_os_def)
qed

section \<open>Booting\<close>

lemma boot_guest_keeps [preserved]: "os_keeps Q os \<Longrightarrow> preserves (\<lambda>h. Q (h_os h)) (boot_guest os art s mib args uds net)"
  unfolding boot_guest_def Let_def by (auto intro!: preserved split: option.split)

lemma deliver_keeps [preserved]: "os_keeps Q os \<Longrightarrow> preserves (\<lambda>h. Q (h_os h)) (deliver_secrets os uds)"
  unfolding deliver_secrets_def by (auto intro!: preserved split: option.split)

lemma plumb_keeps [preserved]:
  assumes "os_keeps Q os"
  shows "preserves (\<lambda>h. Q (h_os h)) (plumb_net os b)"
proof (unfold preserves_def, intro allI impI)
  fix h r h'
  assume "Q (h_os h)" "plumb_net os b h = (r, h')"
  with preservesD [OF preserves_lift [OF net_create_keeps [OF assms]], of "h \<lparr> h_net_seq := h_net_seq h + 1 \<rparr>"]
  show "Q (h_os h')" by (auto simp: plumb_net_def Let_def split: if_splits prod.splits sum.splits)
qed

lemma spawn_counts:
  assumes t: "tracks os procs" and S: "owns procs S h" and run: "registry_spawn os art mib networked h = (r, h')"
  shows "case r of
      Inl _ \<Rightarrow> owns procs S h'
    | Inr i \<Rightarrow> \<exists>vm. bt_get (h_vms h') i = Some vm \<and> started procs S (rv_proc vm) h'"
proof -
  note k = tracks_keeps [OF t]
  obtain i w where iw: "os_fresh_uuid os (h_os h) = (i, w)" by fastforce
  have w: "procs w = S" using os_keeps_steps(7) [OF k S] iw by simp
  let ?h = "h \<lparr> h_os := w, h_spawn_seq := h_spawn_seq h + 1 \<rparr>"
  have "holds (owns procs S)
      (seqE (io_ctx c (os_create_dir_all os work))
        (bindE (plumb_net os networked) (\<lambda>net.
          bindE (io_ctx c' (fc_process_spawn os bin sock out)) (\<lambda>p.
            seqE (dropping os p (seqE (boot_guest os art sock mib (args net) uds net) (deliver_secrets os uds)))
              (\<lambda>h. (Inr i, gauge_present os i net (h \<lparr> h_vms := bt_insert i (vm p net) (h_vms h) \<rparr>)))))))
      (owns procs S) (\<lambda>i h. \<exists>vm. bt_get (h_vms h) i = Some vm \<and> started procs S (rv_proc vm) h)"
    if "\<And>p net. rv_proc (vm p net) = p" for c work c' bin sock out args uds vm
    apply (rule holds_seq [OF holds_preserves [OF preserves_io_ctx [OF os_keeps_effects(1) [OF k]]]])
    apply (rule holds_bind [OF holds_preserves [OF plumb_keeps [OF k]]])
    apply (rule holds_bind [OF holds_io_ctx [OF process_spawn_counts [OF t]]])
    apply (rule holds_seq [OF dropping_counts [OF t]])
     apply (intro preserved k)
    apply (rule holdsI)
    apply (auto simp: that gauge_present_def meter_def bt_get_insert)
    done
  from holdsD [OF this, of "\<lambda>p net. \<lparr> rv_id = i, rv_proc = p, rv_fc = _, rv_work = _, rv_vsock_uds = _, rv_mib = mib,
      rv_uffd = None, rv_net = net \<rparr>" ?h] w run iw
  show ?thesis unfolding registry_spawn_def Let_def by simp
qed

section \<open>Migrating\<close>

lemma drain_guest_keeps_world [preserved]: "os_keeps Q os \<Longrightarrow> preserves (\<lambda>h. Q (h_os h)) (drain_guest os vm)"
  unfolding drain_guest_def Let_def by (auto intro!: preserved split: option.split)

lemma write_metadata_keeps_world [preserved]: "os_keeps Q os \<Longrightarrow> preserves (\<lambda>h. Q (h_os h)) (write_metadata os vm)"
  unfolding write_metadata_def Let_def by (auto intro!: preserved split: option.split sum.split)

lemma preserves_value [preserved]: "preserves Q (\<lambda>h. (Inr (f h), h))"
  by (simp add: preserves_def)

lemma snapshot_and_send_keeps_world [preserved]:
  assumes "os_keeps Q os"
  shows "preserves (\<lambda>h. Q (h_os h)) (snapshot_and_send os sock work addr extra)"
proof (unfold preserves_def, intro allI impI)
  fix h r h'
  assume Q: "Q (h_os h)" and run: "snapshot_and_send os sock work addr extra h = (r, h')"
  note D = preservesD [OF preserves_fc_do [OF firecracker_keeps(7) [OF assms]], rotated]
    preservesD [OF preserves_fc_do [OF firecracker_keeps(9) [OF assms]], rotated]
    preservesD [OF preserves_lift [OF send_snapshot_keeps [OF assms]], rotated]
  from run Q show "Q (h_os h')"
    by (cases r) (auto simp: snapshot_and_send_def Let_def eff_iffs dest!: D)
qed

lemma option_keeps: "Q w \<Longrightarrow> (\<And>x. Q w \<Longrightarrow> Q (f x w)) \<Longrightarrow> Q (case v of Some x \<Rightarrow> f x w | None \<Rightarrow> w)"
  by (cases v) auto

lemma teardown_counts:
  assumes t: "tracks os procs"
  shows "procs (teardown os vm w) = procs w - {rv_proc vm}"
proof -
  let ?Q = "\<lambda>w'. procs w' = procs w - {rv_proc vm}"
  have k: "os_keeps ?Q os" by (rule tracks_keeps [OF t])
  note keep = os_keeps_steps [OF k] destroy_tap_keeps [OF k]
  let ?w1 = "snd (fc_process_kill os (rv_proc vm) w)"
  let ?w2 = "case rv_uffd vm of Some i \<Rightarrow> os_uffd_stop_join os i ?w1 | None \<Rightarrow> ?w1"
  let ?w3 = "case rv_net vm of Some n \<Rightarrow> destroy_tap (os_ip os) (net_tap n) ?w2 | None \<Rightarrow> ?w2"
  have "?Q ?w1" by (rule tracks_kill [OF t])
  then have "?Q ?w2" by (rule option_keeps) (rule keep)
  then have "?Q ?w3" by (rule option_keeps) (rule keep)
  then have "?Q (os_remove_file os (rv_vsock_uds vm) (os_remove_dir_all os (rv_work vm) ?w3))" by (intro keep)
  then show ?thesis by (simp only: teardown_def Let_def)
qed

lemma migrate_running_counts:
  assumes t: "tracks os procs" and S: "owns procs S h" and run: "migrate_running os vm addr h = (r, h')"
  shows "case r of Inr (StoodDown v) \<Rightarrow> owns procs S h' | _ \<Rightarrow> owns procs (S - {rv_proc vm}) h'"
proof -
  note k = tracks_keeps [OF t]
  obtain d h1 where d: "drain_guest os vm h = (d, h1)" by fastforce
  have h1: "owns procs S h1" by (rule preservesD [OF drain_guest_keeps_world [OF k] S d])
  obtain m h2 where m: "write_metadata os vm h1 = (m, h2)" by fastforce
  have h2: "owns procs S h2" by (rule preservesD [OF write_metadata_keeps_world [OF k] h1 m])
  have send: "owns procs S h3" if "snapshot_and_send os (rv_fc vm) (rv_work vm) addr extra h2 = (x, h3)" for extra x h3
    by (rule preservesD [OF snapshot_and_send_keeps_world [OF k] h2 that])
  have torn: "owns procs (S - {rv_proc vm}) (do_os (teardown os vm) h4)" if "owns procs S h4" for h4
    using that teardown_counts [OF t] by (simp add: do_os_def)
  have metered: "owns procs S (meter f h4)" if "owns procs S h4" for f h4 using that by (simp add: meter_def)
  show ?thesis
  proof (cases r)
    case (Inl e)
    with migrate_running_cases [OF run] d m obtain h4 where h': "h' = do_os (teardown os vm) h4"
      and "h4 = h2 \<or> (\<exists>x h3 extra. snapshot_and_send os (rv_fc vm) (rv_work vm) addr extra h2 = (x, h3) \<and> h4 = meter migration_failed h3)"
      by auto
    with h2 metered send have "owns procs S h4" by blast
    with torn h' Inl show ?thesis by simp
  next
    case (Inr out)
    show ?thesis
    proof (cases out)
      case (Moved tm)
      with migrate_running_cases [OF run] d m Inr obtain f extra x h3 where
        h': "h' = do_os (teardown os vm) (meter f h3)" and "snapshot_and_send os (rv_fc vm) (rv_work vm) addr extra h2 = (x, h3)"
        by auto
      with torn [OF metered [OF send]] Inr Moved show ?thesis by simp
    next
      case (StoodDown v)
      with migrate_running_cases [OF run] d h1 Inr show ?thesis by auto
    qed
  qed
qed

lemma boot_source_keeps_world [preserved]:
  assumes "os_keeps Q os"
  shows "preserves (\<lambda>h. Q (h_os h)) (boot_source_vm os art sock)"
proof -
  have "preserves (\<lambda>h. Q (h_os h)) (\<lambda>h. (Inr (), h \<lparr> h_migrate_seq := n + 1 \<rparr>))" for n by (simp add: preserves_def)
  then have "preserves (\<lambda>h. Q (h_os h))
      (seqE (fc_do (fa_configure_machine (firecracker_api (os_fc os sock)) mc))
       (seqE (fc_do (fa_configure_boot_source (firecracker_api (os_fc os sock)) bs))
        (seqE (fc_do (fa_configure_drive (firecracker_api (os_fc os sock)) dc))
         (seqE (\<lambda>h. (Inr (), h \<lparr> h_migrate_seq := n + 1 \<rparr>))
          (seqE (fc_do (fa_configure_vsock (firecracker_api (os_fc os sock)) vc))
           (seqE (fc_do (fa_boot (firecracker_api (os_fc os sock)))) (okE uds)))))))" for mc bs dc vc n uds
    by (intro preserved assms)
  note steps = this
  show ?thesis
  proof (unfold preserves_def, intro allI impI)
    fix h r h'
    assume "Q (h_os h)" "boot_source_vm os art sock h = (r, h')"
    from preservesD [OF steps this [unfolded boot_source_vm_def Let_def]] show "Q (h_os h')" .
  qed
qed

lemma source_cleanup_counts:
  assumes t: "tracks os procs"
  shows "procs (h_os (source_cleanup os p work uds h)) = procs (h_os h) - {p}"
proof -
  let ?Q = "\<lambda>w. procs w = procs (h_os h) - {p}"
  have k: "os_keeps ?Q os" by (rule tracks_keeps [OF t])
  have "?Q (snd (fc_process_kill os p (h_os h)))" by (rule tracks_kill [OF t])
  then have "?Q (os_remove_file os uds (os_remove_dir_all os work (snd (fc_process_kill os p (h_os h)))))"
    by (intro os_keeps_steps [OF k])
  then show ?thesis by (simp add: source_cleanup_def do_os_def)
qed

lemma drain_source_counts:
  assumes t: "tracks os procs"
  shows "holds (started procs S p) (drain_source os p work uds) (owns procs S) (\<lambda>_. started procs S p)"
proof (rule holdsI)
  fix h r h'
  assume h: "started procs S p h" and run: "drain_source os p work uds h = (r, h')"
  let ?net = "os_streams os" and ?at = "owns procs (insert p S)"
  have k: "os_keeps (\<lambda>w. procs w = insert p S) os" by (rule tracks_keeps [OF t])
  have abort: "owns procs S (source_cleanup os p work uds h)" if "?at h" for h
    using that h source_cleanup_counts [OF t] by simp
  have shake: "preserves ?at (on_os (link_handshake (link_send ?net s) (link_recv ?net s) []))" for s
    by (intro preserved k)
  have "preserves (\<lambda>w. procs w = insert p S) (link_drain (link_send ?net s) (link_recv ?net s) n d)" for s n d
    unfolding link_drain_def by (intro preserved k)
  then have drain: "preserves ?at (on_os (link_drain (link_send ?net s) (link_recv ?net s) n d))" for s n d
    by (intro preserved)
  have conn: "preserves ?at (on_os (connect_vsock_retry ?net n uds port))" for n port by (intro preserved k)
  from run h show "case r of Inl _ \<Rightarrow> owns procs S h' | Inr _ \<Rightarrow> started procs S p h'"
    by (auto simp: drain_source_def Let_def split: prod.splits sum.splits drain_state.splits
        dest!: preservesD [OF conn, rotated] preservesD [OF shake, rotated] preservesD [OF drain, rotated] intro!: abort)
qed

lemma migrate_source_counts:
  assumes t: "tracks os procs" and S: "owns procs S h" and run: "migrate_source os art addr h = (r, h')"
  shows "owns procs S h'"
proof -
  note k = tracks_keeps [OF t]
  obtain work h1 where w: "work_dir os ''src'' h = (work, h1)" by fastforce
  then have h1: "owns procs S h1" using S by (auto simp: work_dir_def)
  have finish: "holds (started procs S p) (\<lambda>h. (Inr a, meter (f a) (source_cleanup os p work uds h))) (owns procs S) (\<lambda>_. owns procs S)"
    for p a f uds
    by (rule holdsI) (auto simp: meter_def source_cleanup_counts [OF t])
  have "holds (owns procs S)
      (seqE (io_ctx c (os_create_dir_all os work))
       (bindE (io_ctx c' (fc_process_spawn os bin sock out)) (\<lambda>p.
         bindE (dropping os p (boot_source_vm os art sock)) (\<lambda>vsock_uds.
          seqE (drain_source os p work vsock_uds)
           (bindE (dropping os p (snapshot_and_send os sock work addr []))
             (\<lambda>timing h. (Inr timing, meter (f timing) (source_cleanup os p work vsock_uds h))))))))
      (owns procs S) (\<lambda>_. owns procs S)" for c c' bin sock out f
    apply (rule holds_seq [OF holds_preserves [OF preserves_io_ctx [OF os_keeps_effects(1) [OF k]]]])
    apply (rule holds_bind [OF holds_io_ctx [OF process_spawn_counts [OF t]]])
    apply (rule holds_bind [OF dropping_counts [OF t boot_source_keeps_world [OF k]]])
    apply (rule holds_seq [OF drain_source_counts [OF t]])
    apply (rule holds_bind [OF dropping_counts [OF t snapshot_and_send_keeps_world [OF k]]])
    apply (rule finish)
    done
  from holdsD [OF this h1] run w show ?thesis
    unfolding migrate_source_def by (cases r) (auto simp: Let_def)
qed

section \<open>Restoring\<close>

lemma replumb_keeps_world:
  assumes "os_keeps Q os"
  shows "preserves (\<lambda>h. Q (h_os h)) (replumb_net os work)"
proof (unfold preserves_def, intro allI impI)
  fix h r h'
  assume Q: "Q (h_os h)" and run: "replumb_net os work h = (r, h')"
  note rd = preservesD [OF preserves_io_ctx [OF os_keeps_effects(4) [OF assms]], rotated]
    and tap = preservesD [OF preserves_lift [OF create_tap_keeps [OF assms]], rotated]
    and rm = os_keeps_steps(1) [OF assms]
  from run Q show "Q (h_os h')"
    by (auto simp: replumb_net_def Let_def do_os_def split: if_splits prod.splits sum.splits
        dest!: rd tap intro: rm)
qed

lemma uffd_thread_keeps_world: "os_keeps Q os \<Longrightarrow> preserves (\<lambda>h. Q (h_os h)) (uffd_thread os u m)"
  using os_keeps_steps(5) [of Q os _ u m]
  by (fastforce simp: preserves_def uffd_thread_def split: prod.splits)

lemma resume_restored_counts:
  assumes t: "tracks os procs"
  shows "holds (started procs S p) (resume_restored os work i p net) (owns procs S) (\<lambda>vm. started procs S (rv_proc vm))"
proof (rule holdsI)
  fix h r h'
  assume h: "started procs S p h" and run: "resume_restored os work i p net h = (r, h')"
  let ?Q = "\<lambda>w. procs w = insert p S"
  have k: "os_keeps ?Q os" by (rule tracks_keeps [OF t])
  let ?sock = "join_path work ''fc.sock''"
  obtain x h1 where x: "on_os (load_and_resume os ?sock work (join_path work ''uffd.sock'')) h = (x, h1)" by fastforce
  have "preserves ?Q (load_and_resume os ?sock work (join_path work ''uffd.sock''))"
    unfolding load_and_resume_def by (intro preserved k)
  from preservesD [OF preserves_lift [OF this] conjunct2 [OF h] x] have h1: "?Q (h_os h1)" .
  show "case r of Inl _ \<Rightarrow> owns procs S h' | Inr vm \<Rightarrow> started procs S (rv_proc vm) h'"
  proof (cases x)
    case (Inl e)
    let ?P = "\<lambda>w. procs w = S"
    have k': "os_keeps ?P os" by (rule tracks_keeps [OF t])
    note keep = os_keeps_steps [OF k'] destroy_tap_keeps [OF k']
    let ?w1 = "os_uffd_stop_join os i (snd (fc_process_kill os p (h_os h1)))"
    have "?P (snd (fc_process_kill os p (h_os h1)))" using tracks_kill [OF t] h1 h by simp
    then have "?P ?w1" by (rule keep)
    then have "?P (case net of Some n \<Rightarrow> destroy_tap (os_ip os) (net_tap n) ?w1 | None \<Rightarrow> ?w1)" by (rule option_keeps) (rule keep)
    then have "?P (restore_undo os p i net work (h_os h1))"
      unfolding restore_undo_def Let_def by (rule keep)
    moreover from run x Inl have "r = Inl (Me_Firecracker e)" "h' = do_os (restore_undo os p i net work) h1"
      by (auto simp: resume_restored_def Let_def)
    ultimately show ?thesis by (simp add: do_os_def)
  next
    case (Inr u)
    define h2 where "h2 = (case net of Some n \<Rightarrow> snd (on_os (announce (os_raw os) n) h1) | None \<Rightarrow> h1)"
    have "?Q (h_os (snd (on_os (announce (os_raw os) n) h1)))" for n
      by (rule preservesD [OF preserves_lift [OF announce_keeps [OF k]] h1, of n]) (rule prod.collapse [symmetric])
    with h1 have "?Q (h_os h2)" by (simp add: h2_def split: option.split)
    moreover obtain uds h3 where v: "restored_vsock os work h2 = (uds, h3)" by fastforce
    ultimately have "?Q (h_os h3)"
      using preservesD [OF preserves_lift [OF os_keeps_effects(4) [OF k]], of h2]
      by (auto simp: restored_vsock_def Let_def split: if_splits prod.splits sum.splits)
    then have "?Q (snd (os_fresh_uuid os (h_os h3)))" by (rule os_keeps_steps(7) [OF k])
    moreover from run x Inr v have "\<exists>vm. r = Inr vm \<and> rv_proc vm = p \<and> h' = h3 \<lparr> h_os := snd (os_fresh_uuid os (h_os h3)) \<rparr>"
      by (auto simp: resume_restored_def Let_def h2_def split: prod.splits)
    ultimately show ?thesis using h by auto
  qed
qed

lemma restore_counts:
  assumes t: "tracks os procs" and S: "owns procs S h" and run: "receive_and_restore os bin l h = (r, h')"
  shows "case r of Inl _ \<Rightarrow> owns procs S h' | Inr vm \<Rightarrow> started procs S (rv_proc vm) h'"
proof -
  note k = tracks_keeps [OF t]
  obtain work h1 where w: "work_dir os ''tgt'' h = (work, h1)" by fastforce
  then have h1: "owns procs S h1" using S by (auto simp: work_dir_def)
  have fail: "holds (owns procs S) (errE e) (owns procs S) R" for e :: migrate_error and R
    by (rule holdsI) (auto simp: errE_def)
  have "holds (owns procs S) (restore_into os bin l work) (owns procs S) (\<lambda>vm. started procs S (rv_proc vm))"
    unfolding restore_into_def
    apply (rule holds_seq [OF holds_preserves [OF preserves_io_ctx [OF os_keeps_effects(1) [OF k]]]])
    apply (rule holds_bind [OF holds_preserves [OF preserves_map_err [OF preserves_lift [OF recv_snapshot_keeps [OF k]]]]])
    apply (split if_split, intro conjI impI, rule fail)
    apply (rule holds_bind [OF holds_preserves [OF replumb_keeps_world [OF k]]])
    apply (rule holds_bind [OF holds_preserves [OF preserves_io_ctx [OF os_keeps_effects(13) [OF k]]]])
    apply (rule holds_bind [OF holds_preserves [OF uffd_thread_keeps_world [OF k]]])
    apply (rule holds_bind [OF holds_io_ctx [OF process_spawn_counts [OF t]]])
    apply (rule resume_restored_counts [OF t])
    done
  from holdsD [OF this h1] run w show ?thesis by (auto simp: receive_and_restore_def)
qed

section \<open>No orphans\<close>

text \<open>The processes of the VMs registered and of those in flight.\<close>

definition held :: "'w daemon \<Rightarrow> nat multiset" where
  "held d = image_mset (rv_proc \<circ> snd) (mset (h_vms (fst d))) + image_mset (rv_proc \<circ> fst) (mset (snd d))"

definition accounted :: "('w \<Rightarrow> nat set) \<Rightarrow> 'w daemon \<Rightarrow> bool" where
  "accounted procs d \<longleftrightarrow> finite (procs (h_os (fst d))) \<and> held d = mset_set (procs (h_os (fst d)))"

lemma accounted_same:
  "accounted procs (h, fl) \<Longrightarrow> h_vms h' = h_vms h \<Longrightarrow> procs (h_os h') = procs (h_os h) \<Longrightarrow> accounted procs (h', fl)"
  by (simp add: accounted_def held_def)

lemma mset_bt_remove: "bt_ok m \<Longrightarrow> bt_get m k = Some v \<Longrightarrow> mset m = add_mset (k, v) (mset (bt_remove k m))"
proof (induction m)
  case (Cons kv m)
  obtain k' v' where kv: "kv = (k', v')" by fastforce
  show ?case
  proof (cases "k' = k")
    case True
    have "k \<notin> fst ` set m" using bt_ok_distinct [OF Cons.prems(1)] kv True by simp
    then have "bt_remove k m = m" by (auto simp: bt_remove_def filter_id_conv)
    with True kv Cons.prems(2) show ?thesis by (simp add: bt_get_def bt_remove_def)
  next
    case False
    have "bt_ok m" using Cons.prems(1) by (simp add: bt_ok_def)
    with Cons False kv show ?thesis by (simp add: bt_get_def bt_remove_def)
  qed
qed (simp add: bt_get_def)

lemma bt_remove_fresh: "bt_get m k = None \<Longrightarrow> bt_remove k m = m"
  by (auto simp: bt_get_def bt_remove_def filter_id_conv map_of_eq_None_iff)

lemma mset_bt_insert: "bt_ok m \<Longrightarrow> bt_get m k = None \<Longrightarrow> mset (bt_insert k v m) = add_mset (k, v) (mset m)"
  using mset_bt_remove [OF bt_ok_insert, of m k v k v] bt.del_put [of m k v] by (simp add: bt_get_insert)

lemma mset_set_drop:
  assumes "finite S" "add_mset p M = mset_set S"
  shows "M = mset_set (S - {p})"
proof -
  have "p \<in> S" using assms by (metis union_single_eq_member finite_set_mset_mset_set)
  moreover have "M = mset_set S - {#p#}" by (simp flip: assms(2))
  ultimately show ?thesis using assms(1) by (simp add: mset_set_Diff)
qed

lemma accounted_start:
  assumes "accounted procs (h, fl)" "bt_ok (h_vms h)" "bt_get (h_vms h) (rv_id vm) = None"
    and "h_vms h' = bt_insert (rv_id vm) vm (h_vms h)" "started procs (procs (h_os h)) (rv_proc vm) h'"
  shows "accounted procs (h', fl)"
  using assms by (simp add: accounted_def held_def mset_bt_insert)

lemma step_accounted:
  assumes t: "tracks os procs"
  shows "daemon_step os (\<lambda>w w'. procs w' = procs w) d d' \<Longrightarrow> one_place d \<Longrightarrow> accounted procs d \<Longrightarrow> accounted procs d'"
proof (induction rule: daemon_step.induct)
  case (step_spawn h fl art mib networked r h')
  let ?i = "fst (os_fresh_uuid os (h_os h))"
  have fresh: "bt_get (h_vms h) ?i = None" using step_spawn.hyps(1) by (simp add: owned_iff)
  note c = spawn_counts [OF t refl step_spawn.hyps(2)]
  from registry_spawn_vms [OF step_spawn.hyps(2)] show ?case
  proof (elim disjE exE conjE)
    fix e assume "r = Inl e" "h_vms h' = h_vms h"
    with c step_spawn.prems(2) show ?thesis by (auto intro: accounted_same)
  next
    assume "let i = ?i in r = Inr i \<and> h_host h' = h_host h
       \<and> (\<exists>vm. rv_id vm = i \<and> h_vms h' = bt_insert i vm (h_vms h)
          \<and> h_metrics h' = vm_present (os_show_vm os i) (host_str (h_host h)) (vm_ip (rv_net vm)) (h_metrics h))"
    then obtain vm where vm: "r = Inr ?i" "rv_id vm = ?i" "h_vms h' = bt_insert ?i vm (h_vms h)" by (auto simp: Let_def)
    with c have "started procs (procs (h_os h)) (rv_proc vm) h'" by (auto simp: bt_get_insert)
    with vm fresh step_spawn.prems show ?thesis
      by (auto intro!: accounted_start [of procs h fl vm] simp: one_place_iff ids_ok_def)
  qed
next
  case (step_take i h vm h' fl dest)
  then have vm: "bt_get (h_vms h) i = Some vm" "h_vms h' = bt_remove i (h_vms h)" "h_os h' = h_os h"
    by (auto simp: registry_defs split: option.splits)
  have "bt_ok (h_vms h)" using step_take.prems by (simp add: one_place_iff ids_ok_def)
  with step_take.prems(2) vm show ?case by (simp add: accounted_def held_def mset_bt_remove)
next
  case (step_finish vm dest h r h' xs ys)
  let ?S = "procs (h_os h)"
  note c = migrate_running_counts [OF t refl step_finish.hyps] and vms = migrate_running_vms [OF step_finish.hyps]
  have acc: "finite ?S" "add_mset (rv_proc vm) (held (h, xs @ ys)) = mset_set ?S"
    using step_finish.prems(2) by (simp_all add: accounted_def held_def)
  then have gone: "held (h, xs @ ys) = mset_set (?S - {rv_proc vm})" by (rule mset_set_drop)
  show ?case
  proof (cases "\<exists>v. r = Inr (StoodDown v)")
    case True
    then obtain v where v: "r = Inr (StoodDown v)" by blast
    with step_finish.hyps have "v = vm" by (auto dest: stood_down_same)
    with v have fin: "h_vms (finish_send os (r, h')) = bt_insert (rv_id vm) vm (h_vms h)"
      "h_os (finish_send os (r, h')) = h_os h'"
      using vms by (auto simp: finish_send_def registry_defs)
    from one_place_forget [OF step_finish.prems(1)]
    have "bt_ok (h_vms h)" "bt_get (h_vms h) (rv_id vm) = None"
      by (auto simp: one_place_iff ids_ok_def owned_iff)
    with c v fin acc show ?thesis by (simp add: accounted_def held_def mset_bt_insert)
  next
    case False
    then have fin: "h_vms (finish_send os (r, h')) = h_vms h" "h_os (finish_send os (r, h')) = h_os h'"
      using vms by (auto simp: finish_send_def meter_def split: sum.split migrate_outcome.split)
    have "owns procs (?S - {rv_proc vm}) h'" using c False by (auto split: sum.splits migrate_outcome.splits)
    with fin gone acc(1) show ?thesis by (simp add: accounted_def held_def)
  qed
next
  case (step_cancel h xs vm dest ys)
  have "finite (procs (h_os h))" "add_mset (rv_proc vm) (held (h, xs @ ys)) = mset_set (procs (h_os h))"
    using step_cancel.prems(2) by (simp_all add: accounted_def held_def)
  with mset_set_drop tracks_kill [OF t] show ?case
    by (simp add: accounted_def held_def drop_running_def do_os_def)
next
  case (step_restored bin l h vm h' fl)
  note r = step_restored.hyps(1) [unfolded restore_register_def]
  have "started procs (procs (h_os h)) (rv_proc vm) (registry_insert os vm h')"
    using restore_counts [OF t refl r] by (simp add: registry_defs)
  moreover have "h_vms (registry_insert os vm h') = bt_insert (rv_id vm) vm (h_vms h)"
    using receive_and_restore_frame [OF r] by (simp add: registry_defs)
  ultimately show ?case
    using step_restored by (auto intro!: accounted_start [of procs h fl vm] simp: one_place_iff ids_ok_def owned_iff)
next
  case (step_restore_failed bin l h e h' fl)
  note r = step_restore_failed.hyps [unfolded restore_register_def]
  from restore_counts [OF t refl r] receive_and_restore_frame [OF r] step_restore_failed.prems(2) show ?case
    by (auto intro: accounted_same)
next
  case (step_source art dest h r h' fl)
  from migrate_source_counts [OF t refl step_source.hyps] migrate_source_frame [OF step_source.hyps] step_source.prems(2)
  show ?case by (auto intro: accounted_same)
next
  case (step_remove i h b h' fl)
  show ?case
  proof (cases "bt_get (h_vms h) i")
    case None
    with step_remove show ?thesis by (auto simp: registry_defs bt_remove_fresh intro: accounted_same)
  next
    case (Some vm)
    let ?S = "procs (h_os h)"
    have h': "h_vms h' = bt_remove i (h_vms h)" "procs (h_os h') = ?S - {rv_proc vm}"
      using step_remove.hyps Some teardown_counts [OF t] by (auto simp: registry_defs)
    have "bt_ok (h_vms h)" using step_remove.prems by (simp add: one_place_iff ids_ok_def)
    with step_remove.prems(2) Some have acc: "finite ?S" "add_mset (rv_proc vm) (held (h', fl)) = mset_set ?S"
      by (simp_all add: accounted_def held_def h' mset_bt_remove)
    from mset_set_drop [OF this] h' acc(1) show ?thesis by (simp add: accounted_def)
  qed
next
  case (step_other h' h fl)
  then show ?case by (auto intro: accounted_same)
qed

lemma reachable_accounted:
  assumes "tracks os procs" "procs w0 = {}"
  shows "reachable_daemon os (\<lambda>w w'. procs w' = procs w) w0 d \<Longrightarrow> accounted procs d"
proof (induction rule: reachable_daemon.induct)
  case (daemon_start host cls)
  show ?case by (simp add: accounted_def held_def registry_new_def meter_def assms(2))
qed (rule step_accounted [OF assms(1) _ reachable_one_place])

lemma mset_set_list: "finite S \<Longrightarrow> mset xs = mset_set S \<Longrightarrow> set xs = S \<and> distinct xs"
  by (metis distinct_count_atmost_1 finite_set_mset_mset_set set_mset_mset count_mset_set(1,3))

text \<open>
  C5. No Firecracker process is orphaned. Whatever requests a daemon has handled, in whatever
  interleaving, with clients that hang up in the middle of a migration, and with failures of the system, of
  Firecracker and of the guest at any point (while spawning, booting, draining, snapshotting, sending,
  receiving or restoring), its child processes that were not
  killed are exactly those of the VMs it has registered and of those being migrated, one process each.
\<close>

theorem no_orphan_process:
  assumes "tracks os procs" "procs w0 = {}" "reachable_daemon os (\<lambda>w w'. procs w' = procs w) w0 (h, fl)"
  shows "procs (h_os h) = set (map (rv_proc \<circ> snd) (h_vms h) @ map (rv_proc \<circ> fst) fl)
    \<and> distinct (map (rv_proc \<circ> snd) (h_vms h) @ map (rv_proc \<circ> fst) fl)"
proof -
  let ?ps = "map (rv_proc \<circ> snd) (h_vms h) @ map (rv_proc \<circ> fst) fl"
  have "finite (procs (h_os h))" "mset ?ps = mset_set (procs (h_os h))"
    using reachable_accounted [OF assms] by (simp_all add: accounted_def held_def)
  then show ?thesis using mset_set_list by metis
qed

text \<open>A system that starts the least process not running, and a daemon on it that has booted a VM.\<close>

definition tally_os :: "(nat list, unit) host_os" where
  "tally_os = calm_world (\<lambda>w. (Inr (Suc (sum_list w)), Suc (sum_list w) # w)) (\<lambda>p w. removeAll p w)"

lemma tally_tracks: "tracks tally_os set"
proof -
  have fresh: "Suc (sum_list w) \<notin> set w" for w :: "nat list" using member_le_sum_list [of "Suc (sum_list w)" w] by force
  have "os_keeps (\<lambda>w. set w = S) tally_os" for S
    by (simp add: os_keeps_def streams_keep_def tally_os_def calm_world_def preserves_ok)
  with fresh show ?thesis
    by (auto simp: tracks_def tally_os_def calm_world_def intro!: holdsI)
qed

lemma no_orphan_process_witness:
  "\<exists>h vm. reachable_daemon tally_os (\<lambda>w w'. set w' = set w) [] (h, []) \<and> bt_get (h_vms h) (VmId 1) = Some vm
     \<and> set (h_os h) = {rv_proc vm}"
proof -
  obtain art :: artifacts where True by simp
  let ?h0 = "registry_new ([] :: nat list) (HostId ''a'') (h_compat calm_host)"
  let ?start = "\<lambda>w. (Inr (Suc (sum_list w)), Suc (sum_list w) # w)"
  have "?start (h_os ?h0) = (Inr 1, [1])" by (simp add: registry_new_def meter_def)
  from calm_spawn [of ?start ?h0, OF this] obtain vm h where spawn: "registry_spawn tally_os art 1 False ?h0 = (Inr (VmId 1), h)"
    and vms: "h_vms h = bt_insert (VmId 1) vm (h_vms ?h0)" unfolding tally_os_def by blast
  have empty: "h_vms ?h0 = []" by (simp add: registry_new_def meter_def)
  let ?same = "\<lambda>w w'. set w' = set (w :: nat list)"
  have "reachable_daemon tally_os ?same [] (?h0, [])" by (rule daemon_start)
  moreover have "daemon_step tally_os ?same (?h0, []) (h, [])"
    by (rule step_spawn [OF _ spawn]) (simp add: owned_def empty)
  ultimately have reach: "reachable_daemon tally_os ?same [] (h, [])" by (rule daemon_next)
  from no_orphan_process [OF tally_tracks _ reach] have "set (h_os h) = {rv_proc vm}" by (simp add: vms empty)
  with reach vms show ?thesis by (auto simp: bt_get_insert)
qed

end
