(* ===== verification/Freeze_Bench.thy ===== *)
theory Freeze_Bench
  imports Migrate_Run
begin

text \<open>
  The freeze-window benchmark, \<open>crates/hostd/src/bin/migrate_bench.rs\<close> (the Linux build): one VM is
  moved back and forth between Firecracker processes of this host, and each cycle times pause, snapshot
  and lazy restore. The program gives up by panicking, here an error that carries the literal text of the
  \<open>expect\<close>, \<open>assert!\<close> or \<open>panic!\<close>; the values that go out of scope on the way up are dropped, which kills
  a process (\<open>guarding\<close>) and detaches a page-server thread, as the end of the program then does. What the
  error's own \<open>Debug\<close> text adds to the message is left out, and so is the construction of the tokio runtime.
\<close>

type_synonym ('w, 'a) bench = "('w, string, 'a) eff"

definition expectE :: "string \<Rightarrow> ('w, 'e, 'a) eff \<Rightarrow> ('w, 'a) bench" where
  "expectE msg m = map_errE (\<lambda>_. msg) m"

definition guarding :: "('w, 'h) host_os \<Rightarrow> nat \<Rightarrow> ('w, 'e, 'a) eff \<Rightarrow> ('w, 'e, 'a) eff" where
  "guarding os p m w =
     (case m w of
        (Inl e, w) \<Rightarrow> (Inl e, snd (fc_process_kill os p w))
      | (Inr a, w) \<Rightarrow> (Inr a, w))"

text \<open>
  What the benchmark uses beyond \<open>host_os\<close>: sleeping, during which the rest of the world goes on; how many
  looks at the serial log fit before the deadline; the directory the default artifacts path resolves to;
  and the rendering of the report.
\<close>

record freeze_report =
  fr_cycles :: nat
  fr_settle :: duration
  fr_bytes_moved :: u64
  fr_freeze_ms :: "real list"
  fr_min :: real
  fr_max :: real
  fr_mean :: real

record 'w bench_env =
  be_sleep :: "duration \<Rightarrow> 'w \<Rightarrow> 'w"
  be_serial_polls :: nat
  be_default_dir :: "string + path"
  be_read_dir :: "path \<Rightarrow> 'w \<Rightarrow> bool \<times> fs_entry list"
  be_report_text :: "freeze_report \<Rightarrow> string"

record bench_live =
  bl_proc :: nat
  bl_client :: path
  bl_handler :: "nat option"

section \<open>Settings and artifacts\<close>

definition env_or :: "(string \<Rightarrow> string option) \<Rightarrow> (string \<Rightarrow> 'a option) \<Rightarrow> string \<Rightarrow> 'a \<Rightarrow> 'a" where
  "env_or var parse key dflt =
     (case Option.bind (var key) parse of Some v \<Rightarrow> v | None \<Rightarrow> dflt)"

definition bench_artifacts_dir :: "(string \<Rightarrow> string option) \<Rightarrow> string + path \<Rightarrow> string + path" where
  "bench_artifacts_dir var default_dir =
     (case var ''SLEEPWALK_ARTIFACTS'' of
        Some d \<Rightarrow> Inr d
      | None \<Rightarrow> map_sum (\<lambda>_. ''artifacts dir; run `just fetch` first'') id default_dir)"

text \<open>The program has its own copy of \<open>find\<close>, the same as that of \<open>migrate.rs\<close>.\<close>

definition bench_find :: "(string \<Rightarrow> bool) \<Rightarrow> path \<Rightarrow> bool \<Rightarrow> fs_entry list \<Rightarrow> path option" where
  "bench_find pick dir readable entries = find_dir pick dir readable entries"

definition bench_require :: "bool \<times> fs_entry list \<Rightarrow> path \<Rightarrow> string \<Rightarrow> (string \<Rightarrow> bool) \<Rightarrow> string + path" where
  "bench_require listing dir what pick =
     (case bench_find pick dir (fst listing) (snd listing) of
        Some p \<Rightarrow> Inr p
      | None \<Rightarrow> Inl (''no '' @ what @ '' under '' @ dir @ '' '' @ map char_of [0xE2, 0x80, 0x94 :: nat] @ '' run `just fetch`''))"

definition bench_artifacts ::
  "'w bench_env \<Rightarrow> ('w, 'h) host_os \<Rightarrow> ('w, artifacts) bench" where
  "bench_artifacts env os w =
     (case bench_artifacts_dir (os_env os) (be_default_dir env) of
        Inl e \<Rightarrow> (Inl e, w)
      | Inr dir \<Rightarrow>
        (let ls = be_read_dir env dir w in
         case bench_require ls dir ''firecracker binary''
             (\<lambda>n. starts_with ''firecracker-'' n \<and> \<not> ends_with ''.debug'' n \<and> \<not> ends_with ''.tgz'' n) of
           Inl e \<Rightarrow> (Inl e, w)
         | Inr fc_bin \<Rightarrow>
           (case bench_require ls dir ''kernel'' (starts_with ''vmlinux'') of
              Inl e \<Rightarrow> (Inl e, w)
            | Inr kern \<Rightarrow>
              (case bench_require ls dir ''rootfs'' (\<lambda>n. ends_with ''.squashfs'' n \<or> ends_with ''.ext4'' n) of
                 Inl e \<Rightarrow> (Inl e, w)
               | Inr rootfs \<Rightarrow> (Inr \<lparr> art_fc_bin = fc_bin, art_kernel = kern, art_rootfs = rootfs \<rparr>, w)))))"

section \<open>The first VM\<close>

fun bench_wait_serial :: "'w bench_env \<Rightarrow> ('w, 'h) host_os \<Rightarrow> nat \<Rightarrow> path \<Rightarrow> string \<Rightarrow> 'w \<Rightarrow> bool \<times> 'w" where
  "bench_wait_serial env os 0 serial needle w = (False, w)"
| "bench_wait_serial env os (Suc n) serial needle w =
     (case os_read os serial w of (r, w) \<Rightarrow>
        if (case r of Inr t \<Rightarrow> utf8_str t \<and> contains_sub needle t | Inl _ \<Rightarrow> False) then (True, w)
        else bench_wait_serial env os n serial needle (be_sleep env (millis 200) w))"

definition FREEZE_BOOT_ARGS :: string where
  "FREEZE_BOOT_ARGS = ''console=ttyS0 reboot=k panic=1 pci=off root=/dev/vda ro''"

definition boot_initial ::
  "'w bench_env \<Rightarrow> ('w, 'h) host_os \<Rightarrow> artifacts \<Rightarrow> path \<Rightarrow> ('w, bench_live) bench" where
  "boot_initial env os art tmp =
     (let sock = join_path tmp ''fc-initial.sock''; serial = join_path tmp ''fc-initial.log'';
          fc = firecracker_api (os_fc os sock) in
      bindE (expectE ''spawn initial fc'' (fc_process_spawn os (art_fc_bin art) sock serial)) (\<lambda>p.
        guarding os p
         (seqE (expectE ''machine'' (fa_configure_machine fc \<lparr> mc_vcpu_count = 1, mc_mem_size_mib = GUEST_MIB \<rparr>))
          (seqE (expectE ''boot source'' (fa_configure_boot_source fc
              \<lparr> bs_kernel_image = art_kernel art, bs_boot_args = FREEZE_BOOT_ARGS \<rparr>))
           (seqE (expectE ''drive'' (fa_configure_drive fc
               \<lparr> dr_drive_id = ''rootfs'', dr_path_on_host = art_rootfs art, dr_is_root_device = True, dr_is_read_only = True \<rparr>))
            (seqE (expectE ''boot'' (fa_boot fc)) (\<lambda>w.
              case bench_wait_serial env os (be_serial_polls env) serial ''login'' w of
                (True, w) \<Rightarrow> (Inr \<lparr> bl_proc = p, bl_client = sock, bl_handler = None \<rparr>, w)
              | (False, w) \<Rightarrow> (Inl ''initial VM never reached userspace'', w))))))))"

section \<open>One cycle\<close>

text \<open>
  The target process and its page server are started before the window opens. The cycle yields the new
  live VM, the window, and the size of the first memory file that was not empty or missing.
\<close>

definition freeze_window ::
  "('w, 'h) host_os \<Rightarrow> path \<Rightarrow> path \<Rightarrow> path \<Rightarrow> path \<Rightarrow> path \<Rightarrow> ('w, duration) bench" where
  "freeze_window os live_sock tgt_sock mem state uffd_sock w =
     (let live = firecracker_api (os_fc os live_sock); target = firecracker_api (os_fc os tgt_sock); t0 = os_now os w in
      seqE (expectE ''pause live'' (fa_pause live))
       (seqE (expectE ''snapshot'' (fa_create_snapshot live \<lparr> st_mem_file = mem, st_state_file = state \<rparr>))
        (seqE (expectE ''load + resume'' (fa_load_snapshot target
            \<lparr> ss_state_file = state, ss_backend = Backend_Uffd uffd_sock, ss_resume = True \<rparr>))
         (\<lambda>w. (Inr (os_now os w - t0), w)))) w)"

definition bench_cycle ::
  "('w, 'h) host_os \<Rightarrow> path \<Rightarrow> path \<Rightarrow> nat \<Rightarrow> bench_live \<Rightarrow> u64 \<Rightarrow> ('w, bench_live \<times> duration \<times> u64) bench" where
  "bench_cycle os fc_bin tmp i live bytes =
     (let numbered = (\<lambda>stem ext. join_path tmp (stem @ show_nat i @ ext));
          mem = numbered ''mem-'' ''.snap''; state = numbered ''state-'' ''.snap'';
          uffd_sock = numbered ''uffd-'' ''.sock''; tgt_sock = numbered ''fc-'' ''.sock'' in
      bindE (expectE ''bind uffd handler'' (os_uffd_bind os uffd_sock)) (\<lambda>listener w.
        case os_uffd_thread os listener mem w of (thread, w) \<Rightarrow>
          bindE (expectE ''spawn target fc'' (fc_process_spawn os fc_bin tgt_sock (numbered ''fc-'' ''.log''))) (\<lambda>p.
            bindE (guarding os p (freeze_window os (bl_client live) tgt_sock mem state uffd_sock)) (\<lambda>elapsed w.
              (Inr (\<lparr> bl_proc = p, bl_client = tgt_sock, bl_handler = Some thread \<rparr>, elapsed,
                    if bytes = 0 then (case os_file_len os mem w of Some n \<Rightarrow> n | None \<Rightarrow> 0) else bytes), w))) w))"

definition retire :: "('w, 'h) host_os \<Rightarrow> bench_live \<Rightarrow> 'w \<Rightarrow> 'w" where
  "retire os live w =
     (let w = snd (fc_process_kill os (bl_proc live) w) in
      case bl_handler live of Some t \<Rightarrow> os_uffd_stop_join os t w | None \<Rightarrow> w)"

fun bench_loop ::
  "'w bench_env \<Rightarrow> ('w, 'h) host_os \<Rightarrow> path \<Rightarrow> path \<Rightarrow> duration \<Rightarrow> nat \<Rightarrow> nat \<Rightarrow> bench_live \<Rightarrow> duration list \<Rightarrow> u64
    \<Rightarrow> ('w, bench_live \<times> duration list \<times> u64) bench" where
  "bench_loop env os fc_bin tmp settle 0 i live windows bytes = okE (live, windows, bytes)"
| "bench_loop env os fc_bin tmp settle (Suc left) i live windows bytes =
     bindE (guarding os (bl_proc live) (bench_cycle os fc_bin tmp i live bytes)) (\<lambda>(live', elapsed, bytes') w.
       bench_loop env os fc_bin tmp settle left (Suc i) live' (windows @ [elapsed]) bytes'
         (be_sleep env settle (retire os live w)))"

section \<open>The report\<close>

text \<open>The arithmetic of the report is exact here: a double is the real it denotes, without rounding.\<close>

definition window_ms :: "duration \<Rightarrow> real" where
  "window_ms d = real d / 10 ^ 6"

definition freeze_summary :: "duration list \<Rightarrow> u64 \<Rightarrow> duration \<Rightarrow> freeze_report option" where
  "freeze_summary windows bytes settle =
     (let ms = map window_ms windows in
      if ms = [] then None
      else Some \<lparr> fr_cycles = length ms, fr_settle = settle, fr_bytes_moved = bytes, fr_freeze_ms = ms,
        fr_min = foldl min (hd ms) (tl ms), fr_max = foldl max (hd ms) (tl ms), fr_mean = sum_list ms / real (length ms) \<rparr>)"

definition freeze_report_write :: "'w bench_env \<Rightarrow> ('w, 'h) host_os \<Rightarrow> path \<Rightarrow> freeze_report option \<Rightarrow> 'w \<Rightarrow> 'w" where
  "freeze_report_write env os tmp rep w =
     (case rep of
        None \<Rightarrow> w
      | Some r \<Rightarrow> snd (os_write os (join_path tmp ''migrate-bench.json'') (be_report_text env r) w))"

definition freeze_bench_run :: "'w bench_env \<Rightarrow> ('w, 'h) host_os \<Rightarrow> ('w, freeze_report option) bench" where
  "freeze_bench_run env os =
     (let num = parse_uint (2 ^ 64 - 1);
          cycles = env_or (os_env os) num ''SLEEPWALK_BENCH_CYCLES'' 20;
          settle = millis (env_or (os_env os) num ''SLEEPWALK_BENCH_SETTLE_MS'' 1000);
          tmp = join_path (os_temp_dir os) (''sleepwalk-bench-'' @ show_nat (unat (os_pid os))) in
      bindE (bench_artifacts env os) (\<lambda>art.
        seqE (expectE ''tmp dir'' (os_create_dir_all os tmp))
         (bindE (boot_initial env os art tmp) (\<lambda>live.
           if 2 ^ 63 \<le> 8 * cycles then guarding os (bl_proc live) (errE ''capacity overflow'')
           else bindE (bench_loop env os (art_fc_bin art) tmp settle cycles 0 live [] 0) (\<lambda>(live, windows, bytes) w.
             let w = retire os live w; rep = freeze_summary windows bytes settle; w = freeze_report_write env os tmp rep w
             in (Inr rep, os_remove_dir_all os tmp w))))))"

end
