(* ===== verification/Bench_Loops.thy ===== *)
theory Bench_Loops
  imports Host_Daemon Freeze_Bench
begin

text \<open>
  The benchmark binary \<open>crates/hostd/src/bin/migrate.rs\<close>: a sender that retries every run a bounded number
  of times and reports what the runs cost, and a receiver that waits for its count of restores however
  many attempts fail. The receiver may wait for ever, so it is a partial function. Waiting between attempts
  and printing have no effect here. The counters are what the \<open>metrics\<close> facade is told: this program
  installs no recorder, so nobody can read them.
\<close>

definition MAX_TRIES :: u32 where "MAX_TRIES = 3"

text \<open>One run: \<open>attempt\<close> counts the tries before this one.\<close>

function send_run ::
  "('w, 'h) host_os \<Rightarrow> artifacts \<Rightarrow> string \<Rightarrow> nat \<Rightarrow> ('w host, migrate_error, source_timing) eff" where
  "send_run os art addr attempt h =
     (let attempt = attempt + 1 in
      case migrate_source os art addr h of
        (Inr t, h) \<Rightarrow> (Inr t, h)
      | (Inl e, h) \<Rightarrow>
          (let h = meter migration_failed h in
           if unat MAX_TRIES \<le> attempt then (Inl e, h) else send_run os art addr attempt h))"
  by pat_completeness auto

termination send_run
  by (relation "measure (\<lambda>(os, art, addr, attempt, h). unat MAX_TRIES - attempt)") auto

declare send_run.simps [simp del]

text \<open>All runs; \<open>finished\<close> counts those before, and an error carries the number of the run that failed.\<close>

fun send_runs ::
  "('w, 'h) host_os \<Rightarrow> artifacts \<Rightarrow> string \<Rightarrow> nat \<Rightarrow> nat \<Rightarrow> ('w host, nat \<times> migrate_error, source_timing list) eff" where
  "send_runs os art addr finished 0 h = (Inr [], h)"
| "send_runs os art addr finished (Suc left) h =
     (case send_run os art addr 0 h of
        (Inl e, h) \<Rightarrow> (Inl (finished + 1, e), h)
      | (Inr t, h) \<Rightarrow>
        (case send_runs os art addr (finished + 1) left h of
           (Inl e, h) \<Rightarrow> (Inl e, h)
         | (Inr ts, h) \<Rightarrow> (Inr (t # ts), h)))"

partial_function (option) recv_runs ::
  "('w, 'h) host_os \<Rightarrow> path \<Rightarrow> nat \<Rightarrow> nat \<Rightarrow> 'w host \<Rightarrow> 'w host option" where
  "recv_runs os fc_bin listener left h =
     (if left = 0 then Some h
      else case restore_target os fc_bin listener h of
          (Inr _, h) \<Rightarrow> recv_runs os fc_bin listener (left - 1) h
        | (Inl e, h) \<Rightarrow> recv_runs os fc_bin listener left (meter migration_failed h))"

declare recv_runs.simps [code]

section \<open>What a benchmark run counts\<close>

definition counted :: "'w host \<Rightarrow> 'w host \<Rightarrow> nat \<Rightarrow> nat \<Rightarrow> bool" where
  "counted h h' ok failed \<longleftrightarrow> mt_migrations (h_metrics h') = mt_migrations (h_metrics h) + of_nat ok
     \<and> mt_failures (h_metrics h') = mt_failures (h_metrics h) + of_nat failed"

lemma counted_trans: "counted h1 h2 a b \<Longrightarrow> counted h2 h3 c d \<Longrightarrow> counted h1 h3 (a + c) (b + d)"
  by (simp add: counted_def)

lemma counted_source:
  "migrate_source os art addr h = (Inr t, h') \<Longrightarrow> counted h h' 1 0"
  "migrate_source os art addr h = (Inl e, h') \<Longrightarrow> counted h (meter migration_failed h') 0 1"
  using migrate_source_frame by (fastforce simp: counted_def meter_def migration_failed_def)+

lemma send_run_counts:
  assumes "send_run os art addr attempt h = (r, h')" "attempt < 3"
  shows "case r of Inr _ \<Rightarrow> (\<exists>k. k + attempt < 3 \<and> counted h h' 1 k) | Inl _ \<Rightarrow> counted h h' 0 (3 - attempt)"
  using assms
proof (induction "3 - attempt" arbitrary: attempt h)
  case (Suc n)
  obtain x h1 where run: "migrate_source os art addr h = (x, h1)" by fastforce
  have tries: "unat MAX_TRIES = 3" by (simp add: MAX_TRIES_def)
  note unfold = send_run.simps [of os art addr attempt h]
  show ?case
  proof (cases x)
    case (Inr t)
    with Suc.prems run have "r = Inr t" "h' = h1" by (auto simp: unfold Let_def)
    with Suc.prems counted_source(1) [OF run [unfolded Inr]] show ?thesis by (auto intro!: exI [of _ 0])
  next
    case (Inl e)
    let ?h = "meter migration_failed h1"
    note one = counted_source(2) [OF run [unfolded Inl]]
    show ?thesis
    proof (cases "attempt = 2")
      case True
      have "send_run os art addr attempt h = (Inl e, ?h)" by (subst unfold) (simp add: run Inl tries True Let_def)
      with Suc.prems one True show ?thesis by simp
    next
      case False
      with Suc.prems run Inl tries have again: "send_run os art addr (attempt + 1) ?h = (r, h')"
        by (auto simp: unfold Let_def split: if_splits)
      have less: "attempt + 1 < 3" "n = 3 - (attempt + 1)" using False Suc by simp_all
      from Suc.hyps(1) [OF less(2) again less(1)] show ?thesis
      proof (cases r)
        case (Inr t)
        with Suc.hyps(1) [OF less(2) again less(1)] obtain k where "k + (attempt + 1) < 3" "counted ?h h' 1 k" by auto
        with counted_trans [OF one, of h' 1 k] Inr show ?thesis by (auto intro!: exI [of _ "k + 1"])
      next
        case (Inl e')
        with Suc.hyps(1) [OF less(2) again less(1)] counted_trans [OF one, of h' 0 "3 - (attempt + 1)"] less(1)
        have "counted h h' 0 (1 + (3 - (attempt + 1)))" by simp
        moreover have "1 + (3 - (attempt + 1)) = 3 - attempt" using less(1) by simp
        ultimately show ?thesis using Inl by simp
      qed
    qed
  qed
qed simp

text \<open>
  The benchmark sender returns and keeps exact books. A series of runs ends after at most three
  attempts per run: with every run done, when the migrations counter has grown by exactly that many
  and at most two failed attempts per run were counted; or with the number and the error of the first
  run that failed three times, when the counter has grown by the runs done before it and the failures by at least three and at
  most two per run done and three more.
\<close>

theorem send_runs_outcome:
  "case send_runs os art addr finished n h of
     (Inr ts, h') \<Rightarrow> length ts = n \<and> (\<exists>f \<le> 2 * n. counted h h' n f)
   | (Inl (i, e), h') \<Rightarrow> (\<exists>k < n. i = finished + k + 1 \<and> (\<exists>f. 3 \<le> f \<and> f \<le> 2 * k + 3 \<and> counted h h' k f))"
proof (induction n arbitrary: finished h)
  case 0
  show ?case by (simp add: counted_def)
next
  case (Suc n)
  obtain r h1 where run: "send_run os art addr 0 h = (r, h1)" by fastforce
  show ?case
  proof (cases r)
    case (Inl e)
    with send_run_counts [OF run] have "counted h h1 0 3" by simp
    with run Inl show ?thesis by (auto intro!: exI [of _ 0] exI [of _ 3])
  next
    case (Inr t)
    with send_run_counts [OF run] obtain k where k: "k < 3" "counted h h1 1 k" by auto
    obtain r2 h2 where rest: "send_runs os art addr (finished + 1) n h1 = (r2, h2)" by fastforce
    show ?thesis
    proof (cases r2)
      case (Inr ts)
      with Suc.IH [of "finished + 1" h1] rest obtain f where "f \<le> 2 * n" "counted h1 h2 n f" "length ts = n" by auto
      with counted_trans [OF k(2), of h2 n f] k(1) run rest Inr \<open>r = Inr t\<close> show ?thesis
        by (auto intro!: exI [of _ "k + f"])
    next
      case (Inl ie)
      obtain i e where ie: "ie = (i, e)" by fastforce
      with Suc.IH [of "finished + 1" h1] rest Inl obtain j f where
        "j < n" "i = finished + 1 + j + 1" "3 \<le> f" "f \<le> 2 * j + 3" "counted h1 h2 j f" by auto
      with counted_trans [OF k(2), of h2 j f] k(1) run rest Inl ie \<open>r = Inr t\<close> show ?thesis
        by (simp, intro exI [of _ "k + f"]) simp
    qed
  qed
qed

text \<open>A receiver whose every attempt fails, for instance because no sender connects in time, never returns.\<close>

lemma recv_waits_for_ever:
  assumes "\<And>h. \<exists>e h'. restore_target os fc_bin listener h = (Inl e, h')" "0 < left"
  shows "recv_runs os fc_bin listener left h = None"
proof -
  let ?P = "\<lambda>os' bin l left h r. os' = os \<longrightarrow> bin = fc_bin \<longrightarrow> l = listener \<longrightarrow> left = (0::nat)"
  have "?P os fc_bin listener left h r" if run: "recv_runs os fc_bin listener left h = Some r" for r
  proof (rule recv_runs.raw_induct [where P = ?P, OF _ run])
    fix f os' bin l left h r
    assume IH: "\<And>os' bin l left h r. f os' bin l left h = Some r \<Longrightarrow> ?P os' bin l left h r"
      and step: "(if left = 0 then Some h
        else case restore_target os' bin l h of
            (Inl e, h) \<Rightarrow> f os' bin l left (meter migration_failed h)
          | (Inr x, h) \<Rightarrow> f os' bin l (left - 1) h) = Some r"
    obtain e h' where "restore_target os fc_bin listener h = (Inl e, h')" using assms(1) by blast
    with step IH [of os fc_bin listener left "meter migration_failed h'" r] show "?P os' bin l left h r"
      by (auto split: if_splits)
  qed
  with assms(2) show ?thesis by (cases "recv_runs os fc_bin listener left h") auto
qed

section \<open>The program\<close>

text \<open>The report: a double is the real it denotes, without rounding. Minimum, maximum and mean of each column.\<close>

record send_report =
  sr_runs :: nat
  sr_bytes :: u64
  sr_snapshot :: "real list \<times> real \<times> real \<times> real"
  sr_transfer :: "real list \<times> real \<times> real \<times> real"
  sr_total :: "real list \<times> real \<times> real \<times> real"

definition real_stats :: "real list \<Rightarrow> real list \<times> real \<times> real \<times> real" where
  "real_stats v = (v, foldl min (hd v) (tl v), foldl max (hd v) (tl v), sum_list v / real (length v))"

definition send_report_of :: "source_timing list \<Rightarrow> send_report option" where
  "send_report_of timings =
     (if timings = [] then None
      else Some \<lparr> sr_runs = length timings, sr_bytes = tm_bytes (hd timings),
        sr_snapshot = real_stats (map (window_ms \<circ> tm_snapshot) timings),
        sr_transfer = real_stats (map (window_ms \<circ> tm_transfer) timings),
        sr_total = real_stats (map (\<lambda>t. window_ms (tm_snapshot t) + window_ms (tm_transfer t)) timings) \<rparr>)"

text \<open>An error with its \<open>anyhow\<close> context, or a panic (40 bytes for each run are reserved at once).\<close>

datatype bench_failure = In_context string migrate_error | Panicked string

definition bench_send ::
  "'w daemon_deps \<Rightarrow> ('w, 'h) host_os \<Rightarrow> string \<Rightarrow> nat \<Rightarrow> ('w host, bench_failure, send_report option) eff" where
  "bench_send dd os addr count h =
     (case artifacts_here dd os h of
        Inl e \<Rightarrow> (Inl (In_context ''discover artifacts'' e), h)
      | Inr art \<Rightarrow>
        if 2 ^ 63 \<le> 40 * count then (Inl (Panicked ''capacity overflow''), h)
        else (case send_runs os art addr 0 count h of
            (Inl (i, e), h) \<Rightarrow>
              (Inl (In_context (''run '' @ show_nat i @ '' failed after '' @ show_nat (unat MAX_TRIES) @ '' attempts'') e), h)
          | (Inr ts, h) \<Rightarrow> (Inr (send_report_of ts), h)))"

definition bench_recv ::
  "'w daemon_deps \<Rightarrow> ('w, 'h) host_os \<Rightarrow> string \<Rightarrow> nat \<Rightarrow> 'w host \<Rightarrow> ((bench_failure + unit) \<times> 'w host) option" where
  "bench_recv dd os addr count h =
     (case artifacts_here dd os h of
        Inl e \<Rightarrow> Some (Inl (In_context ''discover artifacts'' e), h)
      | Inr art \<Rightarrow>
        (case bind_receiver dd addr h of
           (Inl e, h) \<Rightarrow> Some (Inl (In_context ''bind receiver'' e), h)
         | (Inr l, h) \<Rightarrow> map_option (\<lambda>h. (Inr (), h)) (recv_runs os (art_fc_bin art) l count h)))"

definition failure_code :: "bench_failure \<Rightarrow> nat" where
  "failure_code f = (case f of In_context _ _ \<Rightarrow> 1 | Panicked _ \<Rightarrow> 101)"

text \<open>\<open>main\<close>: the exit code, and no value when the program does not return.\<close>

definition migrate_main ::
  "'w daemon_deps \<Rightarrow> ('w, 'h) host_os \<Rightarrow> bool \<Rightarrow> string list \<Rightarrow> 'w host \<Rightarrow> (nat \<times> 'w host) option" where
  "migrate_main dd os runtime_ok args h =
     (let arg = (\<lambda>n. if n < length args then Some (args ! n) else None);
          count = (case Option.bind (arg 3) (parse_uint (2 ^ 64 - 1)) of Some n \<Rightarrow> n | None \<Rightarrow> 1) in
      if \<not> runtime_ok then Some (1, h)
      else case (arg 1, arg 2) of
          (Some cmd, Some addr) \<Rightarrow>
            if cmd = ''recv'' then
              map_option (\<lambda>(r, h). (case r of Inl f \<Rightarrow> failure_code f | Inr _ \<Rightarrow> 0, h)) (bench_recv dd os addr count h)
            else if cmd = ''send'' then
              (case bench_send dd os addr count h of (r, h) \<Rightarrow> Some (case r of Inl f \<Rightarrow> failure_code f | Inr _ \<Rightarrow> 0, h))
            else Some (2, h)
        | _ \<Rightarrow> Some (2, h))"

lemma bench_send_reports:
  "bench_send dd os addr n h = (Inr rep, h') \<Longrightarrow> (case rep of None \<Rightarrow> n = 0 | Some r \<Rightarrow> sr_runs r = n)"
  using send_runs_outcome [where finished = 0 and n = n and os = os and addr = addr and h = h]
  by (fastforce simp: bench_send_def send_report_of_def split: sum.splits prod.splits if_splits)

end
