(* ===== verification/Load_Driver.thy ===== *)
theory Load_Driver
  imports Telemetry Proto_Messages
begin

text \<open>
  Open-loop load: the turn driver of \<open>crates/hostd/src/guestload.rs\<close> (the measurement around it is
  \<open>Load_Report\<close>). A turn is a task of its own; the tasks, the router
  that reads the guest's stream and the timer interleave in any order, so the driver is a state and
  its history a list of events. The sending half of a turn's oneshot channel is in the map of waiters, and
  dropping it resolves the turn like a completion does.
\<close>

datatype turn_phase = T_sending | T_waiting | T_ok | T_dropped | T_unsent

record turn_task =
  tk_id :: turn_id
  tk_phase :: turn_phase
  tk_woken :: bool

record vsock_turn_driver =
  ld_waiters :: "turn_id \<Rightarrow> nat option"
  ld_tasks :: "turn_task list"
  ld_router :: bool
  ld_dropped :: u64
  ld_metrics :: metrics
  ld_vm_id :: string

definition driver_new :: "string \<Rightarrow> metrics \<Rightarrow> vsock_turn_driver" where
  "driver_new vm m = \<lparr> ld_waiters = (\<lambda>_. None), ld_tasks = [], ld_router = True, ld_dropped = 0, ld_metrics = m, ld_vm_id = vm \<rparr>"

definition upd_task :: "nat \<Rightarrow> (turn_task \<Rightarrow> turn_task) \<Rightarrow> vsock_turn_driver \<Rightarrow> vsock_turn_driver" where
  "upd_task i f d = (if i < length (ld_tasks d) then d \<lparr> ld_tasks := (ld_tasks d) [i := f (ld_tasks d ! i)] \<rparr> else d)"

text \<open>Take the sender of a turn out of the map; sending on it, or dropping it, wakes its task.\<close>

definition take_waiter :: "turn_id \<Rightarrow> vsock_turn_driver \<Rightarrow> vsock_turn_driver" where
  "take_waiter t d =
     (case ld_waiters d t of
        None \<Rightarrow> d
      | Some i \<Rightarrow> upd_task i (tk_woken_update (\<lambda>_. True)) (d \<lparr> ld_waiters := (ld_waiters d) (t := None) \<rparr>))"

definition count_turn :: "bool \<Rightarrow> vsock_turn_driver \<Rightarrow> vsock_turn_driver" where
  "count_turn ok d = d \<lparr> ld_metrics := test_turn (ld_vm_id d) ok (ld_metrics d) \<rparr>"

section \<open>The steps of \<open>run_turn\<close>\<close>

definition turn_submit :: "u64 \<Rightarrow> vsock_turn_driver \<Rightarrow> vsock_turn_driver" where
  "turn_submit n d =
     (let d = take_waiter (TurnId n) d; i = length (ld_tasks d) in
      d \<lparr> ld_waiters := (ld_waiters d) (TurnId n \<mapsto> i),
          ld_tasks := ld_tasks d @ [\<lparr> tk_id = TurnId n, tk_phase = T_sending, tk_woken = False \<rparr>] \<rparr>)"

definition turn_sent :: "nat \<Rightarrow> bool \<Rightarrow> vsock_turn_driver \<Rightarrow> vsock_turn_driver" where
  "turn_sent i ok d =
     (if i < length (ld_tasks d) \<and> tk_phase (ld_tasks d ! i) = T_sending then
        (if ok then upd_task i (tk_phase_update (\<lambda>_. T_waiting)) d
         else count_turn False (upd_task i (tk_phase_update (\<lambda>_. T_unsent)) (take_waiter (tk_id (ld_tasks d ! i)) d)))
      else d)"

definition turn_resolved :: "nat \<Rightarrow> vsock_turn_driver \<Rightarrow> vsock_turn_driver" where
  "turn_resolved i d =
     (if i < length (ld_tasks d) \<and> tk_phase (ld_tasks d ! i) = T_waiting \<and> tk_woken (ld_tasks d ! i)
      then count_turn True (upd_task i (tk_phase_update (\<lambda>_. T_ok)) d) else d)"

text \<open>The timeout looks at the receiver before it gives up.\<close>

definition turn_deadline :: "nat \<Rightarrow> vsock_turn_driver \<Rightarrow> vsock_turn_driver" where
  "turn_deadline i d =
     (if i < length (ld_tasks d) \<and> tk_phase (ld_tasks d ! i) = T_waiting \<and> \<not> tk_woken (ld_tasks d ! i)
      then (let d = upd_task i (tk_phase_update (\<lambda>_. T_dropped)) (take_waiter (tk_id (ld_tasks d ! i)) d)
            in count_turn False (d \<lparr> ld_dropped := ld_dropped d + 1 \<rparr>))
      else turn_resolved i d)"

definition router_recv :: "guest_to_host option \<Rightarrow> vsock_turn_driver \<Rightarrow> vsock_turn_driver" where
  "router_recv msg d =
     (if \<not> ld_router d then d
      else case msg of
          Some (TurnEnded t _) \<Rightarrow> take_waiter t d
        | Some _ \<Rightarrow> d
        | None \<Rightarrow> d \<lparr> ld_router := False \<rparr>)"

datatype load_event =
    Ev_submit u64
  | Ev_sent nat bool
  | Ev_router "guest_to_host option"
  | Ev_resolved nat
  | Ev_deadline nat

fun load_step :: "load_event \<Rightarrow> vsock_turn_driver \<Rightarrow> vsock_turn_driver" where
  "load_step (Ev_submit n) d = turn_submit n d"
| "load_step (Ev_sent i ok) d = turn_sent i ok d"
| "load_step (Ev_router msg) d = router_recv msg d"
| "load_step (Ev_resolved i) d = turn_resolved i d"
| "load_step (Ev_deadline i) d = turn_deadline i d"

section \<open>Accounting\<close>

definition in_phase :: "turn_phase \<Rightarrow> vsock_turn_driver \<Rightarrow> nat" where
  "in_phase p d = length (filter (\<lambda>t. tk_phase t = p) (ld_tasks d))"

definition books_ok :: "metrics \<Rightarrow> vsock_turn_driver \<Rightarrow> bool" where
  "books_ok m d \<longleftrightarrow> ld_dropped d = of_nat (in_phase T_dropped d)
     \<and> mt_test_turns (ld_metrics d) (ld_vm_id d, ''ok'') = mt_test_turns m (ld_vm_id d, ''ok'') + of_nat (in_phase T_ok d)
     \<and> mt_test_turns (ld_metrics d) (ld_vm_id d, ''dropped'')
         = mt_test_turns m (ld_vm_id d, ''dropped'') + of_nat (in_phase T_dropped d + in_phase T_unsent d)"

lemma filter_update:
  assumes "i < length xs"
  shows "length (filter P (xs [i := y])) + (if P (xs ! i) then 1 else 0) = length (filter P xs) + (if P y then 1 else 0)"
  using assms
proof (induction xs arbitrary: i)
  case (Cons x xs)
  then show ?case by (cases i) auto
qed simp

lemma in_phase_upd:
  assumes "i < length (ld_tasks d)" "tk_phase (ld_tasks d ! i) = p" "tk_phase (f (ld_tasks d ! i)) = q"
  shows "in_phase r (upd_task i f d) + (if r = p then 1 else 0) = in_phase r d + (if r = q then 1 else 0)"
  using filter_update [OF assms(1), of "\<lambda>t. tk_phase t = r" "f (ld_tasks d ! i)"] assms
  by (auto simp: in_phase_def upd_task_def)

lemma in_phase_woken [simp]: "in_phase r (upd_task i (tk_woken_update f) d) = in_phase r d"
proof (cases "i < length (ld_tasks d)")
  case True
  from in_phase_upd [OF this refl, of "tk_woken_update f" "tk_phase (ld_tasks d ! i)" r] show ?thesis by auto
qed (simp add: upd_task_def)

lemma upd_task_frame [simp]:
  "ld_waiters (upd_task i f d) = ld_waiters d" "ld_router (upd_task i f d) = ld_router d"
  "ld_dropped (upd_task i f d) = ld_dropped d" "ld_metrics (upd_task i f d) = ld_metrics d"
  "ld_vm_id (upd_task i f d) = ld_vm_id d" "length (ld_tasks (upd_task i f d)) = length (ld_tasks d)"
  by (simp_all add: upd_task_def)

lemma in_phase_frame [simp]:
  "in_phase r (d \<lparr> ld_waiters := w \<rparr>) = in_phase r d" "in_phase r (d \<lparr> ld_dropped := n \<rparr>) = in_phase r d"
  "in_phase r (d \<lparr> ld_router := b \<rparr>) = in_phase r d" "in_phase r (count_turn ok d) = in_phase r d"
  by (simp_all add: in_phase_def count_turn_def)

lemma take_waiter_frame [simp]:
  "in_phase r (take_waiter t d) = in_phase r d" "ld_router (take_waiter t d) = ld_router d"
  "ld_dropped (take_waiter t d) = ld_dropped d" "ld_metrics (take_waiter t d) = ld_metrics d"
  "ld_vm_id (take_waiter t d) = ld_vm_id d" "length (ld_tasks (take_waiter t d)) = length (ld_tasks d)"
  by (simp_all add: take_waiter_def split: option.split)

lemma take_waiter_phase:
  assumes "i < length (ld_tasks d)"
  shows "tk_phase (ld_tasks (take_waiter t d) ! i) = tk_phase (ld_tasks d ! i)"
    "tk_id (ld_tasks (take_waiter t d) ! i) = tk_id (ld_tasks d ! i)"
  using assms by (auto simp: take_waiter_def upd_task_def nth_list_update split: option.split)

lemma in_phase_submit: "in_phase r (turn_submit n d) = in_phase r d + (if r = T_sending then 1 else 0)"
proof -
  have "in_phase r (turn_submit n d) = in_phase r (take_waiter (TurnId n) d) + (if r = T_sending then 1 else 0)"
    by (simp add: turn_submit_def Let_def in_phase_def)
  then show ?thesis by simp
qed

lemma books_submit: "books_ok m d \<Longrightarrow> books_ok m (turn_submit n d)"
  unfolding books_ok_def by (simp add: in_phase_submit) (simp add: turn_submit_def Let_def)

lemma count_turn_simps [simp]:
  "ld_dropped (count_turn ok d) = ld_dropped d" "ld_vm_id (count_turn ok d) = ld_vm_id d"
  "ld_tasks (count_turn ok d) = ld_tasks d" "ld_waiters (count_turn ok d) = ld_waiters d" "ld_router (count_turn ok d) = ld_router d"
  by (simp_all add: count_turn_def test_turn_def Let_def)

lemma mt_count_turn [simp]:
  "v = ld_vm_id d \<Longrightarrow> mt_test_turns (ld_metrics (count_turn b d)) (v, out) =
     mt_test_turns (ld_metrics d) (v, out) + (if out = (if b then ''ok'' else ''dropped'') then 1 else 0)"
  by (simp add: count_turn_def test_turn_def Let_def)

lemma in_phase_move:
  assumes "i < length (ld_tasks d)" "tk_phase (ld_tasks d ! i) = p" "r \<noteq> p"
  shows "in_phase r (upd_task i (tk_phase_update (\<lambda>_. q)) d) = in_phase r d + (if r = q then 1 else 0)"
  using in_phase_upd [OF assms(1,2), of "tk_phase_update (\<lambda>_. q)" q r] assms(3) by auto

lemma books_sent: "books_ok m d \<Longrightarrow> books_ok m (turn_sent i ok d)"
  by (auto simp: turn_sent_def books_ok_def in_phase_move [where p = T_sending] take_waiter_phase)

lemma books_resolved: "books_ok m d \<Longrightarrow> books_ok m (turn_resolved i d)"
  by (auto simp: turn_resolved_def books_ok_def in_phase_move [where p = T_waiting])

lemma books_deadline: "books_ok m d \<Longrightarrow> books_ok m (turn_deadline i d)"
  by (auto simp: turn_deadline_def Let_def books_resolved)
    (auto simp: books_ok_def in_phase_move [where p = T_waiting] take_waiter_phase)

lemma books_router: "books_ok m d \<Longrightarrow> books_ok m (router_recv msg d)"
  by (auto simp: router_recv_def books_ok_def split: option.split guest_to_host.split)

lemma books_step: "books_ok m d \<Longrightarrow> books_ok m (load_step e d)"
  by (cases e) (simp_all add: books_submit books_sent books_router books_resolved books_deadline)

section \<open>No turn hangs\<close>

text \<open>A turn that is not over is in the map under its id, unless it has been woken.\<close>

definition over :: "turn_task \<Rightarrow> bool" where
  "over t \<longleftrightarrow> tk_phase t \<noteq> T_sending \<and> tk_phase t \<noteq> T_waiting"

definition waiters_ok :: "vsock_turn_driver \<Rightarrow> bool" where
  "waiters_ok d \<longleftrightarrow> (\<forall>t i. ld_waiters d t = Some i \<longleftrightarrow>
     i < length (ld_tasks d) \<and> tk_id (ld_tasks d ! i) = t \<and> \<not> over (ld_tasks d ! i) \<and> \<not> tk_woken (ld_tasks d ! i))"

lemma waiters_okD:
  assumes "waiters_ok d"
  shows "ld_waiters d t = Some i \<longleftrightarrow>
    i < length (ld_tasks d) \<and> tk_id (ld_tasks d ! i) = t \<and> \<not> over (ld_tasks d ! i) \<and> \<not> tk_woken (ld_tasks d ! i)"
  using assms by (simp add: waiters_ok_def)

lemma waiters_take:
  assumes ok: "waiters_ok d"
  shows "waiters_ok (take_waiter t d) \<and> ld_waiters (take_waiter t d) t = None"
proof (cases "ld_waiters d t")
  case None
  then show ?thesis using assms by (simp add: take_waiter_def)
next
  case (Some i)
  let ?d = "take_waiter t d"
  have i: "i < length (ld_tasks d)" "tk_id (ld_tasks d ! i) = t" using Some by (simp_all add: waiters_okD [OF ok])
  have w: "ld_waiters ?d = (ld_waiters d) (t := None)" using Some by (simp add: take_waiter_def)
  have ts: "ld_tasks ?d = (ld_tasks d) [i := (ld_tasks d ! i) \<lparr> tk_woken := True \<rparr>]"
    using Some i by (simp add: take_waiter_def upd_task_def)
  have "ld_waiters ?d s = Some j \<longleftrightarrow>
      j < length (ld_tasks ?d) \<and> tk_id (ld_tasks ?d ! j) = s \<and> \<not> over (ld_tasks ?d ! j) \<and> \<not> tk_woken (ld_tasks ?d ! j)" for s j
  proof (cases "j = i")
    case True
    have "ld_waiters d s \<noteq> Some i" if "s \<noteq> t" using that i waiters_okD [OF ok, of s i] by simp
    with True i show ?thesis by (simp add: w ts)
  next
    case False
    have "ld_waiters d t \<noteq> Some j" using False Some by simp
    with waiters_okD [OF ok, of t j] waiters_okD [OF ok, of s j] False show ?thesis
      by (cases "s = t") (simp_all add: w ts del: not_Some_eq)
  qed
  then show ?thesis by (simp add: waiters_ok_def w)
qed

lemma waiters_new:
  assumes ok: "waiters_ok d" and none: "ld_waiters d t = None" and new: "tk_id new = t" "\<not> over new" "\<not> tk_woken new"
  shows "waiters_ok (d \<lparr> ld_waiters := (ld_waiters d) (t \<mapsto> length (ld_tasks d)), ld_tasks := ld_tasks d @ [new] \<rparr>)"
proof -
  have old: "\<not> (j < length (ld_tasks d) \<and> tk_id (ld_tasks d ! j) = t \<and> \<not> over (ld_tasks d ! j) \<and> \<not> tk_woken (ld_tasks d ! j))" for j
    using waiters_okD [OF ok, of t j] none by simp
  have "((ld_waiters d) (t \<mapsto> length (ld_tasks d))) s = Some j \<longleftrightarrow> (let tk = ld_tasks d @ [new] in
      j < length tk \<and> tk_id (tk ! j) = s \<and> \<not> over (tk ! j) \<and> \<not> tk_woken (tk ! j))" for s j
  proof (cases "j < length (ld_tasks d)")
    case True
    with old [of j] show ?thesis by (cases "s = t") (simp_all add: Let_def nth_append waiters_okD [OF ok])
  next
    case False
    then have "ld_waiters d s \<noteq> Some j" by (simp add: waiters_okD [OF ok])
    with False new show ?thesis by (cases "j = length (ld_tasks d)") (auto simp: Let_def nth_append)
  qed
  then show ?thesis by (simp add: waiters_ok_def Let_def)
qed

lemma waiters_submit: "waiters_ok d \<Longrightarrow> waiters_ok (turn_submit n d)"
  unfolding turn_submit_def Let_def using waiters_take
  by (intro waiters_new) (auto simp: over_def)

lemma waiters_move:
  assumes ok: "waiters_ok d" and none: "\<And>t. q = T_waiting \<or> ld_waiters d t \<noteq> Some i"
    and i: "i < length (ld_tasks d)" and q: "q \<noteq> T_sending" and p: "\<not> over (ld_tasks d ! i)"
  shows "waiters_ok (upd_task i (tk_phase_update (\<lambda>_. q)) d)"
proof -
  have ts: "ld_tasks (upd_task i (tk_phase_update (\<lambda>_. q)) d) = (ld_tasks d) [i := (ld_tasks d ! i) \<lparr> tk_phase := q \<rparr>]"
    using i by (simp add: upd_task_def)
  have "ld_waiters d s = Some j \<longleftrightarrow> (let tk = (ld_tasks d) [i := (ld_tasks d ! i) \<lparr> tk_phase := q \<rparr>] in
      j < length tk \<and> tk_id (tk ! j) = s \<and> \<not> over (tk ! j) \<and> \<not> tk_woken (tk ! j))" for s j
  proof (cases "j = i")
    case True
    with waiters_okD [OF ok, of s i] none [of s] q p i show ?thesis
      by (cases "q = T_waiting") (auto simp: Let_def over_def)
  qed (simp add: Let_def waiters_okD [OF ok])
  then show ?thesis by (simp add: waiters_ok_def ts Let_def)
qed

lemma waiters_gone:
  assumes "waiters_ok d" "i < length (ld_tasks d)"
  shows "ld_waiters (take_waiter (tk_id (ld_tasks d ! i)) d) t \<noteq> Some i"
  using waiters_take [OF assms(1), of "tk_id (ld_tasks d ! i)"] take_waiter_phase(2) [OF assms(2)] assms(2)
  by (metis option.distinct(1) waiters_okD)

lemma waiters_frame:
  "waiters_ok (count_turn b d) = waiters_ok d" "waiters_ok (d \<lparr> ld_dropped := n \<rparr>) = waiters_ok d"
  "waiters_ok (d \<lparr> ld_router := r \<rparr>) = waiters_ok d"
  by (simp_all add: waiters_ok_def)

lemma waiters_end:
  assumes "waiters_ok d" "i < length (ld_tasks d)" "\<not> over (ld_tasks d ! i)" "q \<noteq> T_sending"
  shows "waiters_ok (upd_task i (tk_phase_update (\<lambda>_. q)) (take_waiter (tk_id (ld_tasks d ! i)) d))"
proof (rule waiters_move)
  show "waiters_ok (take_waiter (tk_id (ld_tasks d ! i)) d)" using waiters_take [OF assms(1)] by simp
  show "\<not> over (ld_tasks (take_waiter (tk_id (ld_tasks d ! i)) d) ! i)"
    using assms(3) by (simp add: over_def take_waiter_phase [OF assms(2)])
qed (use assms waiters_gone in auto)

lemma waiters_sent: "waiters_ok d \<Longrightarrow> waiters_ok (turn_sent i ok d)"
  unfolding turn_sent_def by (auto simp: waiters_frame over_def intro!: waiters_end waiters_move)

lemma waiters_resolved: "waiters_ok d \<Longrightarrow> waiters_ok (turn_resolved i d)"
  unfolding turn_resolved_def by (auto simp: waiters_frame over_def waiters_okD intro!: waiters_move)

lemma waiters_deadline: "waiters_ok d \<Longrightarrow> waiters_ok (turn_deadline i d)"
  unfolding turn_deadline_def Let_def by (auto simp: waiters_frame over_def waiters_resolved intro!: waiters_end)

lemma waiters_router: "waiters_ok d \<Longrightarrow> waiters_ok (router_recv msg d)"
  by (auto simp: router_recv_def waiters_frame waiters_take split: option.split guest_to_host.split)

lemma waiters_step: "waiters_ok d \<Longrightarrow> waiters_ok (load_step e d)"
  by (cases e) (simp_all add: waiters_submit waiters_sent waiters_router waiters_resolved waiters_deadline)

lemma over_upd:
  "over (ld_tasks d ! i) \<Longrightarrow> i < length (ld_tasks d) \<Longrightarrow> j \<noteq> i \<Longrightarrow> over (ld_tasks (upd_task j f d) ! i)"
  "over (ld_tasks d ! i) \<Longrightarrow> over (ld_tasks (upd_task j (tk_woken_update g) d) ! i)"
  by (auto simp: upd_task_def over_def nth_list_update)

lemma over_take: "over (ld_tasks d ! i) \<Longrightarrow> over (ld_tasks (take_waiter t d) ! i)"
  by (auto simp: take_waiter_def intro: over_upd split: option.split)

lemma over_step:
  assumes "i < length (ld_tasks d)" "over (ld_tasks d ! i)"
  shows "i < length (ld_tasks (load_step e d)) \<and> over (ld_tasks (load_step e d) ! i)"
proof (cases e)
  case (Ev_submit n)
  with assms over_take [OF assms(2), of "TurnId n"] show ?thesis
    by (simp add: turn_submit_def Let_def nth_append)
next
  case (Ev_sent j ok)
  have "j \<noteq> i" if "tk_phase (ld_tasks d ! j) = T_sending" using assms(2) that by (auto simp: over_def)
  with Ev_sent assms show ?thesis by (auto simp: turn_sent_def intro!: over_upd over_take)
next
  case (Ev_router msg)
  with assms show ?thesis
    by (auto simp: router_recv_def intro: over_take split: option.split guest_to_host.split)
next
  case (Ev_resolved j)
  have "j \<noteq> i" if "tk_phase (ld_tasks d ! j) = T_waiting" using assms(2) that by (auto simp: over_def)
  with Ev_resolved assms show ?thesis by (auto simp: turn_resolved_def intro!: over_upd)
next
  case (Ev_deadline j)
  have "j \<noteq> i" if "tk_phase (ld_tasks d ! j) = T_waiting" using assms(2) that by (auto simp: over_def)
  with Ev_deadline assms show ?thesis
    by (auto simp: turn_deadline_def turn_resolved_def Let_def intro!: over_upd over_take)
qed

definition run_out :: "(nat \<Rightarrow> bool) \<Rightarrow> nat \<Rightarrow> load_event list" where
  "run_out sent n = concat (map (\<lambda>i. [Ev_sent i (sent i), Ev_deadline i]) [0..<n])"

lemma sent_deadline_over:
  assumes "i < length (ld_tasks d)"
  shows "over (ld_tasks (turn_deadline i (turn_sent i ok d)) ! i)"
proof -
  let ?e = "turn_sent i ok d"
  have len: "length (ld_tasks (turn_sent i ok d)) = length (ld_tasks d)" by (simp add: turn_sent_def)
  have "tk_phase (ld_tasks ?e ! i) \<noteq> T_sending"
    using assms by (auto simp: turn_sent_def upd_task_def)
  then consider "tk_phase (ld_tasks ?e ! i) = T_waiting" | "over (ld_tasks ?e ! i)" by (auto simp: over_def)
  then show ?thesis
  proof cases
    case 1
    with assms len show ?thesis
      by (auto simp: turn_deadline_def turn_resolved_def Let_def upd_task_def over_def)
  next
    case 2
    with over_step [of i ?e "Ev_deadline i"] assms len show ?thesis by simp
  qed
qed

lemma run_out_over:
  assumes "n \<le> length (ld_tasks d)"
  shows "length (ld_tasks (fold load_step (run_out sent n) d)) = length (ld_tasks d)
    \<and> (\<forall>i < n. over (ld_tasks (fold load_step (run_out sent n) d) ! i))"
  using assms
proof (induction n)
  case 0
  show ?case by (simp add: run_out_def)
next
  case (Suc n)
  let ?d = "fold load_step (run_out sent n) d"
  have len: "length (ld_tasks ?d) = length (ld_tasks d)" and IH: "\<forall>i < n. over (ld_tasks ?d ! i)" using Suc by simp_all
  have run: "fold load_step (run_out sent (Suc n)) d = load_step (Ev_deadline n) (load_step (Ev_sent n (sent n)) ?d)"
    by (simp add: run_out_def)
  have lens: "length (ld_tasks (load_step (Ev_sent n (sent n)) ?d)) = length (ld_tasks d)"
    using len by (simp add: turn_sent_def)
  have "over (ld_tasks (load_step (Ev_deadline n) (load_step (Ev_sent n (sent n)) ?d)) ! i)" if "i < Suc n" for i
  proof (cases "i = n")
    case True
    with Suc.prems len show ?thesis by (simp add: sent_deadline_over)
  next
    case False
    with that have "i < n" by simp
    with IH Suc.prems len over_step [of i ?d "Ev_sent n (sent n)"] lens
      over_step [of i "load_step (Ev_sent n (sent n)) ?d" "Ev_deadline n"] show ?thesis by simp
  qed
  moreover have "length (ld_tasks (load_step (Ev_deadline n) (load_step (Ev_sent n (sent n)) ?d))) = length (ld_tasks d)"
    using lens by (simp add: turn_deadline_def turn_resolved_def Let_def)
  ultimately show ?case by (simp only: run) blast
qed

lemma fold_steps:
  assumes "books_ok m d" "waiters_ok d"
  shows "books_ok m (fold load_step es d) \<and> waiters_ok (fold load_step es d)"
  using assms by (induction es arbitrary: d) (simp_all add: books_step waiters_step)

lemma step_vm_id: "ld_vm_id (load_step e d) = ld_vm_id d"
  by (cases e) (auto simp: turn_submit_def turn_sent_def turn_resolved_def turn_deadline_def router_recv_def Let_def
      split: option.split guest_to_host.split)

lemma fold_vm_id: "ld_vm_id (fold load_step es d) = ld_vm_id d"
  by (induction es arbitrary: d) (simp_all add: step_vm_id)

lemma over_phases:
  "list_all over ts \<Longrightarrow> length (filter (\<lambda>t. tk_phase t = T_ok) ts) + length (filter (\<lambda>t. tk_phase t = T_dropped) ts)
     + length (filter (\<lambda>t. tk_phase t = T_unsent) ts) = length ts"
proof (induction ts)
  case (Cons t ts)
  then show ?case by (cases "tk_phase t") (auto simp: over_def)
qed simp

text \<open>
  C26. No turn hangs and every turn is booked once. Whatever happened to the load run, with turns
  submitted, sent or not, completions routed, ids used twice and the link closed in any order: once every
  send has returned and every deadline has passed, each turn is over and no waiter is left; each
  turn is then completed, dropped or unsent, the \<open>ok\<close> counter has grown by the completed ones, the
  \<open>dropped\<close> counter by the other two, while \<open>dropped()\<close> counts only the turns that ran into their
  deadline and not those that could not be sent.
\<close>

theorem no_turn_hangs:
  "let d = fold load_step es (driver_new vm m);
       d' = fold load_step (run_out sent (length (ld_tasks d))) d
   in list_all over (ld_tasks d') \<and> ld_waiters d' = (\<lambda>_. None)
     \<and> in_phase T_ok d' + in_phase T_dropped d' + in_phase T_unsent d' = length (ld_tasks d)
     \<and> ld_dropped d' = of_nat (in_phase T_dropped d')
     \<and> mt_test_turns (ld_metrics d') (vm, ''ok'') = mt_test_turns m (vm, ''ok'') + of_nat (in_phase T_ok d')
     \<and> mt_test_turns (ld_metrics d') (vm, ''dropped'')
         = mt_test_turns m (vm, ''dropped'') + of_nat (in_phase T_dropped d' + in_phase T_unsent d')"
proof -
  define d0 where "d0 = driver_new vm m"
  define d where "d = fold load_step es d0"
  define d' where "d' = fold load_step (run_out sent (length (ld_tasks d))) d"
  have d': "d' = fold load_step (es @ run_out sent (length (ld_tasks d))) d0" by (simp add: d'_def d_def)
  have "books_ok m d0 \<and> waiters_ok d0"
    by (simp add: d0_def books_ok_def waiters_ok_def driver_new_def in_phase_def)
  then have books: "books_ok m d'" and ok: "waiters_ok d'" unfolding d' using fold_steps by blast+
  have len: "length (ld_tasks d') = length (ld_tasks d)" and over: "list_all over (ld_tasks d')"
    using run_out_over [of "length (ld_tasks d)" d sent] by (simp_all add: d'_def list_all_length)
  have "ld_waiters d' t = None" for t
  proof (cases "ld_waiters d' t")
    case (Some i)
    then have "i < length (ld_tasks d')" "\<not> over (ld_tasks d' ! i)" using waiters_okD [OF ok, of t i] by blast+
    with over show ?thesis by (auto simp: list_all_length)
  qed
  then have none: "ld_waiters d' = (\<lambda>_. None)" by blast
  have "ld_vm_id d' = vm" unfolding d' by (simp add: fold_vm_id d0_def driver_new_def)
  with books over none over_phases [OF over] len show ?thesis
    unfolding Let_def d0_def [symmetric] d_def [symmetric] d'_def [symmetric]
    by (simp add: books_ok_def in_phase_def)
qed

end
