(* ===== verification/Load_Report.thy ===== *)
theory Load_Report
  imports Byte_Strings "HOL-Library.Multiset"
begin

text \<open>
  Measuring and reporting: the latency recorder and the open-loop run of \<open>crates/harness/src/recorder.rs\<close>
  and \<open>loadgen.rs\<close>, and the report of \<open>report.rs\<close>. The HDR histogram is a record of its operations, and
  printing a number of milliseconds with three decimals, which goes through a double, is a parameter.
  A duration is a number of nanoseconds.
\<close>

record 'g histogram =
  hg_new :: 'g
  hg_record :: "u64 \<Rightarrow> 'g \<Rightarrow> 'g option"
  hg_len :: "'g \<Rightarrow> u64"
  hg_max :: "'g \<Rightarrow> u64"
  hg_quantile :: "nat \<Rightarrow> 'g \<Rightarrow> u64"

datatype record_error = CompletedBeforeIntended duration duration | RecordOutOfRange duration

record latency_stats =
  ls_count :: u64
  ls_p50 :: duration
  ls_p90 :: duration
  ls_p99 :: duration
  ls_p99_9 :: duration
  ls_max :: duration

text \<open>\<open>u64::try_from(d.as_micros()).unwrap_or(u64::MAX)\<close>\<close>

definition dur_us :: "duration \<Rightarrow> u64" where
  "dur_us d = (let us = d div 1000 in if us < 2 ^ 64 then of_nat us else - 1)"

definition from_micros :: "u64 \<Rightarrow> duration" where
  "from_micros n = unat n * 1000"

text \<open>The recorder is its histogram, made with three significant figures and as wide as it needs to be.\<close>

definition rec_new :: "'g histogram \<Rightarrow> 'g" where "rec_new hg = hg_new hg"

definition rec_count :: "'g histogram \<Rightarrow> 'g \<Rightarrow> u64" where "rec_count hg g = hg_len hg g"

definition record_latency :: "'g histogram \<Rightarrow> duration \<Rightarrow> ('g, record_error, unit) eff" where
  "record_latency hg latency g =
     (case hg_record hg (dur_us latency) g of
        None \<Rightarrow> (Inl (RecordOutOfRange latency), g)
      | Some g' \<Rightarrow> (Inr (), g'))"

definition record_sample :: "'g histogram \<Rightarrow> duration \<Rightarrow> duration \<Rightarrow> ('g, record_error, unit) eff" where
  "record_sample hg intended completed =
     (if completed < intended then errE (CompletedBeforeIntended intended completed)
      else record_latency hg (completed - intended))"

text \<open>Quantiles are in thousandths.\<close>

definition rec_summary :: "'g histogram \<Rightarrow> 'g \<Rightarrow> latency_stats" where
  "rec_summary hg g = (let q = (\<lambda>k. from_micros (hg_quantile hg k g)) in
     \<lparr> ls_count = hg_len hg g, ls_p50 = q 500, ls_p90 = q 900, ls_p99 = q 990, ls_p99_9 = q 999,
       ls_max = from_micros (hg_max hg g) \<rparr>)"

text \<open>
  The run: turn \<open>i\<close> starts at its intended time or later, so it is given by when it completed; the turns
  are recorded in the order they complete.
\<close>

definition run_load :: "'g histogram \<Rightarrow> duration list \<Rightarrow> (nat \<times> duration) list \<Rightarrow> latency_stats" where
  "run_load hg schedule completions =
     rec_summary hg (fold (\<lambda>(i, completed) g. snd (record_sample hg (schedule ! i) completed g)) completions (hg_new hg))"

section \<open>The report\<close>

record methodology =
  me_machine :: string
  me_versions_hash :: string
  me_runs :: u32
  me_warmup_runs :: u32

record migration_record =
  mr_vm :: string
  mr_from :: string
  mr_to :: string
  mr_freeze_window_us :: u64
  mr_e2e_us :: u64
  mr_bytes_moved :: u64
  mr_faults_served :: u64

record latency_slice =
  sl_label :: string
  sl_count :: u64
  sl_p50_us :: u64
  sl_p99_us :: u64

record idle_gap_bucket =
  ib_upper_ms :: u64
  ib_count :: u64

record run_report =
  rr_methodology :: methodology
  rr_migrations :: "migration_record list"
  rr_latency_clean :: latency_slice
  rr_latency_overlapping :: latency_slice
  rr_idle_gap_buckets :: "idle_gap_bucket list"

definition from_stats :: "string \<Rightarrow> latency_stats \<Rightarrow> latency_slice" where
  "from_stats label stats = \<lparr> sl_label = label, sl_count = ls_count stats, sl_p50_us = dur_us (ls_p50 stats),
     sl_p99_us = dur_us (ls_p99 stats) \<rparr>"

definition min_median_max :: "u64 list \<Rightarrow> u64 \<times> u64 \<times> u64" where
  "min_median_max vals =
     (if vals = [] then (0, 0, 0)
      else let sorted = sort vals
        in (sorted ! 0, sorted ! ((length sorted - 1) div 2), sorted ! (length sorted - 1)))"

text \<open>\<open>i64::try_from(n).unwrap_or(i64::MAX)\<close>, and the difference of two such values.\<close>

definition sat_i64 :: "u64 \<Rightarrow> int" where
  "sat_i64 n = min (uint n) (2 ^ 63 - 1)"

definition p99_delta :: "latency_slice \<Rightarrow> latency_slice \<Rightarrow> int" where
  "p99_delta clean overlapping = sat_i64 (sl_p99_us overlapping) - sat_i64 (sl_p99_us clean)"

text \<open>The characters of the report beyond ASCII, as UTF-8.\<close>

definition arrow :: string where "arrow = map char_of [0xE2, 0x86, 0x92 :: nat]"
definition middot :: string where "middot = map char_of [0xC2, 0xB7 :: nat]"
definition minus_sign :: string where "minus_sign = map char_of [0xE2, 0x88, 0x92 :: nat]"
definition at_most_sign :: string where "at_most_sign = map char_of [0xE2, 0x89, 0xA4 :: nat]"

definition nl :: string where "nl = [CHR 0x0A]"

definition show_u :: "'a::len word \<Rightarrow> string" where
  "show_u n = show_nat (unat n)"

definition render_methodology :: "methodology \<Rightarrow> string" where
  "render_methodology m = ''## Methodology'' @ nl @ nl
     @ ''- **Machine:** '' @ me_machine m @ nl
     @ ''- **Versions hash:** `'' @ me_versions_hash m @ ''`'' @ nl
     @ ''- **Runs:** '' @ show_u (me_runs m) @ '' measured ('' @ show_u (me_warmup_runs m) @ '' warm-up discarded)'' @ nl @ nl"

definition table_row :: "string list \<Rightarrow> string" where
  "table_row cells = ''|'' @ concat (map (\<lambda>c. '' '' @ c @ '' |'') cells) @ nl"

definition render_migrations :: "(int \<Rightarrow> string) \<Rightarrow> migration_record list \<Rightarrow> string" where
  "render_migrations ms records = ''## Migrations'' @ nl @ nl @
     (if records = [] then ''_No migrations recorded._'' @ nl @ nl
      else ''| VM | From '' @ arrow @ '' To | Freeze (ms) | E2E (ms) | Bytes moved | Faults served |'' @ nl
        @ ''|----|-----------|------------:|---------:|------------:|--------------:|'' @ nl
        @ concat (map (\<lambda>r. table_row [mr_vm r, mr_from r @ '' '' @ arrow @ '' '' @ mr_to r, ms (uint (mr_freeze_window_us r)),
             ms (uint (mr_e2e_us r)), show_u (mr_bytes_moved r), show_u (mr_faults_served r)]) records)
        @ (case min_median_max (map mr_freeze_window_us records) of (mn, med, mx) \<Rightarrow>
             nl @ ''**Freeze window** across '' @ show_nat (length records) @ '' migration(s): min '' @ ms (uint mn) @ '' ms ''
             @ middot @ '' median '' @ ms (uint med) @ '' ms '' @ middot @ '' max '' @ ms (uint mx) @ '' ms.'' @ nl @ nl))"

definition render_latency :: "(int \<Rightarrow> string) \<Rightarrow> latency_slice \<Rightarrow> latency_slice \<Rightarrow> string" where
  "render_latency ms clean overlapping = ''## Turn latency: clean vs. migration-overlapping'' @ nl @ nl
     @ ''| Slice | Samples | p50 (ms) | p99 (ms) |'' @ nl
     @ ''|-------|--------:|---------:|---------:|'' @ nl
     @ concat (map (\<lambda>s. table_row [sl_label s, show_u (sl_count s), ms (uint (sl_p50_us s)), ms (uint (sl_p99_us s))])
         [clean, overlapping])
     @ nl @ ''**p99 delta** (overlapping '' @ minus_sign @ '' clean): '' @ ms (p99_delta clean overlapping) @ '' ms.'' @ nl @ nl"

definition render_idle_gaps :: "idle_gap_bucket list \<Rightarrow> string" where
  "render_idle_gaps buckets = ''## Idle-gap distribution'' @ nl @ nl @
     (if buckets = [] then ''_No idle gaps recorded._'' @ nl
      else ''| '' @ at_most_sign @ '' ms | Count |'' @ nl @ ''|-----:|------:|'' @ nl
        @ concat (map (\<lambda>b. table_row [show_u (ib_upper_ms b), show_u (ib_count b)]) buckets))"

definition render_markdown :: "(int \<Rightarrow> string) \<Rightarrow> run_report \<Rightarrow> string" where
  "render_markdown ms report = ''# sleepwalk measurement report'' @ nl @ nl
     @ render_methodology (rr_methodology report)
     @ render_migrations ms (rr_migrations report)
     @ render_latency ms (rr_latency_clean report) (rr_latency_overlapping report)
     @ render_idle_gaps (rr_idle_gap_buckets report)"

section \<open>What the summaries mean\<close>

lemma p99_delta_range: "- (2 ^ 63 - 1) \<le> p99_delta a b \<and> p99_delta a b \<le> 2 ^ 63 - 1"
proof -
  have "0 \<le> sat_i64 n \<and> sat_i64 n \<le> 2 ^ 63 - 1" for n by (simp add: sat_i64_def)
  from this [of "sl_p99_us a"] this [of "sl_p99_us b"] show ?thesis unfolding p99_delta_def by linarith
qed

lemma filter_part: "length (filter P (take k xs)) \<le> length (filter P xs)" "length (filter P (drop k xs)) \<le> length (filter P xs)"
  by (metis append_take_drop_id filter_append length_append le_add1, metis append_take_drop_id filter_append length_append le_add2)

lemma sorted_count:
  assumes "sorted xs" "k < length xs"
  shows "k + 1 \<le> length (filter (\<lambda>x. x \<le> xs ! k) xs)" "length xs - k \<le> length (filter (\<lambda>x. xs ! k \<le> x) xs)"
proof -
  have "\<forall>x \<in> set (take (Suc k) xs). x \<le> xs ! k"
    using assms by (auto simp: in_set_conv_nth sorted_iff_nth_mono)
  then have "filter (\<lambda>x. x \<le> xs ! k) (take (Suc k) xs) = take (Suc k) xs" by simp
  then show "k + 1 \<le> length (filter (\<lambda>x. x \<le> xs ! k) xs)"
    using filter_part(1) [of "\<lambda>x. x \<le> xs ! k" "Suc k" xs] assms(2) by simp
  have "\<forall>x \<in> set (drop k xs). xs ! k \<le> x"
    using assms by (auto simp: in_set_conv_nth sorted_iff_nth_mono)
  then have "filter (\<lambda>x. xs ! k \<le> x) (drop k xs) = drop k xs" by simp
  then show "length xs - k \<le> length (filter (\<lambda>x. xs ! k \<le> x) xs)"
    using filter_part(2) [of "\<lambda>x. xs ! k \<le> x" k xs] by simp
qed

lemma length_filter_sort: "length (filter P (sort xs)) = length (filter P xs)" for xs :: "'a::linorder list"
  by (metis mset_filter mset_sort size_mset)

lemma sorted_ends:
  assumes "sorted xs" "xs \<noteq> []"
  shows "xs ! 0 = Min (set xs)" "xs ! (length xs - 1) = Max (set xs)"
proof -
  have ends: "0 < length xs" "length xs - 1 < length xs" using assms(2) by simp_all
  have "x \<in> set xs \<Longrightarrow> xs ! 0 \<le> x \<and> x \<le> xs ! (length xs - 1)" for x
    using assms(1) by (auto simp: in_set_conv_nth sorted_iff_nth_mono)
  with ends nth_mem show "xs ! 0 = Min (set xs)" "xs ! (length xs - 1) = Max (set xs)"
    by (metis List.finite_set Min_eqI, metis List.finite_set Max_eqI)
qed

text \<open>
  The freeze-window summary of the report. Of any nonempty list of values the three numbers printed
  are its least and greatest value and a lower median: a value of the list with at least half of the
  values, rounded up, at or below it and more than half, for an even count, at or above it. For no values
  all three are zero.
\<close>

theorem min_median_max_spec:
  "case min_median_max vals of (mn, med, mx) \<Rightarrow>
     if vals = [] then mn = 0 \<and> med = 0 \<and> mx = 0
     else mn = Min (set vals) \<and> mx = Max (set vals) \<and> med \<in> set vals
       \<and> (length vals + 1) div 2 \<le> length (filter (\<lambda>x. x \<le> med) vals)
       \<and> length vals div 2 + 1 \<le> length (filter (\<lambda>x. med \<le> x) vals)"
proof (cases "vals = []")
  case False
  let ?s = "sort vals" and ?k = "(length vals - 1) div 2"
  have s: "sorted ?s" "?s \<noteq> []" "set ?s = set vals" "length ?s = length vals"
  proof -
    show "length ?s = length vals" by simp
    with False show "?s \<noteq> []" by (cases vals) force+
  qed simp_all
  have k: "?k < length ?s" using False by (cases vals) auto
  have half: "(length vals + 1) div 2 = ?k + 1" "length vals div 2 + 1 = length ?s - ?k"
  proof -
    obtain n where n: "length vals = Suc n" using False by (cases vals) auto
    have "(Suc n + 1) div 2 = n div 2 + 1" "Suc n div 2 + 1 = Suc n - n div 2" by presburger+
    then show "(length vals + 1) div 2 = ?k + 1" "length vals div 2 + 1 = length ?s - ?k" by (simp_all only: n s(4) diff_Suc_1)
  qed
  have mmm: "min_median_max vals = (?s ! 0, ?s ! ?k, ?s ! (length ?s - 1))"
    using False s(4) by (simp add: min_median_max_def Let_def)
  have "(length vals + 1) div 2 \<le> length (filter (\<lambda>x. x \<le> ?s ! ?k) vals)"
    using sorted_count(1) [OF s(1) k] unfolding half length_filter_sort .
  moreover have "length vals div 2 + 1 \<le> length (filter (\<lambda>x. ?s ! ?k \<le> x) vals)"
    using sorted_count(2) [OF s(1) k] unfolding half length_filter_sort .
  moreover have "?s ! ?k \<in> set vals" using nth_mem [OF k] s(3) by simp
  ultimately show ?thesis
    using sorted_ends [OF s(1,2)] s(3) False by (simp add: mmm)
qed (simp add: min_median_max_def)

end
