(* ===== verification/Arrival_Schedule.thy ===== *)
theory Arrival_Schedule
  imports Chaos_Harness Comparators
begin

text \<open>
  The arrival schedule of the load generator, \<open>crates/harness/src/schedule.rs\<close>: when each turn is meant
  to start. The operations on doubles are the real operations followed by \<open>rnd\<close>, the rounding to the
  nearest double, and \<open>f_ln\<close>, the logarithm of the platform; both are parameters. Neither loop is
  obviously finite, so both are partial functions: a schedule is \<open>None\<close> when the loop does not end.
\<close>

datatype arrivals = Fixed | Poisson u64

text \<open>\<open>Duration::as_secs_f64\<close>, and \<open>Duration::from_secs_f64\<close>, to the nearest nanosecond, ties to even.\<close>

definition as_secs_f64 :: "(real \<Rightarrow> real) \<Rightarrow> duration \<Rightarrow> real" where
  "as_secs_f64 rnd d = rnd (rnd (real (d div 1000000000)) + rnd (rnd (real (d mod 1000000000)) / 1000000000))"

definition round_even :: "real \<Rightarrow> int" where
  "round_even x = (let n = \<lfloor>x\<rfloor>; r = x - of_int n in
     if r < 1 / 2 then n else if 1 / 2 < r then n + 1 else if even n then n else n + 1)"

definition from_secs_f64 :: "real \<Rightarrow> duration" where
  "from_secs_f64 t = nat (round_even (t * 1000000000))"

text \<open>A double from the top 53 bits of the generator, in \<open>[0, 1)\<close>; it is exact.\<close>

definition next_f64 :: "u64 \<Rightarrow> real \<times> u64" where
  "next_f64 state = (let (r, state) = next_u64 state in (real (unat (drop_bit 11 r)) / 2 ^ 53, state))"

section \<open>The two loops\<close>

definition fixed_time :: "(real \<Rightarrow> real) \<Rightarrow> real \<Rightarrow> nat \<Rightarrow> real" where
  "fixed_time rnd rate i = rnd (rnd (real i) * rnd (1 / rate))"

partial_function (option) fixed_loop :: "(real \<Rightarrow> real) \<Rightarrow> real \<Rightarrow> real \<Rightarrow> u64 \<Rightarrow> duration list option" where
  "fixed_loop rnd rate horizon i =
     (let t = fixed_time rnd rate (unat i) in
      if horizon \<le> t then Some []
      else Option.bind (fixed_loop rnd rate horizon (i + 1)) (\<lambda>ts. Some (from_secs_f64 t # ts)))"

partial_function (option) poisson_loop ::
  "(real \<Rightarrow> real) \<Rightarrow> (real \<Rightarrow> real) \<Rightarrow> real \<Rightarrow> real \<Rightarrow> u64 \<Rightarrow> real \<Rightarrow> duration list option" where
  "poisson_loop rnd f_ln rate horizon rng t =
     (let (u, rng) = next_f64 rng;
          t = rnd (t + rnd (- f_ln (rnd (1 - u)) / rate))
      in if horizon \<le> t then Some []
         else Option.bind (poisson_loop rnd f_ln rate horizon rng t) (\<lambda>ts. Some (from_secs_f64 t # ts)))"

declare fixed_loop.simps [code] poisson_loop.simps [code]

text \<open>
  \<open>1.0 / rate\<close> is infinite from half a unit above the largest double on. Then the first time is
  \<open>0.0 * inf\<close>, a NaN, which is not at or past the horizon, and \<open>Duration::from_secs_f64\<close> panics on it.
\<close>

datatype schedule_panic = From_secs_nan

definition overflows :: "real \<Rightarrow> bool" where
  "overflows x \<longleftrightarrow> 2 ^ 1024 - 2 ^ 970 \<le> x"

definition schedule_generate ::
  "(real \<Rightarrow> real) \<Rightarrow> (real \<Rightarrow> real) \<Rightarrow> f64 \<Rightarrow> duration \<Rightarrow> arrivals \<Rightarrow> (schedule_panic + duration list) option" where
  "schedule_generate rnd f_ln rate_per_sec duration arr =
     (case rate_per_sec of
        Fin q \<Rightarrow>
          if q \<le> 0 then Some (Inr [])
          else let rate = real_of_rat q; horizon = as_secs_f64 rnd duration in
            (case arr of
               Fixed \<Rightarrow> if overflows (1 / rate) then Some (Inl From_secs_nan)
                         else map_option Inr (fixed_loop rnd rate horizon 0)
             | Poisson seed \<Rightarrow> map_option Inr (poisson_loop rnd f_ln rate horizon (splitmix_new seed) 0))
      | _ \<Rightarrow> Some (Inr []))"

section \<open>Rounding to the nanosecond\<close>

lemma round_even_bounds: "x - 1 / 2 \<le> of_int (round_even x)" "of_int (round_even x) \<le> x + 1 / 2"
  unfolding round_even_def Let_def by (auto split: if_splits) linarith+

lemma round_even_mono:
  assumes "x \<le> y"
  shows "round_even x \<le> round_even y"
proof (cases "\<lfloor>x\<rfloor> = \<lfloor>y\<rfloor>")
  case True
  with assms show ?thesis unfolding round_even_def Let_def by auto
next
  case False
  with floor_mono [OF assms] have "\<lfloor>x\<rfloor> + 1 \<le> \<lfloor>y\<rfloor>" by linarith
  then show ?thesis unfolding round_even_def Let_def by auto
qed

lemma from_secs_mono: "s \<le> t \<Longrightarrow> from_secs_f64 s \<le> from_secs_f64 t"
  unfolding from_secs_f64_def by (intro nat_mono round_even_mono) simp

section \<open>The evenly spaced schedule\<close>

text \<open>What is assumed of the rounding: it keeps order and zero, and at most halves what is not below the least double.\<close>

definition rounding :: "(real \<Rightarrow> real) \<Rightarrow> bool" where
  "rounding rnd \<longleftrightarrow> mono rnd \<and> rnd 0 = 0 \<and> (\<forall>x \<ge> 1 / 2 ^ 1074. x / 2 \<le> rnd x)"

lemma fixed_time_mono:
  assumes "rounding rnd" "0 < rate" "i \<le> j"
  shows "fixed_time rnd rate i \<le> fixed_time rnd rate j"
proof -
  have m: "mono rnd" and z: "rnd 0 = 0" using assms(1) by (auto simp: rounding_def)
  have "0 \<le> rnd (1 / rate)" using monoD [OF m, of 0 "1 / rate"] z assms(2) by simp
  moreover have "rnd (real i) \<le> rnd (real j)" by (rule monoD [OF m]) (simp add: assms(3))
  ultimately show ?thesis unfolding fixed_time_def by (intro monoD [OF m, of "_ * _"] mult_right_mono)
qed

lemma fixed_time_grows:
  assumes r: "rounding rnd" and rate: "0 < rate" "rate < 2 ^ 1024" and i: "0 < i"
  shows "real i / (8 * rate) \<le> fixed_time rnd rate i"
proof -
  have half: "x / 2 \<le> rnd x" if "1 / 2 ^ 1074 \<le> x" for x using r that by (auto simp: rounding_def)
  have p: "(2::real) ^ 1074 = 2 ^ 1024 * 2 ^ 50" by (simp flip: power_add)
  have inv: "1 / 2 ^ 1024 \<le> 1 / rate" using rate by (intro divide_left_mono) simp_all
  moreover have "(1::real) / 2 ^ 1074 \<le> 1 / 2 ^ 1024 / 4" unfolding p by simp
  moreover have "1 / 2 ^ 1024 / 4 \<le> 1 / rate / 4" using inv by (intro divide_right_mono) simp_all
  ultimately have small: "1 / 2 ^ 1074 \<le> 1 / rate / 4" by linarith
  have "1 / rate / 2 \<le> rnd (1 / rate)" by (rule half) (use small rate in \<open>simp add: field_simps\<close>)
  moreover have "real i / 2 \<le> rnd (real i)"
  proof (rule half)
    have "(1::real) / 2 ^ 1074 \<le> 1" by simp
    also have "1 \<le> real i" using i by simp
    finally show "1 / 2 ^ 1074 \<le> real i" .
  qed
  ultimately have prod: "real i / 2 * (1 / rate / 2) \<le> rnd (real i) * rnd (1 / rate)"
    using rate by (intro mult_mono) simp_all
  have "1 / rate / 4 \<le> real i / 2 * (1 / rate / 2)" using i rate by (simp add: field_simps)
  with prod small have "1 / 2 ^ 1074 \<le> rnd (real i) * rnd (1 / rate)" by linarith
  from half [OF this] prod show ?thesis unfolding fixed_time_def by (simp add: field_simps)
qed

lemma fixed_loop_times:
  assumes "i + k < 2 ^ 64" "horizon \<le> fixed_time rnd rate (i + k)" "\<forall>j < k. fixed_time rnd rate (i + j) < horizon"
  shows "fixed_loop rnd rate horizon (of_nat i) = Some (map (\<lambda>j. from_secs_f64 (fixed_time rnd rate j)) [i ..< i + k])"
  using assms
proof (induction k arbitrary: i)
  case 0
  have "unat (of_nat i :: u64) = i" using "0.prems"(1) by (simp add: unsigned_of_nat take_bit_nat_eq_self_iff)
  with "0.prems"(2) show ?case by (subst fixed_loop.simps) (simp add: Let_def del: unsigned_of_nat)
next
  case (Suc k)
  have u: "unat (of_nat i :: u64) = i" using Suc.prems(1) by (simp add: unsigned_of_nat take_bit_nat_eq_self_iff)
  have "\<forall>j < k. fixed_time rnd rate (Suc i + j) < horizon" using Suc.prems(3) by auto
  with Suc.IH [of "Suc i"] Suc.prems(1,2)
  have "fixed_loop rnd rate horizon (of_nat i + 1) = Some (map (\<lambda>j. from_secs_f64 (fixed_time rnd rate j)) [Suc i ..< i + Suc k])"
    by (simp add: add.commute)
  moreover have "fixed_time rnd rate i < horizon" using Suc.prems(3) by force
  moreover have "[i ..< i + Suc k] = i # [Suc i ..< i + Suc k]" by (rule upt_conv_Cons) simp
  ultimately show ?case by (subst fixed_loop.simps) (simp add: u)
qed

text \<open>
  C40. The evenly spaced schedule is computed and is what it should be. For every finite positive rate
  whose reciprocal is a double, and a horizon of fewer than \<open>2^61\<close> intervals, \<open>generate\<close> returns: turn
  \<open>i\<close> is meant to start \<open>i / rate\<close> seconds in, as rounded, the times ascend, a turn is scheduled exactly while
  its time is before the horizon, and there are at most eight times as many turns as intervals, and one.
\<close>

theorem fixed_schedule_spec:
  assumes "rounding rnd" "0 < q" "real_of_rat q < 2 ^ 1024" "\<not> overflows (1 / real_of_rat q)"
    and "8 * real_of_rat q * as_secs_f64 rnd d < 2 ^ 64 - 1"
  shows "\<exists>n. schedule_generate rnd f_ln (Fin q) d Fixed
        = Some (Inr (map (\<lambda>i. from_secs_f64 (fixed_time rnd (real_of_rat q) i)) [0 ..< n]))
      \<and> sorted (map (\<lambda>i. from_secs_f64 (fixed_time rnd (real_of_rat q) i)) [0 ..< n])
      \<and> (\<forall>i. i < n \<longleftrightarrow> fixed_time rnd (real_of_rat q) i < as_secs_f64 rnd d)
      \<and> real n \<le> max 0 (8 * real_of_rat q * as_secs_f64 rnd d) + 1"
proof -
  let ?rate = "real_of_rat q" and ?hor = "as_secs_f64 rnd d"
  let ?past = "\<lambda>i. ?hor \<le> fixed_time rnd ?rate i"
  define n where "n = (LEAST i. ?past i)"
  define m where "m = nat \<lceil>8 * ?rate * ?hor\<rceil>"
  have rate: "0 < ?rate" using assms(2) by simp
  have m: "?past m"
  proof (cases "m = 0")
    case True
    then have "8 * ?rate * ?hor \<le> 0" unfolding m_def by linarith
    then have "?hor \<le> 0" using rate by (simp add: mult_le_0_iff)
    moreover have "fixed_time rnd ?rate 0 = 0" using assms(1) by (simp add: fixed_time_def rounding_def)
    ultimately show ?thesis using True by simp
  next
    case False
    have "8 * ?rate * ?hor \<le> real m" unfolding m_def by linarith
    then have "?hor \<le> real m / (8 * ?rate)" using rate by (simp add: field_simps)
    with fixed_time_grows [OF assms(1) rate assms(3)] False show ?thesis by (meson dual_order.trans gr0I)
  qed
  have n: "?past n" "n \<le> m" unfolding n_def by (rule LeastI [of ?past, OF m], rule Least_le [of ?past, OF m])
  have before: "i < n \<longleftrightarrow> fixed_time rnd ?rate i < ?hor" for i
    using not_less_Least [of i ?past] fixed_time_mono [OF assms(1) rate, of n i] n(1) unfolding n_def [symmetric]
    by (meson dual_order.trans not_le)
  have "real m \<le> max 0 (8 * ?rate * ?hor) + 1" unfolding m_def by linarith
  moreover from this assms(5) have "real m < 2 ^ 64" by simp
  then have "m < 2 ^ 64" by (metis of_nat_less_iff of_nat_numeral of_nat_power)
  with n(2) have "n < 2 ^ 64" by simp
  with fixed_loop_times [of 0 n ?hor rnd ?rate] n(1) before
  have loop: "fixed_loop rnd ?rate ?hor 0 = Some (map (\<lambda>i. from_secs_f64 (fixed_time rnd ?rate i)) [0 ..< n])" by simp
  have "schedule_generate rnd f_ln (Fin q) d Fixed
      = Some (Inr (map (\<lambda>i. from_secs_f64 (fixed_time rnd ?rate i)) [0 ..< n]))"
    using assms(2,4) loop by (simp add: schedule_generate_def Let_def)
  moreover have "sorted (map (\<lambda>i. from_secs_f64 (fixed_time rnd ?rate i)) [0 ..< n])"
    by (auto simp: sorted_iff_nth_mono intro!: from_secs_mono fixed_time_mono assms(1) rate)
  ultimately show ?thesis using before n(2) by (intro exI [of _ n]) auto
qed

text \<open>Five turns a second for one second, in exact arithmetic.\<close>

lemma fixed_schedule_spec_witness:
  "\<exists>n. schedule_generate id ln (Fin 5) 1000000000 Fixed
     = Some (Inr (map (\<lambda>i. from_secs_f64 (fixed_time id 5 i)) [0 ..< n])) \<and> (\<forall>i. i < n \<longleftrightarrow> fixed_time id 5 i < 1)"
proof -
  have r: "rounding id" by (simp add: rounding_def mono_def)
  have hor: "as_secs_f64 id 1000000000 = 1" by (simp add: as_secs_f64_def)
  have "\<not> overflows (1 / real_of_rat 5)" by (simp add: overflows_def)
  from fixed_schedule_spec [OF r _ _ this, of 1000000000 ln] show ?thesis by (auto simp: hor)
qed

text \<open>
  The times are not strictly before the end of the schedule: one that is less than half a nanosecond
  before the horizon is rounded onto it.
\<close>

lemma time_on_the_horizon:
  "fixed_time id (1 / (1 - 1 / 10000000000)) 1 < as_secs_f64 id 1000000000
   \<and> from_secs_f64 (fixed_time id (1 / (1 - 1 / 10000000000)) 1) = 1000000000"
proof -
  have t: "fixed_time id (1 / (1 - 1 / 10000000000)) 1 = 1 - 1 / 10000000000" by (simp add: fixed_time_def)
  have "\<lfloor>9999999999 / 10 :: real\<rfloor> = 999999999" by (rule floor_unique) simp_all
  then have "from_secs_f64 (1 - 1 / 10000000000) = 1000000000" by (simp add: from_secs_f64_def round_even_def)
  then show ?thesis unfolding t by (simp add: as_secs_f64_def)
qed

section \<open>The Poisson schedule\<close>

text \<open>The state of the generator is a counter with an odd step, so every state comes up again.\<close>

abbreviation gamma :: u64 where "gamma \<equiv> 0x9E3779B97F4A7C15"

lemma next_u64_state: "snd (next_u64 s) = s + gamma"
  by (simp add: next_u64_def Let_def)

lemma weyl_hits: "\<exists>k. s + of_nat k * gamma = (goal :: u64)"
proof -
  let ?inv = "0xF1DE83E19937733D :: u64"
  have ac: "x * y * z = x * (z * y)" for x y z :: u64 by (simp add: ac_simps)
  have inv: "gamma * ?inv = 1" by simp
  have "s + of_nat (unat ((goal - s) * ?inv)) * gamma = s + (goal - s) * ?inv * gamma" by simp
  also have "\<dots> = goal" by (simp only: ac inv) simp
  finally show ?thesis by blast
qed

definition gap :: "real \<Rightarrow> u64 \<Rightarrow> real" where
  "gap rate rng = - ln (1 - fst (next_f64 rng)) / rate"

lemma unit_f64: "0 \<le> fst (next_f64 rng)" "fst (next_f64 rng) < 1"
proof -
  let ?r = "fst (next_u64 rng)"
  have "unat (drop_bit 11 ?r) = unat ?r div 2 ^ 11" by (simp only: unat_drop_bit_eq) (simp add: drop_bit_eq_div)
  moreover have "unat ?r < 2 ^ 64" using unsigned_less [of ?r] by simp
  ultimately have "unat (drop_bit 11 ?r) < 2 ^ 53" by simp
  then have "real (unat (drop_bit 11 ?r)) < 2 ^ 53" by (metis of_nat_less_iff of_nat_numeral of_nat_power)
  moreover have "(0::real) \<le> real (unat (drop_bit 11 ?r))" by (rule of_nat_0_le_iff)
  ultimately show "0 \<le> fst (next_f64 rng)" "fst (next_f64 rng) < 1" by (simp_all add: next_f64_def split_beta)
qed

lemma gap_nonneg: "0 < rate \<Longrightarrow> 0 \<le> gap rate rng"
proof -
  assume "0 < rate"
  moreover have "ln (1 - fst (next_f64 rng)) \<le> 0" using unit_f64 [of rng] by simp
  ultimately show ?thesis by (simp add: gap_def divide_nonpos_pos)
qed

lemma poisson_loop_exact:
  "poisson_loop id ln rate horizon rng t =
     (let t = t + gap rate rng in
      if horizon \<le> t then Some []
      else Option.bind (poisson_loop id ln rate horizon (rng + gamma) t) (\<lambda>ts. Some (from_secs_f64 t # ts)))"
proof -
  have "snd (next_f64 rng) = rng + gamma" using next_u64_state [of rng] by (auto simp: next_f64_def split: prod.splits)
  then show ?thesis by (subst poisson_loop.simps) (simp add: gap_def Let_def split_beta)
qed

lemma gap_positive: "0 < rate \<Longrightarrow> 0 < gap rate 0"
proof -
  have "fst (next_u64 0) = 0xE220A8397B1DCDAF" by (simp add: next_u64_def)
  then have "0 < fst (next_f64 0)" by (auto simp: next_f64_def split: prod.splits)
  moreover assume "0 < rate"
  moreover from calculation(1) have "ln (1 - fst (next_f64 0)) < 0" using unit_f64 [of 0] by simp
  ultimately show ?thesis by (simp add: gap_def divide_neg_pos)
qed

definition poisson_ends :: "real \<Rightarrow> real \<Rightarrow> u64 \<Rightarrow> real \<Rightarrow> bool" where
  "poisson_ends rate horizon rng t \<longleftrightarrow>
     (\<exists>ts. poisson_loop id ln rate horizon rng t = Some ts \<and> sorted ts
        \<and> (\<forall>x \<in> set ts. from_secs_f64 t \<le> x \<and> x \<le> from_secs_f64 horizon))"

lemma poisson_ends_step:
  assumes "0 < rate" "horizon \<le> t + gap rate rng \<or> poisson_ends rate horizon (rng + gamma) (t + gap rate rng)"
  shows "poisson_ends rate horizon rng t"
proof -
  have "t \<le> t + gap rate rng" using gap_nonneg [OF assms(1)] by simp
  note up = from_secs_mono [OF this]
  show ?thesis
  proof (cases "horizon \<le> t + gap rate rng")
    case True
    then show ?thesis by (simp add: poisson_ends_def poisson_loop_exact [of _ _ rng])
  next
    case False
    with assms(2) obtain ts where ts: "poisson_loop id ln rate horizon (rng + gamma) (t + gap rate rng) = Some ts" "sorted ts"
      "\<forall>x \<in> set ts. from_secs_f64 (t + gap rate rng) \<le> x \<and> x \<le> from_secs_f64 horizon"
      by (auto simp: poisson_ends_def)
    have "from_secs_f64 (t + gap rate rng) \<le> from_secs_f64 horizon" by (rule from_secs_mono) (use False in simp)
    with False ts up show ?thesis
      by (auto simp: poisson_ends_def poisson_loop_exact [of _ _ rng] Let_def intro: order_trans)
  qed
qed

lemma poisson_ends_within:
  assumes "0 < rate" "horizon \<le> t + real m * gap rate 0"
  shows "poisson_ends rate horizon rng t"
  using assms(2)
proof (induction m arbitrary: rng t)
  case 0
  with gap_nonneg [OF assms(1), of rng] show ?case by (intro poisson_ends_step [OF assms(1)]) simp
next
  case (Suc m)
  obtain k where "rng + of_nat k * gamma = 0" using weyl_hits [of rng 0] by blast
  then show ?case using Suc.prems
  proof (induction k arbitrary: rng t)
    case 0
    with Suc.IH [of "t + gap rate rng"] show ?case by (intro poisson_ends_step [OF assms(1)]) (simp add: algebra_simps)
  next
    case (Suc k)
    have "poisson_ends rate horizon (rng + gamma) (t + gap rate rng)"
      by (rule Suc.IH) (use Suc.prems gap_nonneg [OF assms(1), of rng] in \<open>simp_all add: algebra_simps\<close>)
    then show ?case by (intro poisson_ends_step [OF assms(1)]) simp
  qed
qed

text \<open>
  C39. The Poisson schedule is computed for every seed. In exact arithmetic, \<open>generate\<close> returns for every
  seed, every finite positive rate and every duration, with ascending times none of which is after the
  end of the schedule. It ends because the generator is a counter with an odd step: within its
  period it draws a number that moves the clock by a fixed positive amount.
\<close>

theorem poisson_schedule_ends:
  "0 < q \<Longrightarrow> \<exists>ts. schedule_generate id ln (Fin q) d (Poisson seed) = Some (Inr ts) \<and> sorted ts
     \<and> (\<forall>t \<in> set ts. t \<le> d)"
proof -
  assume q: "0 < q"
  then have rate: "0 < real_of_rat q" by simp
  let ?hor = "as_secs_f64 id d"
  have "real d = real (d div 1000000000) * 1000000000 + real (d mod 1000000000)"
    by (metis div_mult_mod_eq of_nat_add of_nat_mult of_nat_numeral)
  then have "?hor * 1000000000 = real d" by (simp add: as_secs_f64_def algebra_simps)
  then have d: "from_secs_f64 ?hor = d" by (simp add: from_secs_f64_def round_even_def)
  obtain m where "?hor \<le> real m * gap (real_of_rat q) 0"
    using ex_less_of_nat_mult [OF gap_positive [OF rate]] by (meson less_imp_le)
  then have "poisson_ends (real_of_rat q) ?hor (splitmix_new seed) 0"
    by (intro poisson_ends_within [OF rate, of _ _ m]) simp
  with q d show ?thesis by (auto simp: poisson_ends_def schedule_generate_def Let_def)
qed

lemma poisson_schedule_ends_witness:
  "\<exists>ts. schedule_generate id ln (Fin 50) 10000000000 (Poisson 1) = Some (Inr ts) \<and> sorted ts
     \<and> (\<forall>t \<in> set ts. t \<le> 10000000000)"
  by (rule poisson_schedule_ends) simp

end
