(* ===== verification/Move_Identity.thy ===== *)
theory Move_Identity
  imports Migrate_Run Transfer_Facts
begin

text \<open>
  What of a VM's identity survives a move: the metadata that \<open>migrate_running\<close> writes beside the snapshot,
  read back by \<open>receive_and_restore\<close> on another host.
\<close>

text \<open>A path that reads the same at every moment, as a received file that nobody else writes does.\<close>

definition stable_file :: "('w, 'h) host_os \<Rightarrow> path \<Rightarrow> string \<Rightarrow> bool" where
  "stable_file os p content \<longleftrightarrow> (\<forall>w. os_exists os p w \<and> os_read os p w = (Inr content, w))"

lemma replumb_stable:
  assumes "stable_file os (join_path work ''net.json'') bytes" "os_net_from_slice os bytes = Inr net"
    and "replumb_net os work h = (Inr n, h')"
  shows "n = Some net \<and> (\<exists>w w'. create_tap (os_ip os) (net_tap net) w = (Inr (), w'))"
  using assms
  by (auto simp: replumb_net_def stable_file_def io_ctx_def on_os_def map_errE_def Let_def
      split: prod.splits sum.splits if_splits)

lemma vsock_stable:
  "stable_file os (join_path work ''vsock.txt'') uds \<Longrightarrow> restored_vsock os work h = (p, h') \<Longrightarrow> p = trim uds"
  by (auto simp: restored_vsock_def stable_file_def on_os_def Let_def)

lemma resume_restored_fields:
  assumes "resume_restored os work t p net h = (Inr vm, h')" "stable_file os (join_path work ''vsock.txt'') uds"
  shows "rv_net vm = net \<and> rv_vsock_uds vm = trim uds \<and> rv_work vm = work \<and> (\<exists>w. rv_id vm = fst (os_fresh_uuid os w))"
  using assms vsock_stable [OF assms(2)]
  by (auto simp: resume_restored_def Let_def split: prod.splits sum.splits) (metis fst_conv)

lemma restore_into_fields:
  assumes "restore_into os bin l work h = (Inr vm, h')"
    and "stable_file os (join_path work ''net.json'') bytes" "os_net_from_slice os bytes = Inr net"
    and "stable_file os (join_path work ''vsock.txt'') uds"
  shows "rv_net vm = Some net \<and> rv_vsock_uds vm = trim uds \<and> rv_work vm = work
    \<and> (\<exists>w. rv_id vm = fst (os_fresh_uuid os w))
    \<and> (\<exists>w w'. create_tap (os_ip os) (net_tap net) w = (Inr (), w'))"
  using assms(1) replumb_stable [OF assms(2,3)] resume_restored_fields [OF _ assms(4)]
  by (fastforce simp: restore_into_def eff_iffs split: if_splits)

lemma write_metadata_files:
  assumes "write_metadata os vm h = (Inr extra, h')" "rv_net vm = Some net"
  shows "\<exists>bytes. os_net_to_vec os net = Inr bytes
    \<and> extra = [\<lparr> of_name = ''vsock.txt'', of_path = join_path (rv_work vm) ''vsock.txt'' \<rparr>,
        \<lparr> of_name = ''net.json'', of_path = join_path (rv_work vm) ''net.json'' \<rparr>]
    \<and> (\<exists>w w1. os_write os (join_path (rv_work vm) ''vsock.txt'') (rv_vsock_uds vm) w = (Inr (), w1))
    \<and> (\<exists>w w1. os_write os (join_path (rv_work vm) ''net.json'') bytes w = (Inr (), w1))"
  using assms
  by (auto simp: write_metadata_def Let_def io_ctx_def eff_iffs on_os_def split: sum.splits prod.splits)

lemma resume_restored_work: "resume_restored os work t p net h = (Inr vm, h') \<Longrightarrow> rv_work vm = work"
  by (auto simp: resume_restored_def Let_def split: prod.splits sum.splits)

lemma restore_into_work: "restore_into os bin l work h = (Inr vm, h') \<Longrightarrow> rv_work vm = work"
  by (auto simp: restore_into_def eff_iffs dest: resume_restored_work split: if_splits)


definition mover_os :: "(unit, unit) host_os" where
  "mover_os = calm_os \<lparr> os_tcp_accept := (\<lambda>_. okE (Some 0)),
     os_rx := (\<lambda>_ _. rx (snapshot_stream (os_hasher calm_os) [(''m'', [7]), (''m'', [8])]) ''eof'' sample_target),
     os_read := (\<lambda>p. okE (if p = join_path ''/tmp/sleepwalk-tgt-1-0'' ''vsock.txt'' then ''/v'' else ''J'')),
     os_net_to_vec := (\<lambda>_. Inr ''J''),
     os_net_from_slice := (\<lambda>_. Inr \<lparr> net_tap = ''t'', net_mac = ''m'', net_ip = ''i'' \<rparr>) \<rparr>"

lemma mover_simps:
  "os_hasher mover_os = os_hasher calm_os" "os_fc mover_os = os_fc calm_os" "os_ip mover_os = os_ip calm_os"
  "os_tcp_accept mover_os = (\<lambda>_. okE (Some 0))"
  "os_rx mover_os = (\<lambda>_ _. rx (snapshot_stream (os_hasher calm_os) [(''m'', [7]), (''m'', [8])]) ''eof'' sample_target)"
  "os_net_to_vec mover_os = (\<lambda>_. Inr ''J'')"
  "os_net_from_slice mover_os = (\<lambda>_. Inr \<lparr> net_tap = ''t'', net_mac = ''m'', net_ip = ''i'' \<rparr>)"
  "os_read mover_os = (\<lambda>p. okE (if p = join_path ''/tmp/sleepwalk-tgt-1-0'' ''vsock.txt'' then ''/v'' else ''J''))"
  "os_create_dir_all mover_os = (\<lambda>_. okE ())" "os_exists mover_os = (\<lambda>_ _. True)" "os_write mover_os = (\<lambda>_ _. okE ())"
  "os_uffd_bind mover_os = (\<lambda>_. okE 0)" "os_uffd_thread mover_os = (\<lambda>_ _ w. (0, w))"
  "os_fresh_uuid mover_os = (\<lambda>w. (VmId 1, w))" "os_temp_dir mover_os = ''/tmp''" "os_pid mover_os = 1"
  by (simp_all add: mover_os_def calm_os_def calm_world_def)

lemma mover_recv: "recv_snapshot mover_os l d w = (Inr [path_join d ''m'', path_join d ''m''], w)"
proof -
  have s: "streaming (os_hasher calm_os)" by (simp add: streaming_def calm_os_def calm_world_def)
  have "fs_ok sample_target" by (simp add: fs_ok_def sample_target_def)
  from recv_files_complete [OF s this, of "[(''m'', [7]), (''m'', [8])]" d "[]" "''eof''"]
  show ?thesis by (simp add: recv_snapshot_def mover_simps good_file_def sample_names)
qed

lemma mover_process: "fc_process_spawn mover_os bin sock log_file w = (Inr 7, w)"
  by (simp add: fc_process_spawn_def wait_for_socket.simps mover_os_def calm_os_def calm_world_def)

lemma mover_load: "load_and_resume mover_os sock work uffd w = (Inr (), w)"
  by (simp add: load_and_resume_def firecracker_api_def fc_load_snapshot_def send_json_def json_body_def fc_send_def
      mover_simps calm_os_def calm_world_def)

lemma mover_tap: "create_tap (os_ip calm_os) tap w = (Inr (), w)"
  by (simp add: create_tap_def run_ip_def mover_simps calm_os_def calm_world_def seqE_def bindE_def)

lemma mover_restores:
  "\<exists>vm h'. receive_and_restore mover_os bin l calm_host = (Inr vm, h') \<and> rv_work vm = ''/tmp/sleepwalk-tgt-1-0''"
proof -
  let ?work = "''/tmp/sleepwalk-tgt-1-0''"
  have work: "work_dir mover_os ''tgt'' calm_host = (?work, calm_host \<lparr> h_migrate_seq := 1 \<rparr>)"
    by (simp add: work_dir_def mover_simps join_path_def path_join_def calm_host_def registry_new_def meter_def
        show_nat.simps dec_digit_def char_of_def bit_0)
  have "replumb_net mover_os ?work h = (Inr (Some \<lparr> net_tap = ''t'', net_mac = ''m'', net_ip = ''i'' \<rparr>), h)" for h
    by (simp add: replumb_net_def io_ctx_def map_errE_def on_os_def mover_simps mover_tap)
  then have "\<exists>vm h'. restore_into mover_os bin l ?work h = (Inr vm, h')" for h
    by (simp add: restore_into_def seqE_def bindE_def io_ctx_def map_errE_def on_os_def mover_recv mover_simps
        uffd_thread_def mover_process resume_restored_def mover_load split: prod.split)
  with work restore_into_work show ?thesis by (fastforce simp: receive_and_restore_def)
qed


end
