(* ===== verification/Typed_Calls.thy ===== *)
theory Typed_Calls
  imports Migration_Driver
begin

text \<open>
  What the typestate of \<open>crates/proto/src/fsm.rs\<close> lets a program write: the sequences of method calls on a
  migration that type check, each with the phase it ends in, and that the driver stays within them.
\<close>

datatype mig_call =
    Call_drain | Call_quiescent | Call_snapshot | Call_transfer | Call_restore | Call_cutover | Call_cleanup
  | Call_abort

fun apply_call :: "mig_call \<Rightarrow> migration \<Rightarrow> migration option" where
  "apply_call Call_drain = mig_drain"
| "apply_call Call_quiescent = mig_quiescent"
| "apply_call Call_snapshot = mig_snapshot"
| "apply_call Call_transfer = mig_transfer"
| "apply_call Call_restore = mig_restore"
| "apply_call Call_cutover = mig_cutover"
| "apply_call Call_cleanup = mig_cleanup"
| "apply_call Call_abort = mig_abort"

text \<open>A chain of calls; \<open>None\<close> when some call does not exist at the phase it is made at.\<close>

fun run_calls :: "mig_call list \<Rightarrow> migration \<Rightarrow> migration option" where
  "run_calls [] m = Some m"
| "run_calls (c # cs) m = Option.bind (apply_call c m) (run_calls cs)"

definition forward_calls :: "mig_call list" where
  "forward_calls = [Call_drain, Call_quiescent, Call_snapshot, Call_transfer, Call_restore, Call_cutover, Call_cleanup]"

definition phases :: "phase list" where
  "phases = [Ph_Intent, Ph_Draining, Ph_Quiescent, Ph_Snapshotting, Ph_Transferring, Ph_Restoring, Ph_CutOver, Ph_Cleanup]"

lemma lengths [simp]: "length forward_calls = 7" "length phases = 8"
  by (simp_all add: forward_calls_def phases_def)

lemma upto_seven: "j \<le> 7 \<Longrightarrow> j = 0 \<or> j = 1 \<or> j = 2 \<or> j = 3 \<or> j = 4 \<or> j = 5 \<or> j = 6 \<or> j = (7::nat)"
  by linarith

lemma apply_call_at:
  assumes "j \<le> 7"
  shows "apply_call c (advance (phases ! j) m) =
    (if j < 7 \<and> c = forward_calls ! j then Some (advance (phases ! Suc j) m)
     else if j \<le> 2 \<and> c = Call_abort then Some (advance Ph_Stable m) else None)"
  using upto_seven [OF assms]
  by (elim disjE; cases c; simp add: phases_def forward_calls_def mig_methods method_at_def mig_abort_def)

lemma run_calls_aborted: "run_calls cs (advance Ph_Stable m) = Some m' \<longleftrightarrow> cs = [] \<and> m' = advance Ph_Stable m"
proof (cases cs)
  case (Cons c cs')
  have "apply_call c (advance Ph_Stable m) = None"
    by (cases c) (simp_all add: mig_methods method_at_def mig_abort_def)
  then show ?thesis by (simp add: Cons)
qed auto

lemma forward_not_abort: "j < 7 \<Longrightarrow> forward_calls ! j \<noteq> Call_abort"
  by (frule less_imp_le, drule upto_seven) (elim disjE; simp add: forward_calls_def)

lemma run_calls_at:
  "j \<le> 7 \<Longrightarrow> run_calls cs (advance (phases ! j) m) = Some m' \<longleftrightarrow>
     (\<exists>n. j + n \<le> 7 \<and> cs = take n (drop j forward_calls) \<and> m' = advance (phases ! (j + n)) m)
   \<or> (\<exists>k. j + k \<le> 2 \<and> cs = take k (drop j forward_calls) @ [Call_abort] \<and> m' = advance Ph_Stable m)"
proof (induction cs arbitrary: j)
  case Nil
  then show ?case by (auto intro: exI [of _ 0])
next
  case (Cons c cs)
  show ?case
  proof (cases "j < 7 \<and> c = forward_calls ! j")
    case True
    then have d: "drop j forward_calls = c # drop (Suc j) forward_calls" by (simp add: Cons_nth_drop_Suc)
    have c: "c \<noteq> Call_abort" using True forward_not_abort [of j] by simp
    have "run_calls (c # cs) (advance (phases ! j) m) = run_calls cs (advance (phases ! Suc j) m)"
      using True by (simp add: apply_call_at del: apply_call.simps)
    also have "\<dots> = Some m' \<longleftrightarrow>
       (\<exists>n. Suc j + n \<le> 7 \<and> cs = take n (drop (Suc j) forward_calls) \<and> m' = advance (phases ! (Suc j + n)) m)
     \<or> (\<exists>k. Suc j + k \<le> 2 \<and> cs = take k (drop (Suc j) forward_calls) @ [Call_abort] \<and> m' = advance Ph_Stable m)"
      using True by (intro Cons.IH) simp
    also have "(\<exists>n. Suc j + n \<le> 7 \<and> cs = take n (drop (Suc j) forward_calls) \<and> m' = advance (phases ! (Suc j + n)) m)
      \<longleftrightarrow> (\<exists>n. j + n \<le> 7 \<and> c # cs = take n (drop j forward_calls) \<and> m' = advance (phases ! (j + n)) m)" (is "?l \<longleftrightarrow> ?r")
    proof
      assume ?l
      then obtain n where "Suc j + n \<le> 7" "cs = take n (drop (Suc j) forward_calls)" "m' = advance (phases ! (Suc j + n)) m" by blast
      then show ?r unfolding d by (intro exI [of _ "Suc n"]) simp
    next
      assume ?r
      then obtain n where n: "j + n \<le> 7" "c # cs = take n (drop j forward_calls)" "m' = advance (phases ! (j + n)) m" by blast
      then obtain n' where "n = Suc n'" by (cases n) auto
      with n show ?l unfolding d by (intro exI [of _ n']) simp
    qed
    also have "(\<exists>k. Suc j + k \<le> 2 \<and> cs = take k (drop (Suc j) forward_calls) @ [Call_abort] \<and> m' = advance Ph_Stable m)
      \<longleftrightarrow> (\<exists>k. j + k \<le> 2 \<and> c # cs = take k (drop j forward_calls) @ [Call_abort] \<and> m' = advance Ph_Stable m)" (is "?l \<longleftrightarrow> ?r")
    proof
      assume ?l
      then obtain k where "Suc j + k \<le> 2" "cs = take k (drop (Suc j) forward_calls) @ [Call_abort]" "m' = advance Ph_Stable m" by blast
      then show ?r unfolding d by (intro exI [of _ "Suc k"]) simp
    next
      assume ?r
      then obtain k where k: "j + k \<le> 2" "c # cs = take k (drop j forward_calls) @ [Call_abort]" "m' = advance Ph_Stable m" by blast
      with c obtain k' where "k = Suc k'" by (cases k) auto
      with k show ?l unfolding d by (intro exI [of _ k']) simp
    qed
    finally show ?thesis .
  next
    case False
    have no: "c # cs \<noteq> take (Suc n) (drop j forward_calls) @ ys" if "j < 7 \<or> ys = []" for n ys
    proof (cases "j < 7")
      case True
      then show ?thesis using False by (simp add: Cons_nth_drop_Suc [symmetric])
    qed (use Cons.prems that in simp)
    show ?thesis
    proof (cases "j \<le> 2 \<and> c = Call_abort")
      case True
      then have "run_calls (c # cs) (advance (phases ! j) m) = run_calls cs (advance Ph_Stable m)"
        using False Cons.prems by (simp add: apply_call_at del: apply_call.simps)
      moreover have "c # cs \<noteq> take n (drop j forward_calls)" for n
        using no [of "[]" "n - 1"] by (cases n) auto
      moreover have "(\<exists>k. j + k \<le> 2 \<and> c # cs = take k (drop j forward_calls) @ [Call_abort] \<and> m' = advance Ph_Stable m)
        \<longleftrightarrow> cs = [] \<and> m' = advance Ph_Stable m"
      proof
        assume "\<exists>k. j + k \<le> 2 \<and> c # cs = take k (drop j forward_calls) @ [Call_abort] \<and> m' = advance Ph_Stable m"
        then obtain k where "c # cs = take k (drop j forward_calls) @ [Call_abort]" "m' = advance Ph_Stable m" by blast
        then show "cs = [] \<and> m' = advance Ph_Stable m" using no [of "[Call_abort]" "k - 1"] True by (cases k) auto
      qed (use True in \<open>auto intro: exI [of _ 0]\<close>)
      ultimately show ?thesis by (simp add: run_calls_aborted)
    next
      case abort: False
      then have "run_calls (c # cs) (advance (phases ! j) m) = None" using False Cons.prems by (auto simp: apply_call_at simp del: apply_call.simps)
      moreover have "c # cs \<noteq> take n (drop j forward_calls)" for n
        using no [of "[]" "n - 1"] by (cases n) auto
      moreover have "j + k \<le> 2 \<Longrightarrow> c # cs \<noteq> take k (drop j forward_calls) @ [Call_abort]" for k
        using no [of "[Call_abort]" "k - 1"] abort by (cases k) auto
      ultimately show ?thesis by auto
    qed
  qed
qed

text \<open>
  C17. The typestate admits exactly the legal lives of a migration. A chain of calls on a fresh intent
  type checks exactly when it is the first calls, at most all seven, of drain, quiescent, snapshot,
  transfer, restore, cut over, clean up, and then the migration is in the phase that many steps on; or at
  most the first two of them followed by one abort and nothing else, and then it is aborted. It is still the
  migration of that VM between those hosts.
\<close>

theorem typed_call_sequences:
  "run_calls cs (mig_intent vm a b) = Some m \<longleftrightarrow>
     (\<exists>n \<le> 7. cs = take n forward_calls \<and> m = \<lparr> mig_vm = vm, mig_from = a, mig_to = b, mig_phase = phases ! n \<rparr>)
   \<or> (\<exists>k \<le> 2. cs = take k forward_calls @ [Call_abort]
        \<and> m = \<lparr> mig_vm = vm, mig_from = a, mig_to = b, mig_phase = Ph_Stable \<rparr>)"
proof -
  have i: "mig_intent vm a b = advance (phases ! 0) (mig_intent vm a b)" by (simp add: mig_intent_def advance_def phases_def)
  have adv: "advance p (mig_intent vm a b) = \<lparr> mig_vm = vm, mig_from = a, mig_to = b, mig_phase = p \<rparr>" for p
    by (simp add: mig_intent_def advance_def)
  show ?thesis by (subst i, subst run_calls_at) (simp_all add: adv)
qed

end
