(* ===== verification/Ramstate.thy ===== *)
theory Ramstate
  imports Byte_Strings
begin

text \<open>
  \<open>examples/ramstate\<close>: the workload whose memory a migration must preserve, an HTTP server with one
  thread. \<open>lib.rs\<close> is the state and the request handling; \<open>main.rs\<close> is the start-up and the accept loop,
  here a fold over the connections that arrive and what the first \<open>read\<close> of each returns.

  The counters are \<open>AtomicU64\<close>s: \<open>fetch_add\<close> wraps, and the \<open>+ 1\<close> applied to the value it returned
  wraps as in a release build. The mutex around the log is never poisoned, because the only thread
  that takes it does not panic while holding it.
\<close>

section \<open>State\<close>

record ram_state =
  rs_counter :: u64
  rs_requests :: u64
  rs_boot_id :: u64
  rs_log :: "string list"

definition ram_new :: "u64 \<Rightarrow> ram_state" where
  "ram_new boot_id = \<lparr> rs_counter = 0, rs_requests = 0, rs_boot_id = boot_id, rs_log = [] \<rparr>"

definition push_log :: "string \<Rightarrow> ram_state \<Rightarrow> ram_state" where
  "push_log entry s =
     (let l = rs_log s @ [entry] in
      s \<lparr> rs_log := (if 20 < length l then drop (length l - 20) l else l) \<rparr>)"

section \<open>Rendering\<close>

definition compact_json :: "ram_state \<Rightarrow> string" where
  "compact_json s = ''{\"boot_id\":'' @ show_nat (unat (rs_boot_id s)) @ '',\"counter\":''
     @ show_nat (unat (rs_counter s)) @ ''}''"

definition state_json :: "ram_state \<Rightarrow> string" where
  "state_json s =
     (let recent = map (\<lambda>e. CHR 0x22 # map (\<lambda>c. if c = CHR 0x22 then CHR 0x27 else c) e @ [CHR 0x22]) (rs_log s) in
      ''{\"boot_id\":'' @ show_nat (unat (rs_boot_id s)) @ '',\"counter\":'' @ show_nat (unat (rs_counter s))
        @ '',\"requests\":'' @ show_nat (unat (rs_requests s)) @ '',\"recent\":['' @ join_with (CHR '','') recent @ '']}'')"

section \<open>Requests\<close>

definition path_only :: "string \<Rightarrow> string" where
  "path_only path = hd (split_on (CHR ''?'') path)"

definition bump :: "string \<Rightarrow> ram_state \<Rightarrow> ram_state" where
  "bump what s = (let n = rs_counter s + 1 in
     push_log (what @ '' -> '' @ show_nat (unat n)) (s \<lparr> rs_counter := n \<rparr>))"

definition ram_handle :: "string \<Rightarrow> string \<Rightarrow> ram_state \<Rightarrow> (nat \<times> string) \<times> ram_state" where
  "ram_handle meth path s0 =
     (let s = s0 \<lparr> rs_requests := rs_requests s0 + 1 \<rparr>; p = path_only path in
      if meth = ''POST'' \<and> p = ''/inc'' then (let s' = bump ''inc'' s in ((200, compact_json s'), s'))
      else if meth = ''POST'' \<and> p = ''/busy'' then (let s' = bump ''busy'' s in ((200, compact_json s'), s'))
      else if meth = ''GET'' \<and> (p = ''/state'' \<or> p = ''/'') then ((200, state_json s), s)
      else ((404, ''{\"error\":\"not found\"}''), s))"

definition busy_secs :: "string \<Rightarrow> nat option" where
  "busy_secs path =
     (case split_on (CHR ''?'') path of
        _ # query # _ \<Rightarrow> find_map (\<lambda>kv. case strip_prefix ''secs='' kv of
            None \<Rightarrow> None
          | Some v \<Rightarrow> map_option (\<lambda>n. max 1 (min 30 n)) (parse_uint (2 ^ 64 - 1) v)) (split_on (CHR ''&'') query)
      | _ \<Rightarrow> None)"

definition parse_request_line :: "string \<Rightarrow> (string \<times> string) option" where
  "parse_request_line line =
     (case split_whitespace line of meth # path # _ \<Rightarrow> Some (meth, path) | _ \<Rightarrow> None)"

section \<open>One connection\<close>

text \<open>
  \<open>String::from_utf8_lossy\<close>: each maximal broken part of a sequence becomes one replacement character.
  \<open>utf8_step\<close> is the length of the next part and whether it is well formed.
\<close>

definition utf8_step :: "byte \<Rightarrow> byte list \<Rightarrow> bool \<times> nat" where
  "utf8_step a bs =
     (let is = (\<lambda>i P. i < length bs \<and> P (bs ! i));
          second = (\<lambda>b. utf8_cont b \<and> (a = 0xE0 \<longrightarrow> 0xA0 \<le> b) \<and> (a = 0xED \<longrightarrow> b \<le> 0x9F)
                       \<and> (a = 0xF0 \<longrightarrow> 0x90 \<le> b) \<and> (a = 0xF4 \<longrightarrow> b \<le> 0x8F)) in
      if utf8_width a = 1 then (True, 1)
      else if utf8_width a = 0 then (False, 1)
      else if \<not> is 0 second then (False, 1)
      else if utf8_width a = 2 then (True, 2)
      else if \<not> is 1 utf8_cont then (False, 2)
      else if utf8_width a = 3 then (True, 3)
      else if \<not> is 2 utf8_cont then (False, 3)
      else (True, 4))"

function utf8_lossy :: "byte list \<Rightarrow> byte list" where
  "utf8_lossy [] = []"
| "utf8_lossy (a # bs) =
     (let (ok, n) = utf8_step a bs in
      (if ok then take n (a # bs) else [0xEF, 0xBF, 0xBD]) @ utf8_lossy (drop (n - 1) bs))"
  by pat_completeness auto
termination
  by (relation "measure length") auto

datatype connection =
    Accept_error
  | Read_error
  | Read_bytes "byte list"

definition reason_phrase :: "nat \<Rightarrow> string" where
  "reason_phrase status =
     (if status = 200 then ''OK'' else if status = 400 then ''Bad Request''
      else if status = 404 then ''Not Found'' else ''Error'')"

definition http_reply :: "nat \<Rightarrow> string \<Rightarrow> string" where
  "http_reply status body =
     ''HTTP/1.1 '' @ show_nat status @ '' '' @ reason_phrase status @ [CHR 0x0D, CHR 0x0A]
       @ ''Content-Type: application/json'' @ [CHR 0x0D, CHR 0x0A]
       @ ''Content-Length: '' @ show_nat (length body) @ [CHR 0x0D, CHR 0x0A]
       @ ''Connection: close'' @ [CHR 0x0D, CHR 0x0A, CHR 0x0D, CHR 0x0A] @ body"

text \<open>
  What serving one connection does: the seconds it stalls the loop and the reply it tries to write,
  whose outcome is ignored. A read returns at most the 1024 bytes of the buffer.
\<close>

definition serve_connection :: "connection \<Rightarrow> ram_state \<Rightarrow> (nat \<times> string) option \<times> ram_state" where
  "serve_connection c s =
     (case c of
        Accept_error \<Rightarrow> (None, s)
      | Read_error \<Rightarrow> (None, s)
      | Read_bytes bs \<Rightarrow>
          (let got = take 1024 bs in
           if got = [] then (None, s)
           else
             let req = string_of_bytes (utf8_lossy got);
                 first = (case str_lines req of l # _ \<Rightarrow> l | [] \<Rightarrow> []);
                 (stall, (status, body), s') =
                   (case parse_request_line first of
                      Some (meth, path) \<Rightarrow>
                        (let stall = (if meth = ''POST'' \<and> path_only path = ''/busy''
                                      then (case busy_secs path of Some n \<Rightarrow> n | None \<Rightarrow> 0) else 0)
                         in (stall, ram_handle meth path s))
                    | None \<Rightarrow> (0, (400, ''{\"error\":\"bad request\"}''), s)) in
             (Some (stall, http_reply status body), s')))"

fun ram_serve :: "connection list \<Rightarrow> ram_state \<Rightarrow> (nat \<times> string) option list \<times> ram_state" where
  "ram_serve [] s = ([], s)"
| "ram_serve (c # cs) s =
     (let (r, s') = serve_connection c s; (rs, s'') = ram_serve cs s' in (r # rs, s''))"

text \<open>
  \<open>main\<close>: the port from the environment, the boot stamp from the clock (zero for a clock before the
  epoch), and the loop; the process exits with 1 when the port cannot be bound.
\<close>

definition ram_main ::
  "string option \<Rightarrow> int \<Rightarrow> (nat \<Rightarrow> string option) \<Rightarrow> connection list
    \<Rightarrow> (string + (nat \<times> string) option list) \<times> ram_state" where
  "ram_main port_var now bind_error conns =
     (let port = (case port_var of None \<Rightarrow> 8000
                  | Some v \<Rightarrow> (case parse_uint (2 ^ 16 - 1) v of Some p \<Rightarrow> p | None \<Rightarrow> 8000));
          s = ram_new (if 0 \<le> now then word_of_int now else 0) in
      case bind_error port of
        Some e \<Rightarrow> (Inl (''ramstate: bind 0.0.0.0:'' @ show_nat port @ '': '' @ e), s)
      | None \<Rightarrow> (let (out, s') = ram_serve conns s in (Inr out, s')))"

end
