(* ===== verification/Ramstate_Facts.thy ===== *)
theory Ramstate_Facts
  imports Ramstate
begin

text \<open>
  The continuity a migration is checked by: what the workload's memory holds is determined by the boot
  stamp and the requests served since, so a reset counter or a changed stamp shows a restart.
\<close>

section \<open>The requests of a run\<close>

definition conn_request :: "connection \<Rightarrow> (string \<times> string) option" where
  "conn_request c = (case c of
       Read_bytes bs \<Rightarrow>
         (if take 1024 bs = [] then None
          else parse_request_line (case str_lines (string_of_bytes (utf8_lossy (take 1024 bs))) of l # _ \<Rightarrow> l | [] \<Rightarrow> []))
     | _ \<Rightarrow> None)"

definition bump_of :: "string \<times> string \<Rightarrow> string option" where
  "bump_of r = (if fst r = ''POST'' \<and> path_only (snd r) = ''/inc'' then Some ''inc''
     else if fst r = ''POST'' \<and> path_only (snd r) = ''/busy'' then Some ''busy'' else None)"

definition requests_of :: "connection list \<Rightarrow> (string \<times> string) list" where
  "requests_of cs = List.map_filter conn_request cs"

definition bumps_of :: "connection list \<Rightarrow> string list" where
  "bumps_of cs = List.map_filter bump_of (requests_of cs)"

text \<open>The log line of every bump so far, and the state they amount to.\<close>

definition log_line :: "nat \<Rightarrow> string \<Rightarrow> string" where
  "log_line i what = what @ '' -> '' @ show_nat (unat (of_nat (Suc i) :: u64))"

definition log_lines :: "string list \<Rightarrow> string list" where
  "log_lines ws = map2 log_line [0..<length ws] ws"

definition newest :: "nat \<Rightarrow> 'a list \<Rightarrow> 'a list" where
  "newest k l = drop (length l - k) l"

definition ram_history :: "u64 \<Rightarrow> nat \<Rightarrow> string list \<Rightarrow> ram_state" where
  "ram_history b n ws = \<lparr> rs_counter = of_nat (length ws), rs_requests = of_nat n, rs_boot_id = b,
     rs_log = newest 20 (log_lines ws) \<rparr>"

lemma log_lines_snoc [simp]: "log_lines (ws @ [w]) = log_lines ws @ [log_line (length ws) w]"
  by (simp add: log_lines_def)

lemma length_newest [simp]: "length (newest k l) = min k (length l)"
  by (simp add: newest_def)

lemma push_log_newest:
  "rs_log s = newest 20 l \<Longrightarrow> push_log e s = s \<lparr> rs_log := newest 20 (l @ [e]) \<rparr>"
proof (cases "20 \<le> length l")
  case True
  then have "Suc (length l - 20) = length l - 19" by simp
  moreover assume "rs_log s = newest 20 l"
  ultimately show ?thesis using True by (simp add: push_log_def newest_def Let_def)
qed (simp add: push_log_def newest_def Let_def)

lemma bump_history:
  "bump w (ram_history b n ws) = ram_history b n (ws @ [w])"
proof -
  have "push_log e (ram_history b n ws \<lparr> rs_counter := c \<rparr>)
      = ram_history b n ws \<lparr> rs_counter := c, rs_log := newest 20 (log_lines ws @ [e]) \<rparr>" for e c
    by (subst push_log_newest [where l = "log_lines ws"]) (simp_all add: ram_history_def)
  then show ?thesis by (simp add: bump_def ram_history_def log_line_def Let_def add.commute)
qed

lemma ram_handle_history:
  "snd (ram_handle (fst r) (snd r) (ram_history b n ws))
     = ram_history b (Suc n) (ws @ (case bump_of r of None \<Rightarrow> [] | Some w \<Rightarrow> [w]))"
proof -
  have "ram_history b n ws \<lparr> rs_requests := rs_requests (ram_history b n ws) + 1 \<rparr> = ram_history b (Suc n) ws"
    by (simp add: ram_history_def add.commute)
  then show ?thesis by (simp add: ram_handle_def bump_of_def bump_history Let_def)
qed

lemma serve_connection_history:
  "snd (serve_connection c (ram_history b n ws)) = (case conn_request c of
       None \<Rightarrow> ram_history b n ws
     | Some r \<Rightarrow> ram_history b (Suc n) (ws @ (case bump_of r of None \<Rightarrow> [] | Some w \<Rightarrow> [w])))"
proof (cases "conn_request c")
  case None
  then show ?thesis
    by (auto simp: serve_connection_def conn_request_def Let_def split: connection.splits if_splits)
next
  case (Some r)
  then obtain bs where c: "c = Read_bytes bs" by (auto simp: conn_request_def split: connection.splits)
  from Some show ?thesis using ram_handle_history [of r b n ws]
    by (auto simp: c serve_connection_def conn_request_def Let_def split: if_splits prod.splits)
qed

lemma requests_of_simps [simp]:
  "requests_of [] = []"
  "requests_of (c # cs) = (case conn_request c of None \<Rightarrow> [] | Some r \<Rightarrow> [r]) @ requests_of cs"
  by (simp_all add: requests_of_def List.map_filter_simps split: option.split)

lemma bumps_of_simps [simp]:
  "bumps_of [] = []"
  "bumps_of (c # cs) = (case conn_request c of None \<Rightarrow> [] | Some r \<Rightarrow> (case bump_of r of None \<Rightarrow> [] | Some w \<Rightarrow> [w])) @ bumps_of cs"
  by (simp_all add: bumps_of_def List.map_filter_simps split: option.split)

lemma ram_serve_history:
  "snd (ram_serve cs (ram_history b n ws)) = ram_history b (n + length (requests_of cs)) (ws @ bumps_of cs)"
proof (induction cs arbitrary: n ws)
  case (Cons c cs)
  have "snd (ram_serve (c # cs) s) = snd (ram_serve cs (snd (serve_connection c s)))" for s
    by (simp split: prod.split)
  then show ?case by (simp add: serve_connection_history Cons.IH split: option.split)
qed simp

lemma ram_new_history: "ram_new b = ram_history b 0 []"
  by (simp add: ram_new_def ram_history_def newest_def log_lines_def)

text \<open>A run can be cut anywhere, as a snapshot does: the rest goes on from the state the cut left.\<close>

lemma ram_serve_append:
  "ram_serve (as @ bs) s = (let (o1, s1) = ram_serve as s; (o2, s2) = ram_serve bs s1 in (o1 @ o2, s2))"
  by (induction as arbitrary: s) (simp_all split: prod.split)

section \<open>The property\<close>

text \<open>
  C30. A workload that is moved goes on as if it had not been. However the connections that arrive are
  split by a snapshot, the process that resumes from the state the first part left ends in the state of one
  uninterrupted run, which shows any loss: the same boot stamp, the requests of both parts counted,
  the counter at the number of increments and stalls served, wrapping at 64 bits, and the log holding
  their last twenty lines, never more.
\<close>

theorem ram_continuity:
  "snd (ram_serve after (snd (ram_serve before (ram_new b)))) = \<lparr>
     rs_counter = of_nat (length (bumps_of (before @ after))),
     rs_requests = of_nat (length (requests_of (before @ after))),
     rs_boot_id = b,
     rs_log = newest 20 (log_lines (bumps_of (before @ after))) \<rparr>"
proof -
  have "requests_of (before @ after) = requests_of before @ requests_of after"
    by (induction before) simp_all
  moreover have "bumps_of (before @ after) = bumps_of before @ bumps_of after"
    by (induction before) simp_all
  ultimately show ?thesis by (simp add: ram_new_history ram_serve_history) (simp add: ram_history_def)
qed

end
