(* ===== verification/Cli_Config.thy ===== *)
theory Cli_Config
  imports Byte_Strings
begin

text \<open>
  \<open>crates/cli\<close>: \<open>config.rs\<close>, the optional \<open>sleepwalk.toml\<close>, and \<open>main.rs\<close>, the command surface, every
  handler of which still reports that it is not wired. The TOML grammar and clap's argument parsing are
  libraries and enter as \<open>parse_toml\<close> and \<open>parse_args\<close>; how a parsed table becomes a \<open>Config\<close> is what the
  \<open>serde(default, deny_unknown_fields)\<close> attributes of the three structs say. \<open>cpu_pct\<close> is a real.
\<close>

section \<open>Configuration\<close>

record quiescence_config =
  qc_cpu_pct :: real
  qc_samples :: u64
  qc_sample_interval_ms :: u64

record migration_config =
  mc_drain_deadline_ms :: u64

record config =
  cf_state_dir :: string
  cf_quiescence :: quiescence_config
  cf_migration :: migration_config

definition quiescence_default :: quiescence_config where
  "quiescence_default = \<lparr> qc_cpu_pct = 5, qc_samples = 5, qc_sample_interval_ms = 200 \<rparr>"

definition migration_default :: migration_config where
  "migration_default = \<lparr> mc_drain_deadline_ms = 5000 \<rparr>"

definition config_default :: config where
  "config_default = \<lparr> cf_state_dir = ''/var/lib/sleepwalk'', cf_quiescence = quiescence_default,
     cf_migration = migration_default \<rparr>"

section \<open>From a TOML table\<close>

datatype toml =
    T_string string
  | T_integer int
  | T_float real
  | T_other
  | T_table "(string \<times> toml) list"

datatype toml_error =
    Toml_syntax string
  | Unknown_field string
  | Invalid_value string

fun toml_u64 :: "string \<Rightarrow> toml \<Rightarrow> toml_error + u64" where
  "toml_u64 key (T_integer i) = (if 0 \<le> i \<and> i < 2 ^ 63 then Inr (word_of_int i) else Inl (Invalid_value key))"
| "toml_u64 key _ = Inl (Invalid_value key)"

fun toml_f64 :: "string \<Rightarrow> toml \<Rightarrow> toml_error + real" where
  "toml_f64 key (T_float x) = Inr x"
| "toml_f64 key (T_integer i) = Inr (of_int i)"
| "toml_f64 key _ = Inl (Invalid_value key)"

fun toml_string :: "string \<Rightarrow> toml \<Rightarrow> toml_error + string" where
  "toml_string key (T_string s) = Inr s"
| "toml_string key _ = Inl (Invalid_value key)"

text \<open>The keys of a table are visited in order; each sets its field of a value that starts as the default.\<close>

fun toml_fields :: "(string \<Rightarrow> toml \<Rightarrow> 'c \<Rightarrow> toml_error + 'c) \<Rightarrow> (string \<times> toml) list \<Rightarrow> 'c \<Rightarrow> toml_error + 'c" where
  "toml_fields field [] c = Inr c"
| "toml_fields field ((k, v) # kvs) c = (case field k v c of Inl e \<Rightarrow> Inl e | Inr c' \<Rightarrow> toml_fields field kvs c')"

definition toml_struct :: "(string \<Rightarrow> toml \<Rightarrow> 'c \<Rightarrow> toml_error + 'c) \<Rightarrow> 'c \<Rightarrow> string \<Rightarrow> toml \<Rightarrow> toml_error + 'c" where
  "toml_struct field start_value key v =
     (case v of T_table kvs \<Rightarrow> toml_fields field kvs start_value | _ \<Rightarrow> Inl (Invalid_value key))"

definition quiescence_field :: "string \<Rightarrow> toml \<Rightarrow> quiescence_config \<Rightarrow> toml_error + quiescence_config" where
  "quiescence_field k v c =
     (if k = ''cpu_pct'' then map_sum id (\<lambda>x. c \<lparr> qc_cpu_pct := x \<rparr>) (toml_f64 k v)
      else if k = ''samples'' then map_sum id (\<lambda>x. c \<lparr> qc_samples := x \<rparr>) (toml_u64 k v)
      else if k = ''sample_interval_ms'' then map_sum id (\<lambda>x. c \<lparr> qc_sample_interval_ms := x \<rparr>) (toml_u64 k v)
      else Inl (Unknown_field k))"

definition migration_field :: "string \<Rightarrow> toml \<Rightarrow> migration_config \<Rightarrow> toml_error + migration_config" where
  "migration_field k v c =
     (if k = ''drain_deadline_ms'' then map_sum id (\<lambda>x. c \<lparr> mc_drain_deadline_ms := x \<rparr>) (toml_u64 k v)
      else Inl (Unknown_field k))"

definition config_field :: "string \<Rightarrow> toml \<Rightarrow> config \<Rightarrow> toml_error + config" where
  "config_field k v c =
     (if k = ''state_dir'' then map_sum id (\<lambda>x. c \<lparr> cf_state_dir := x \<rparr>) (toml_string k v)
      else if k = ''quiescence'' then
        map_sum id (\<lambda>x. c \<lparr> cf_quiescence := x \<rparr>) (toml_struct quiescence_field quiescence_default k v)
      else if k = ''migration'' then
        map_sum id (\<lambda>x. c \<lparr> cf_migration := x \<rparr>) (toml_struct migration_field migration_default k v)
      else Inl (Unknown_field k))"

datatype config_error = Config_read string string | Config_parse string toml_error

definition from_toml :: "(string \<Rightarrow> toml_error + (string \<times> toml) list) \<Rightarrow> string \<Rightarrow> string \<Rightarrow> config_error + config" where
  "from_toml parse_toml text_in path =
     (case parse_toml text_in of
        Inl e \<Rightarrow> Inl (Config_parse path e)
      | Inr kvs \<Rightarrow> map_sum (Config_parse path) id (toml_fields config_field kvs config_default))"

definition config_load ::
  "(string \<Rightarrow> toml_error + (string \<times> toml) list) \<Rightarrow> (string \<Rightarrow> bool) \<Rightarrow> (string \<Rightarrow> string + string) \<Rightarrow> string
    \<Rightarrow> config_error + config" where
  "config_load parse_toml exists read_to_string path =
     (if \<not> exists path then Inr config_default
      else case read_to_string path of
        Inl e \<Rightarrow> Inl (Config_read path e)
      | Inr t \<Rightarrow> from_toml parse_toml t path)"

section \<open>Commands\<close>

datatype host_action = Host_run
datatype vm_action = Vm_create string | Vm_list | Vm_status string

datatype command =
    Cmd_host host_action
  | Cmd_vm vm_action
  | Cmd_migrate string string
  | Cmd_rebalance bool
  | Cmd_quiesce string

record cli =
  cli_config :: string
  cli_command :: command

definition not_wired :: "string \<Rightarrow> string + unit" where
  "not_wired what = Inl (''`'' @ what @ ''` needs the host runtime, which is not wired yet '' @
     map char_of [0xE2 :: nat, 0x80, 0x94] @ '' see ROADMAP'')"

fun dispatch :: "command \<Rightarrow> config \<Rightarrow> string + unit" where
  "dispatch (Cmd_host Host_run) c = not_wired ''host run''"
| "dispatch (Cmd_vm (Vm_create profile)) c = not_wired ''vm create''"
| "dispatch (Cmd_vm Vm_list) c = not_wired ''vm list''"
| "dispatch (Cmd_vm (Vm_status vm)) c = not_wired ''vm status''"
| "dispatch (Cmd_migrate vm host) c = not_wired ''migrate''"
| "dispatch (Cmd_rebalance watch) c = not_wired ''rebalance''"
| "dispatch (Cmd_quiesce vm) c = not_wired ''quiesce''"

datatype cli_error = Cli_usage string | Cli_config config_error | Cli_command string

definition sleepwalk_main ::
  "(string list \<Rightarrow> string + cli) \<Rightarrow> (string \<Rightarrow> toml_error + (string \<times> toml) list) \<Rightarrow> (string \<Rightarrow> bool)
    \<Rightarrow> (string \<Rightarrow> string + string) \<Rightarrow> string list \<Rightarrow> cli_error + unit" where
  "sleepwalk_main parse_args parse_toml exists read_to_string args =
     (case parse_args args of
        Inl usage \<Rightarrow> Inl (Cli_usage usage)
      | Inr cl \<Rightarrow> (case config_load parse_toml exists read_to_string (cli_config cl) of
          Inl e \<Rightarrow> Inl (Cli_config e)
        | Inr c \<Rightarrow> map_sum Cli_command id (dispatch (cli_command cl) c)))"

section \<open>Facts\<close>

lemma toml_fields_append:
  "toml_fields field (xs @ ys) c = (case toml_fields field xs c of Inl e \<Rightarrow> Inl e | Inr c' \<Rightarrow> toml_fields field ys c')"
  by (induction xs arbitrary: c) (auto split: sum.splits)

text \<open>A key the struct does not have is an error wherever it stands, unless an earlier key is one.\<close>

lemma toml_fields_unknown:
  assumes "(k, v) \<in> set kvs" "\<And>c. \<not> (\<exists>c'. field k v c = Inr c')"
  shows "isl (toml_fields field kvs c)"
proof -
  obtain xs ys where kvs: "kvs = xs @ (k, v) # ys" using assms(1) by (meson split_list)
  have "isl (field k v c')" for c' using assms(2) [of c'] by (cases "field k v c'") auto
  then have "isl (case field k v c' of Inl e \<Rightarrow> Inl e | Inr c'' \<Rightarrow> toml_fields field ys c'')" for c'
    by (metis sum.case(1) sum.collapse(1) sum.disc(1))
  then show ?thesis by (auto simp: kvs toml_fields_append split: sum.split)
qed

lemma config_unknown_key:
  assumes "(k, v) \<in> set kvs" "k \<notin> {''state_dir'', ''quiescence'', ''migration''}" "parse_toml t = Inr kvs"
  shows "\<exists>e. from_toml parse_toml t path = Inl (Config_parse path e)"
proof -
  have "isl (toml_fields config_field kvs config_default)"
    using assms(1) by (rule toml_fields_unknown) (use assms(2) in \<open>simp add: config_field_def\<close>)
  then show ?thesis using assms(3) by (auto simp: from_toml_def isl_def)
qed

lemma config_keeps_defaults:
  "toml_fields config_field kvs c = Inr c' \<Longrightarrow>
     (''state_dir'' \<notin> fst ` set kvs \<longrightarrow> cf_state_dir c' = cf_state_dir c)
     \<and> (''quiescence'' \<notin> fst ` set kvs \<longrightarrow> cf_quiescence c' = cf_quiescence c)
     \<and> (''migration'' \<notin> fst ` set kvs \<longrightarrow> cf_migration c' = cf_migration c)"
proof (induction kvs arbitrary: c)
  case (Cons kv kvs)
  obtain k v where kv: "kv = (k, v)" by fastforce
  from Cons.prems obtain c1 where c1: "config_field k v c = Inr c1" "toml_fields config_field kvs c1 = Inr c'"
    by (auto simp: kv split: sum.splits)
  have "map_sum id f x = Inr y \<Longrightarrow> \<exists>z. y = f z" for f :: "'z \<Rightarrow> config" and x :: "toml_error + 'z" and y
    by (cases x) auto
  then have "(k \<noteq> ''state_dir'' \<longrightarrow> cf_state_dir c1 = cf_state_dir c)
     \<and> (k \<noteq> ''quiescence'' \<longrightarrow> cf_quiescence c1 = cf_quiescence c)
     \<and> (k \<noteq> ''migration'' \<longrightarrow> cf_migration c1 = cf_migration c)"
    using c1(1) by (fastforce simp: config_field_def map_sum_def split: if_splits sum.splits)
  with Cons.IH [OF c1(2)] show ?case by (auto simp: kv)
qed simp

lemma no_command_acts: "\<exists>msg. dispatch cmd c = Inl msg"
  by (cases "(cmd, c)" rule: dispatch.cases) (simp_all add: not_wired_def)

lemma sleepwalk_never_succeeds: "isl (sleepwalk_main parse_args parse_toml exists read_to_string args)"
proof -
  have "isl (map_sum Cli_command id (dispatch cmd c))" for cmd c
    using no_command_acts [of cmd c] by auto
  then show ?thesis by (simp add: sleepwalk_main_def split: sum.split)
qed

end
