(* ===== verification/Guest_Loadtest.thy ===== *)
theory Guest_Loadtest
  imports Freeze_Bench Arrival_Schedule Load_Report
begin

text \<open>
  The load test, \<open>crates/hostd/src/bin/loadtest.rs\<close>: boot a guest, open the link, drive turns at it from
  a task of their own, and freeze the guest for a while in the middle. The driving task is part of the
  outside world here: \<open>lt_spawn_load\<close> starts it on a schedule, it goes on while the program sleeps, and
  \<open>lt_join\<close> waits for its statistics and the number of dropped turns. What the task itself does is
  \<open>Load_Driver\<close> and \<open>Load_Report\<close>. An error returned early drops the Firecracker process, and leaves the
  work directory and the socket.
\<close>

section \<open>Arguments\<close>

record 'w load_env =
  lt_arg :: "nat \<Rightarrow> string option"
  lt_parse_f64 :: "string \<Rightarrow> f64 option"
  lt_rnd :: "real \<Rightarrow> real"
  lt_ln :: "real \<Rightarrow> real"
  lt_default_dir :: "string + path"
  lt_read_dir :: "path \<Rightarrow> 'w \<Rightarrow> bool \<times> fs_entry list"
  lt_sleep :: "duration \<Rightarrow> 'w \<Rightarrow> 'w"
  lt_spawn_load :: "string \<Rightarrow> duration list \<Rightarrow> 'w \<Rightarrow> 'w"
  lt_join :: "('w, string, latency_stats \<times> u64) eff"

definition arg_f64 :: "'w load_env \<Rightarrow> nat \<Rightarrow> f64 \<Rightarrow> f64" where
  "arg_f64 env n dflt = (case Option.bind (lt_arg env n) (lt_parse_f64 env) of Some x \<Rightarrow> x | None \<Rightarrow> dflt)"

datatype load_error =
    Lt_panic string
  | Lt_migrate migrate_error
  | Lt_io string
  | Lt_fc firecracker_error
  | Lt_link io_error
  | Lt_join string

text \<open>\<open>Duration::from_secs_f64\<close> panics on a negative number, one too large, and a NaN.\<close>

definition secs_arg :: "f64 \<Rightarrow> load_error + duration" where
  "secs_arg x =
     (case x of
        Fin q \<Rightarrow> if q < 0 then Inl (Lt_panic ''cannot convert float seconds to Duration: value is negative'')
                  else if 2 ^ 64 \<le> q then Inl (Lt_panic ''cannot convert float seconds to Duration: value is either too big or NaN'')
                  else Inr (from_secs_f64 (real_of_rat q))
      | NegZero \<Rightarrow> Inr 0
      | NegInf \<Rightarrow> Inl (Lt_panic ''cannot convert float seconds to Duration: value is negative'')
      | _ \<Rightarrow> Inl (Lt_panic ''cannot convert float seconds to Duration: value is either too big or NaN''))"

text \<open>The cast \<open>as u64\<close> truncates and saturates, and sends a NaN to zero.\<close>

definition f64_as_u64 :: "f64 \<Rightarrow> u64" where
  "f64_as_u64 x =
     (case x of
        Fin q \<Rightarrow> if q < 0 then 0 else if 2 ^ 64 \<le> q then - 1 else word_of_int \<lfloor>q\<rfloor>
      | PosInf \<Rightarrow> - 1
      | _ \<Rightarrow> 0)"

record load_plan =
  lp_rate :: f64
  lp_duration :: duration
  lp_freeze_at :: duration
  lp_freeze :: duration

definition load_plan_of :: "'w load_env \<Rightarrow> load_error + load_plan" where
  "load_plan_of env =
     (case secs_arg (arg_f64 env 2 (Fin 10)) of
        Inl e \<Rightarrow> Inl e
      | Inr d \<Rightarrow> (case secs_arg (arg_f64 env 3 (Fin 4)) of
          Inl e \<Rightarrow> Inl e
        | Inr d2 \<Rightarrow> Inr \<lparr> lp_rate = arg_f64 env 1 (Fin 50), lp_duration = d, lp_freeze_at = d2,
            lp_freeze = millis (unat (f64_as_u64 (arg_f64 env 4 (Fin 1500)))) \<rparr>))"

section \<open>Booting the guest\<close>

definition load_boot :: "('w, 'h) host_os \<Rightarrow> artifacts \<Rightarrow> path \<Rightarrow> path \<Rightarrow> ('w, load_error, unit) eff" where
  "load_boot os art sock vsock_uds =
     (let fc = firecracker_api (os_fc os sock) in
      seqE (map_errE Lt_fc (fa_configure_machine fc \<lparr> mc_vcpu_count = 1, mc_mem_size_mib = GUEST_MIB \<rparr>))
       (seqE (map_errE Lt_fc (fa_configure_boot_source fc \<lparr> bs_kernel_image = art_kernel art, bs_boot_args = BOOT_ARGS \<rparr>))
        (seqE (map_errE Lt_fc (fa_configure_drive fc
            \<lparr> dr_drive_id = ''rootfs'', dr_path_on_host = art_rootfs art, dr_is_root_device = True, dr_is_read_only = False \<rparr>))
         (seqE (map_errE Lt_fc (fa_configure_vsock fc \<lparr> vc_guest_cid = GUEST_CID, vc_uds_path = vsock_uds \<rparr>))
          (map_errE Lt_fc (fa_boot fc))))))"

definition load_link :: "('w, 'h) host_os \<Rightarrow> path \<Rightarrow> ('w, load_error, unit) eff" where
  "load_link os vsock_uds =
     (let net = os_streams os in
      bindE (map_errE Lt_link (connect_vsock_retry net (os_attempts os) vsock_uds GUEST_VSOCK_PORT))
       (\<lambda>s. map_errE Lt_link (link_handshake (link_send net s) (link_recv net s) [])))"

section \<open>The run\<close>

definition load_freeze :: "'w load_env \<Rightarrow> ('w, 'h) host_os \<Rightarrow> path \<Rightarrow> load_plan \<Rightarrow> ('w, load_error, unit) eff" where
  "load_freeze env os sock plan w =
     (if lp_freeze plan = 0 then (Inr (), w)
      else let fc = firecracker_api (os_fc os sock); w = lt_sleep env (lp_freeze_at plan) w in
        seqE (map_errE Lt_fc (fa_pause fc)) (\<lambda>w.
          map_errE Lt_fc (fa_resume fc) (lt_sleep env (lp_freeze plan) w)) w)"

definition load_run ::
  "'w load_env \<Rightarrow> ('w, 'h) host_os \<Rightarrow> path \<Rightarrow> load_plan \<Rightarrow> string \<Rightarrow> duration list \<Rightarrow> ('w, load_error, latency_stats \<times> u64) eff" where
  "load_run env os sock plan label schedule w =
     seqE (load_freeze env os sock plan) (map_errE Lt_join (lt_join env)) (lt_spawn_load env label schedule w)"

text \<open>
  The measured part, with the guest up: it yields no value when the schedule does not end. The early
  returns drop the process; the normal end kills it and removes what the program made.
\<close>

definition load_measure ::
  "'w load_env \<Rightarrow> ('w, 'h) host_os \<Rightarrow> nat \<Rightarrow> path \<Rightarrow> path \<Rightarrow> load_plan \<Rightarrow> 'w
    \<Rightarrow> ((load_error + latency_stats \<times> u64) \<times> 'w) option" where
  "load_measure env os p work vsock_uds plan w =
     (case os_fresh_uuid os w of (i, w) \<Rightarrow>
        map_option (\<lambda>sched.
            case guarding os p (case sched of
                Inl From_secs_nan \<Rightarrow> errE (Lt_panic ''cannot convert float seconds to Duration: value is either too big or NaN'')
              | Inr schedule \<Rightarrow> load_run env os (join_path work ''fc.sock'') plan (os_show_vm os i) schedule) w of
              (Inl e, w) \<Rightarrow> (Inl e, w)
            | (Inr stats, w) \<Rightarrow>
                (Inr stats, os_remove_file os vsock_uds (os_remove_dir_all os work (snd (fc_process_kill os p w)))))
          (schedule_generate (lt_rnd env) (lt_ln env) (lp_rate plan) (lp_duration plan) (Poisson 1)))"

text \<open>The early returns before the process is spawned have nothing to kill.\<close>

definition load_start ::
  "('w, 'h) host_os \<Rightarrow> artifacts \<Rightarrow> path \<Rightarrow> path \<Rightarrow> ('w, load_error, nat) eff" where
  "load_start os art work vsock_uds =
     seqE (map_errE Lt_io (os_create_dir_all os work))
      (bindE (map_errE Lt_io (fc_process_spawn os (art_fc_bin art) (join_path work ''fc.sock'') (join_path work ''fc.log''))) (\<lambda>p.
        seqE (guarding os p (seqE (load_boot os art (join_path work ''fc.sock'') vsock_uds) (load_link os vsock_uds)))
         (okE p)))"

definition loadtest_main ::
  "'w load_env \<Rightarrow> ('w, 'h) host_os \<Rightarrow> 'w \<Rightarrow> ((load_error + latency_stats \<times> u64) \<times> 'w) option" where
  "loadtest_main env os w =
     (case load_plan_of env of
        Inl e \<Rightarrow> Some (Inl e, w)
      | Inr plan \<Rightarrow>
        (case discover_artifacts (os_env os) (lt_default_dir env) (\<lambda>d. lt_read_dir env d w) of
           Inl e \<Rightarrow> Some (Inl (Lt_migrate e), w)
         | Inr art \<Rightarrow>
           (let work = join_path (os_temp_dir os) (vm_work_name ''sleepwalk-loadtest-'' (os_pid os) 0);
                vsock_uds = join_path (os_temp_dir os) (vm_work_name ''sleepwalk-loadtest-vsock-'' (os_pid os) 0 @ ''.sock'') in
            case load_start os art work vsock_uds w of
              (Inl e, w) \<Rightarrow> Some (Inl e, w)
            | (Inr p, w) \<Rightarrow> load_measure env os p work vsock_uds plan w)))"

end
