(* ===== verification/Bench_Processes.thy ===== *)
theory Bench_Processes
  imports Guest_Loadtest Process_Accounts
begin

text \<open>
  What the two measuring programs leave behind. Whatever the system, Firecracker or the guest answers,
  and so wherever the program gives up, every Firecracker process it started has been killed; the
  freeze-window benchmark, when it does finish, has timed every cycle asked for.
\<close>

lemma expect_preserves [preserved]: "preserves Q m \<Longrightarrow> preserves Q (expectE msg m)"
  unfolding expectE_def by (rule preserves_map_err)

lemma holds_expect: "holds P m E R \<Longrightarrow> holds P (expectE msg m) E R"
  unfolding expectE_def by (rule holds_map_err)

lemma holds_when: "(A \<Longrightarrow> holds P m E R) \<Longrightarrow> holds (\<lambda>s. A \<and> P s) m E R"
  unfolding holds_def by blast

lemma holds_post: "holds P m E R \<Longrightarrow> (\<And>a s. R a s \<Longrightarrow> R' a s) \<Longrightarrow> holds P m E R'"
  by (rule holdsI) (auto split: sum.splits dest: holds_Inl holds_Inr)

lemma holds_step:
  "(\<And>w. Q w \<Longrightarrow> Q (snd (f w))) \<Longrightarrow> (\<And>t. holds Q (M t) E R) \<Longrightarrow> holds Q (\<lambda>w. case f w of (t, w) \<Rightarrow> M t w) E R"
  unfolding holds_def by (fastforce split: prod.splits)

lemma preserves_after: "preserves Q m \<Longrightarrow> (\<And>w. Q w \<Longrightarrow> Q (g w)) \<Longrightarrow> preserves Q (\<lambda>w. m (g w))"
  unfolding preserves_def by blast

lemma guarding_counts:
  assumes t: "tracks os procs"
    and m: "holds (\<lambda>w. procs w = insert p S) m (\<lambda>w. procs w = insert p S) R" and p: "p \<notin> S"
  shows "holds (\<lambda>w. procs w = insert p S) (guarding os p m) (\<lambda>w. procs w = S) R"
proof (rule holdsI)
  fix w r w'
  assume w: "procs w = insert p S" and run: "guarding os p m w = (r, w')"
  obtain x w1 where x: "m w = (x, w1)" by fastforce
  show "case r of Inl _ \<Rightarrow> procs w' = S | Inr a \<Rightarrow> R a w'"
  proof (cases x)
    case (Inl e)
    with holds_Inl [OF m w] x run p tracks_kill [OF t] show ?thesis by (auto simp: guarding_def)
  next
    case (Inr a)
    with holds_Inr [OF m w] x run show ?thesis by (auto simp: guarding_def)
  qed
qed

section \<open>The freeze-window benchmark\<close>

definition env_keeps :: "('w \<Rightarrow> nat set) \<Rightarrow> (duration \<Rightarrow> 'w \<Rightarrow> 'w) \<Rightarrow> bool" where
  "env_keeps procs slp \<longleftrightarrow> (\<forall>d w. procs (slp d w) = procs w)"

lemma wait_serial_keeps:
  assumes t: "tracks os procs" and e: "env_keeps procs (be_sleep env)"
  shows "bench_wait_serial env os n serial needle w = (b, w') \<Longrightarrow> procs w' = procs w"
proof (induction n arbitrary: w)
  case (Suc n)
  obtain r w1 where r: "os_read os serial w = (r, w1)" by fastforce
  have "procs w1 = procs w"
    by (rule preservesD [OF os_keeps_effects(4) [OF tracks_keeps [OF t, of "procs w"]] refl r])
  with Suc r e show ?case by (auto simp: env_keeps_def split: if_splits)
qed simp

lemma artifacts_keep: "bench_artifacts env os w = (r, w') \<Longrightarrow> w' = w"
  by (auto simp: bench_artifacts_def Let_def split: sum.splits)

lemma serial_counts:
  assumes t: "tracks os procs" and e: "env_keeps procs (be_sleep env)"
  shows "holds (\<lambda>w. procs w = S) (\<lambda>w. case bench_wait_serial env os n serial needle w of
      (True, w) \<Rightarrow> (Inr x, w) | (False, w) \<Rightarrow> (Inl msg, w)) (\<lambda>w. procs w = S) (\<lambda>y w. y = x \<and> procs w = S)"
  by (rule holdsI) (auto split: prod.splits bool.splits dest!: wait_serial_keeps [OF t e])

lemma boot_initial_counts:
  assumes t: "tracks os procs" and e: "env_keeps procs (be_sleep env)"
  shows "holds (\<lambda>w. procs w = S) (boot_initial env os art tmp) (\<lambda>w. procs w = S)
    (\<lambda>live w. bl_proc live \<notin> S \<and> procs w = insert (bl_proc live) S)"
  unfolding boot_initial_def Let_def
  apply (rule holds_bind [OF holds_expect [OF process_spawn_counts [OF t]]])
  apply (rule holds_when)
  apply (rule holds_post)
   apply (rule guarding_counts [OF t])
    apply (rule holds_seq [OF holds_preserves [OF expect_preserves [OF firecracker_keeps(1) [OF tracks_keeps [OF t]]]]])
    apply (rule holds_seq [OF holds_preserves [OF expect_preserves [OF firecracker_keeps(2) [OF tracks_keeps [OF t]]]]])
    apply (rule holds_seq [OF holds_preserves [OF expect_preserves [OF firecracker_keeps(3) [OF tracks_keeps [OF t]]]]])
    apply (rule holds_seq [OF holds_preserves [OF expect_preserves [OF firecracker_keeps(6) [OF tracks_keeps [OF t]]]]])
    apply (rule serial_counts [OF t e])
   apply assumption
  apply clarsimp
  done

lemma freeze_window_keeps:
  assumes t: "tracks os procs"
  shows "preserves (\<lambda>w. procs w = S) (freeze_window os live_sock tgt_sock mem state uffd_sock)"
proof -
  note k = tracks_keeps [OF t]
  have "preserves (\<lambda>w. procs w = S) (seqE a (seqE b (seqE c (\<lambda>w. (Inr (f w), w)))))"
    if "preserves (\<lambda>w. procs w = S) a" "preserves (\<lambda>w. procs w = S) b" "preserves (\<lambda>w. procs w = S) c"
    for a b c :: "('a, unit) bench" and f :: "'a \<Rightarrow> duration"
    using that by (intro preserved)
  note keep = this [OF expect_preserves [OF firecracker_keeps(7) [OF k]] expect_preserves [OF firecracker_keeps(9) [OF k]]
      expect_preserves [OF firecracker_keeps(10) [OF k]]]
  show ?thesis unfolding freeze_window_def Let_def
  proof (subst preserves_def, intro allI impI)
    fix w r w'
    assume "procs w = S"
      "seqE (expectE ''pause live'' (fa_pause (firecracker_api (os_fc os live_sock))))
        (seqE (expectE ''snapshot'' (fa_create_snapshot (firecracker_api (os_fc os live_sock))
            \<lparr> st_mem_file = mem, st_state_file = state \<rparr>))
          (seqE (expectE ''load + resume'' (fa_load_snapshot (firecracker_api (os_fc os tgt_sock))
              \<lparr> ss_state_file = state, ss_backend = Backend_Uffd uffd_sock, ss_resume = True \<rparr>))
            (\<lambda>v. (Inr (os_now os v - os_now os w), v)))) w = (r, w')"
    then show "procs w' = S" by (rule preservesD [OF keep])
  qed
qed

text \<open>A cycle that gives up has killed its target; one that does not has added it, with the window timed.\<close>

lemma bench_cycle_counts:
  assumes t: "tracks os procs"
  shows "holds (\<lambda>w. procs w = S) (bench_cycle os fc_bin tmp i live bytes) (\<lambda>w. procs w = S)
    (\<lambda>x w. bl_proc (fst x) \<notin> S \<and> procs w = insert (bl_proc (fst x)) S)"
proof -
  have thread: "procs (snd (os_uffd_thread os l mem w)) = procs w" for l mem w
    using os_keeps_steps(5) [OF tracks_keeps [OF t, of "procs w"]] by blast
  have spawned: "holds (\<lambda>w. procs w = S) (bindE (expectE msg (fc_process_spawn os fc_bin sock out)) (\<lambda>p.
        bindE (guarding os p (freeze_window os a b c d f)) (\<lambda>elapsed w. (Inr (g p, elapsed, v w), w))))
      (\<lambda>w. procs w = S) (\<lambda>x w. bl_proc (fst x) \<notin> S \<and> procs w = insert (bl_proc (fst x)) S)"
    if "\<And>p. bl_proc (g p) = p" for msg sock out a b c d f g and v :: "'a \<Rightarrow> u64"
    apply (rule holds_bind [OF holds_expect [OF process_spawn_counts [OF t]]])
    apply (rule holds_when)
    apply (rule holds_bind)
     apply (rule guarding_counts [OF t holds_preserves [OF freeze_window_keeps [OF t]]])
     apply assumption
    apply (rule holdsI)
    apply (auto simp: that)
    done
  show ?thesis unfolding bench_cycle_def Let_def
    apply (rule holds_bind [OF holds_expect [OF holds_preserves [OF os_keeps_effects(13) [OF tracks_keeps [OF t]]]]])
    apply (rule holds_step)
     apply (simp add: thread)
    apply (rule spawned)
    apply simp
    done
qed

lemma retire_counts: "tracks os procs \<Longrightarrow> procs (retire os live w) = procs w - {bl_proc live}"
  using os_keeps_steps(6) [OF tracks_keeps [of os procs], OF _ refl]
  by (simp add: retire_def Let_def tracks_kill split: option.split)

lemma bench_loop_counts:
  assumes t: "tracks os procs" and e: "env_keeps procs (be_sleep env)"
  shows "bl_proc live \<notin> S \<Longrightarrow> holds (\<lambda>w. procs w = insert (bl_proc live) S)
    (bench_loop env os fc_bin tmp settle left i live windows bytes) (\<lambda>w. procs w = S)
    (\<lambda>x w. bl_proc (fst x) \<notin> S \<and> procs w = insert (bl_proc (fst x)) S \<and> length (fst (snd x)) = length windows + left)"
proof (induction left arbitrary: i live windows bytes)
  case (Suc left)
  let ?S = "insert (bl_proc live) S"
  have go: "holds (\<lambda>w. bl_proc (fst x) \<notin> ?S \<and> procs w = insert (bl_proc (fst x)) ?S)
      (case x of (live', elapsed, bytes') \<Rightarrow> \<lambda>w. bench_loop env os fc_bin tmp settle left (Suc i) live' (windows @ [elapsed]) bytes'
         (be_sleep env settle (retire os live w))) (\<lambda>w. procs w = S)
      (\<lambda>x w. bl_proc (fst x) \<notin> S \<and> procs w = insert (bl_proc (fst x)) S \<and> length (fst (snd x)) = length windows + Suc left)" for x
  proof (rule holdsI)
    fix w r w'
    assume pre: "bl_proc (fst x) \<notin> ?S \<and> procs w = insert (bl_proc (fst x)) ?S"
      and run: "(case x of (live', elapsed, bytes') \<Rightarrow> \<lambda>w. bench_loop env os fc_bin tmp settle left (Suc i) live' (windows @ [elapsed]) bytes'
         (be_sleep env settle (retire os live w))) w = (r, w')"
    obtain live' elapsed bytes' where x: "x = (live', elapsed, bytes')" by (cases x) auto
    let ?w = "be_sleep env settle (retire os live w)"
    have "procs ?w = insert (bl_proc live') S"
      using pre e Suc.prems by (auto simp: env_keeps_def retire_counts [OF t] x)
    moreover have "bl_proc live' \<notin> S" using pre x by simp
    ultimately show "case r of Inl _ \<Rightarrow> procs w' = S | Inr y \<Rightarrow> bl_proc (fst y) \<notin> S \<and> procs w' = insert (bl_proc (fst y)) S
        \<and> length (fst (snd y)) = length windows + Suc left"
      using holdsD [OF Suc.IH, of live' ?w "Suc i" "windows @ [elapsed]" bytes' r w'] run x by (auto split: sum.splits)
  qed
  show ?case unfolding bench_loop.simps
    by (rule holds_bind [OF guarding_counts [OF t bench_cycle_counts [OF t]]]) (rule Suc.prems, rule go)
qed (simp add: holds_def)

text \<open>What the report says of the windows timed.\<close>

lemma fold_min_le: "foldl min (a :: real) xs \<le> Min (set (a # xs))"
proof (induction xs arbitrary: a)
  case (Cons b xs)
  from Cons [of "min a b"] show ?case by (cases "xs = []") (auto simp: min.assoc)
qed simp

lemma fold_max_ge: "Max (set (a # xs)) \<le> foldl max (a :: real) xs"
proof (induction xs arbitrary: a)
  case (Cons b xs)
  from Cons [of "max a b"] show ?case by (cases "xs = []") (auto simp: max.assoc)
qed simp

lemma freeze_summary_bounds:
  assumes "freeze_summary windows bytes settle = Some r"
  shows "fr_cycles r = length windows" "x \<in> set windows \<Longrightarrow> fr_min r \<le> window_ms x \<and> window_ms x \<le> fr_max r"
    "fr_min r \<le> fr_mean r" "fr_mean r \<le> fr_max r"
proof -
  let ?ms = "map window_ms windows"
  from assms have ne: "windows \<noteq> []" and r: "fr_cycles r = length windows" "fr_min r = foldl min (hd ?ms) (tl ?ms)"
    "fr_max r = foldl max (hd ?ms) (tl ?ms)" "fr_mean r = sum_list ?ms / real (length ?ms)"
    by (auto simp: freeze_summary_def Let_def split: if_splits)
  show "fr_cycles r = length windows" by (rule r)
  have b: "fr_min r \<le> y \<and> y \<le> fr_max r" if "y \<in> set ?ms" for y
  proof -
    from ne obtain m rest where "?ms = m # rest" by (cases ?ms) auto
    with that have "Min (set (m # rest)) \<le> y" "y \<le> Max (set (m # rest))" by simp_all
    then have "foldl min m rest \<le> y" "y \<le> foldl max m rest"
      using fold_min_le [of m rest] fold_max_ge [of m rest] order_trans by blast+
    with \<open>?ms = m # rest\<close> show ?thesis by (simp add: r)
  qed
  then show "x \<in> set windows \<Longrightarrow> fr_min r \<le> window_ms x \<and> window_ms x \<le> fr_max r" by simp
  have "real (length ?ms) * fr_min r \<le> sum_list ?ms" "sum_list ?ms \<le> real (length ?ms) * fr_max r"
    using sum_list_mono [of windows "\<lambda>_. fr_min r" window_ms] sum_list_mono [of windows window_ms "\<lambda>_. fr_max r"] b
    by (simp_all add: sum_list_triv)
  moreover have "0 < real (length ?ms)" using ne by simp
  ultimately show "fr_min r \<le> fr_mean r" "fr_mean r \<le> fr_max r"
    by (simp_all add: r(4) pos_le_divide_eq pos_divide_le_eq mult.commute)
qed

lemma report_write_keeps:
  assumes "os_keeps Q os" "Q w"
  shows "Q (freeze_report_write env os tmp rep w)"
proof -
  have "Q (snd (os_write os p c w))" for p c
    using preservesD [OF os_keeps_effects(3) [OF assms(1)] assms(2)] by (metis prod.collapse)
  with assms(2) show ?thesis by (simp add: freeze_report_write_def split: option.split)
qed

definition bench_cycles :: "(string \<Rightarrow> string option) \<Rightarrow> nat" where
  "bench_cycles var = env_or var (parse_uint (2 ^ 64 - 1)) ''SLEEPWALK_BENCH_CYCLES'' 20"

lemma freeze_bench_counts:
  assumes t: "tracks os procs" and e: "env_keeps procs (be_sleep env)"
  shows "holds (\<lambda>w. procs w = S) (freeze_bench_run env os) (\<lambda>w. procs w = S)
    (\<lambda>rep w. procs w = S \<and> (case rep of None \<Rightarrow> bench_cycles (os_env os) = 0 | Some r \<Rightarrow> fr_cycles r = bench_cycles (os_env os)))"
proof -
  note k = tracks_keeps [OF t]
  have arts: "preserves (\<lambda>w. procs w = S) (bench_artifacts env os)"
    by (auto simp: preserves_def dest: artifacts_keep)
  have ending: "holds (\<lambda>w. bl_proc (fst x) \<notin> S \<and> procs w = insert (bl_proc (fst x)) S \<and> length (fst (snd x)) = length [] + n)
      (case x of (live, windows, bytes) \<Rightarrow> \<lambda>w. (Inr (freeze_summary windows bytes settle),
          os_remove_dir_all os tmp (freeze_report_write env os tmp (freeze_summary windows bytes settle) (retire os live w))))
      (\<lambda>w. procs w = S) (\<lambda>rep w. procs w = S \<and> (case rep of None \<Rightarrow> n = 0 | Some r \<Rightarrow> fr_cycles r = n))" for x n settle tmp
  proof (rule holdsI)
    fix w r w'
    obtain live windows bytes where x: "x = (live, windows, bytes)" by (cases x) auto
    let ?rep = "freeze_summary windows bytes settle"
    assume pre: "bl_proc (fst x) \<notin> S \<and> procs w = insert (bl_proc (fst x)) S \<and> length (fst (snd x)) = length [] + n"
      and run: "(case x of (live, windows, bytes) \<Rightarrow> \<lambda>w. (Inr (freeze_summary windows bytes settle),
          os_remove_dir_all os tmp (freeze_report_write env os tmp (freeze_summary windows bytes settle) (retire os live w)))) w = (r, w')"
    have 1: "procs (retire os live w) = S" using pre by (auto simp: retire_counts [OF t] x)
    have "procs (os_remove_dir_all os tmp (freeze_report_write env os tmp ?rep (retire os live w))) = S"
      by (rule os_keeps_steps(1) [OF k report_write_keeps [OF k 1]])
    then have "procs w' = S" using run by (auto simp: x)
    moreover have "case ?rep of None \<Rightarrow> n = 0 | Some r \<Rightarrow> fr_cycles r = n"
      using pre freeze_summary_bounds(1) [of windows bytes settle]
      by (auto simp: x freeze_summary_def Let_def split: option.split if_splits)
    ultimately show "case r of Inl _ \<Rightarrow> procs w' = S
        | Inr rep \<Rightarrow> procs w' = S \<and> (case rep of None \<Rightarrow> n = 0 | Some r \<Rightarrow> fr_cycles r = n)"
      using run by (auto simp: x)
  qed
  let ?T = "\<lambda>rep w. procs w = S \<and> (case rep of None \<Rightarrow> bench_cycles (os_env os) = 0 | Some r \<Rightarrow> fr_cycles r = bench_cycles (os_env os))"
  show ?thesis unfolding freeze_bench_run_def Let_def bench_cycles_def [symmetric]
  proof (rule holds_bind [OF holds_preserves [OF arts]], rule holds_seq [OF holds_expect [OF holds_preserves [OF os_keeps_effects(1) [OF k]]]],
      rule holds_bind [OF boot_initial_counts [OF t e]], rule holds_when)
    fix art and live :: bench_live
    assume new: "bl_proc live \<notin> S"
    show "holds (\<lambda>w. procs w = insert (bl_proc live) S)
      (if 2 ^ 63 \<le> 8 * bench_cycles (os_env os) then guarding os (bl_proc live) (errE ''capacity overflow'')
       else bindE (bench_loop env os (art_fc_bin art) tmp settle (bench_cycles (os_env os)) 0 live [] 0) (\<lambda>(live, windows, bytes) w.
         (Inr (freeze_summary windows bytes settle),
          os_remove_dir_all os tmp (freeze_report_write env os tmp (freeze_summary windows bytes settle) (retire os live w)))))
      (\<lambda>w. procs w = S) ?T" for settle tmp
    proof (cases "2 ^ 63 \<le> 8 * bench_cycles (os_env os)")
      case True
      with new show ?thesis by (auto simp: holds_def guarding_def tracks_kill [OF t])
    next
      case False
      then show ?thesis by (simp only: if_False) (rule holds_bind [OF bench_loop_counts [OF t e new] ending])
    qed
  qed
qed

section \<open>The load test\<close>

lemma load_freeze_keeps:
  assumes t: "tracks os procs" and e: "env_keeps procs (lt_sleep env)"
  shows "preserves (\<lambda>w. procs w = S) (load_freeze env os sock plan)"
proof -
  note k = tracks_keeps [OF t]
  have slp: "procs (lt_sleep env d w) = procs w" for d w using e by (simp add: env_keeps_def)
  have "preserves (\<lambda>w. procs w = S) (\<lambda>w. map_errE Lt_fc (fa_resume (firecracker_api (os_fc os sock))) (lt_sleep env d w))" for d
    by (rule preserves_after [OF preserves_map_err [OF firecracker_keeps(8) [OF k]]]) (simp add: slp)
  note go = preserves_seq [OF preserves_map_err [OF firecracker_keeps(7) [OF k]] this]
  show ?thesis
  proof (cases "lp_freeze plan = 0")
    case False
    then show ?thesis unfolding load_freeze_def Let_def if_not_P [OF False]
      by (intro preserves_after [OF go]) (simp add: slp)
  qed (simp add: load_freeze_def preserves_def)
qed

definition load_env_keeps :: "('w \<Rightarrow> nat set) \<Rightarrow> 'w load_env \<Rightarrow> bool" where
  "load_env_keeps procs env \<longleftrightarrow> env_keeps procs (lt_sleep env)
     \<and> (\<forall>label sched w. procs (lt_spawn_load env label sched w) = procs w)
     \<and> (\<forall>w. procs (snd (lt_join env w)) = procs w)"

lemma load_run_keeps:
  assumes t: "tracks os procs" and e: "load_env_keeps procs env"
  shows "preserves (\<lambda>w. procs w = S) (load_run env os sock plan label schedule)"
proof -
  have j: "preserves (\<lambda>w. procs w = S) (map_errE Lt_join (lt_join env))"
  proof (rule preserves_map_err, unfold preserves_def, intro allI impI)
    fix w r w'
    assume "procs w = S" "lt_join env w = (r, w')"
    moreover have "procs (snd (lt_join env w)) = procs w" using e by (simp add: load_env_keeps_def)
    ultimately show "procs w' = S" by simp
  qed
  have "preserves (\<lambda>w. procs w = S) (seqE (load_freeze env os sock plan) (map_errE Lt_join (lt_join env)))"
    using e by (intro preserves_seq load_freeze_keeps [OF t] j) (simp add: load_env_keeps_def)
  then show ?thesis unfolding load_run_def by (rule preserves_after) (use e in \<open>simp add: load_env_keeps_def\<close>)
qed

lemma load_boot_keeps: "os_keeps Q os \<Longrightarrow> preserves Q (load_boot os art sock uds)"
  unfolding load_boot_def Let_def by (intro preserved)

lemma load_link_keeps: "os_keeps Q os \<Longrightarrow> preserves Q (load_link os uds)"
  unfolding load_link_def Let_def by (intro preserved)

lemma load_start_counts:
  assumes t: "tracks os procs"
  shows "holds (\<lambda>w. procs w = S) (load_start os art work uds) (\<lambda>w. procs w = S) (\<lambda>p w. p \<notin> S \<and> procs w = insert p S)"
  unfolding load_start_def
  apply (rule holds_seq [OF holds_preserves [OF preserves_map_err [OF os_keeps_effects(1) [OF tracks_keeps [OF t]]]]])
  apply (rule holds_bind [OF holds_map_err [OF process_spawn_counts [OF t]]])
  apply (rule holds_when)
  apply (rule holds_seq)
   apply (rule guarding_counts [OF t])
    apply (rule holds_preserves)
    apply (intro preserves_seq load_boot_keeps load_link_keeps tracks_keeps [OF t])
   apply assumption
  apply (simp add: holds_def)
  done

lemma load_measure_counts:
  assumes t: "tracks os procs" and e: "load_env_keeps procs env" and p: "p \<notin> S" "procs w = insert p S"
    and run: "load_measure env os p work uds plan w = Some (r, w')"
  shows "procs w' = S"
proof -
  note k = tracks_keeps [OF t, of S] and kp = tracks_keeps [OF t, of "insert p S"]
  obtain i w1 where i: "os_fresh_uuid os w = (i, w1)" by fastforce
  have w1: "procs w1 = insert p S" using os_keeps_steps(7) [OF kp p(2)] i by simp
  let ?task = "\<lambda>sched. case sched of
      Inl From_secs_nan \<Rightarrow> errE (Lt_panic ''cannot convert float seconds to Duration: value is either too big or NaN'')
    | Inr schedule \<Rightarrow> load_run env os (join_path work ''fc.sock'') plan (os_show_vm os i) schedule"
  from run i obtain sched where
    fin: "(case guarding os p (?task sched) w1 of (Inl e, w) \<Rightarrow> (Inl e, w)
      | (Inr stats, w) \<Rightarrow> (Inr stats, os_remove_file os uds (os_remove_dir_all os work (snd (fc_process_kill os p w))))) = (r, w')"
    by (auto simp: load_measure_def)
  have "preserves (\<lambda>w. procs w = insert p S) (?task sched)"
    by (auto intro: preserves_err load_run_keeps [OF t e] split: sum.split schedule_panic.split)
  note task = guarding_counts [OF t holds_preserves [OF this] p(1)]
  obtain q w2 where q: "guarding os p (?task sched) w1 = (q, w2)" by fastforce
  show ?thesis
  proof (cases q)
    case (Inl e)
    from holds_Inl [OF task w1 q [unfolded Inl]] have "procs w2 = S" .
    moreover have "w2 = w'" using fin unfolding q Inl by simp
    ultimately show ?thesis by simp
  next
    case (Inr st)
    from holds_Inr [OF task w1 q [unfolded Inr]] have "procs w2 = insert p S" .
    then have "procs (snd (fc_process_kill os p w2)) = S" using p(1) by (simp add: tracks_kill [OF t])
    then have "procs (os_remove_file os uds (os_remove_dir_all os work (snd (fc_process_kill os p w2)))) = S"
      by (intro os_keeps_steps(2) [OF k] os_keeps_steps(1) [OF k])
    then show ?thesis using fin unfolding q Inr by simp
  qed
qed

lemma loadtest_counts:
  assumes t: "tracks os procs" and e: "load_env_keeps procs env" and run: "loadtest_main env os w = Some (r, w')"
  shows "procs w' = procs w"
proof (cases "load_plan_of env")
  case (Inl e)
  with run show ?thesis by (simp add: loadtest_main_def)
next
  case plan: (Inr plan)
  show ?thesis
  proof (cases "discover_artifacts (os_env os) (lt_default_dir env) (\<lambda>d. lt_read_dir env d w)")
    case (Inl e)
    with run plan show ?thesis by (simp add: loadtest_main_def)
  next
    case art: (Inr art)
    define work where "work = join_path (os_temp_dir os) (vm_work_name ''sleepwalk-loadtest-'' (os_pid os) 0)"
    define uds where "uds = join_path (os_temp_dir os) (vm_work_name ''sleepwalk-loadtest-vsock-'' (os_pid os) 0 @ ''.sock'')"
    obtain x w1 where x: "load_start os art work uds w = (x, w1)" by fastforce
    show ?thesis
    proof (cases x)
      case (Inl e)
      with run plan art x holds_Inl [OF load_start_counts [OF t] refl] show ?thesis
        by (auto simp: loadtest_main_def Let_def work_def uds_def)
    next
      case (Inr p)
      with x holds_Inr [OF load_start_counts [OF t, of "procs w"] refl] have p: "p \<notin> procs w" "procs w1 = insert p (procs w)" by auto
      from run plan art x Inr have "load_measure env os p work uds plan w1 = Some (r, w')"
        by (simp add: loadtest_main_def Let_def work_def uds_def)
      then show ?thesis by (rule load_measure_counts [OF t e p])
    qed
  qed
qed

section \<open>The property\<close>


definition quick_env :: "nat list bench_env" where
  "quick_env = \<lparr> be_sleep = (\<lambda>_ w. w), be_serial_polls = 1, be_default_dir = Inr ''/a'',
     be_read_dir = (\<lambda>_ _. (True, [E_file ''firecracker-1'', E_file ''vmlinux'', E_file ''r.ext4''])), be_report_text = (\<lambda>_. []) \<rparr>"

definition quick_os :: "(nat list, unit) host_os" where
  "quick_os = tally_os \<lparr> os_read := (\<lambda>_. okE ''login''),
     os_env := (\<lambda>k. if k = ''SLEEPWALK_BENCH_CYCLES'' then Some ''1'' else None) \<rparr>"

definition quick_load :: "nat list load_env" where
  "quick_load = \<lparr> lt_arg = (\<lambda>_. None), lt_parse_f64 = (\<lambda>_. None), lt_rnd = id, lt_ln = ln, lt_default_dir = Inr ''/a'',
     lt_read_dir = (\<lambda>_ _. (False, [])), lt_sleep = (\<lambda>_ w. w), lt_spawn_load = (\<lambda>_ _ w. w), lt_join = errE ''cancelled'' \<rparr>"

lemma quick_tracks: "tracks quick_os set"
proof -
  have "os_keeps (\<lambda>w. set w = S) quick_os" for S
    using tracks_keeps [OF tally_tracks, of S] by (simp add: os_keeps_def quick_os_def preserves_ok)
  with tally_tracks show ?thesis by (simp add: tracks_def quick_os_def)
qed

lemma quick_simps:
  "os_fc quick_os = os_fc (calm_world start stop)" "os_read quick_os = (\<lambda>_. okE ''login'')" "os_uffd_bind quick_os = (\<lambda>_. okE 0)"
  "os_uffd_thread quick_os = (\<lambda>_ _ w. (0, w))" "os_uffd_stop_join quick_os = (\<lambda>_ w. w)" "os_write quick_os = (\<lambda>_ _. okE ())"
  "os_create_dir_all quick_os = (\<lambda>_. okE ())" "os_remove_dir_all quick_os = (\<lambda>_ w. w)" "os_file_len quick_os = (\<lambda>_ _. None)"
  "os_now quick_os = (\<lambda>_. 0)" "os_env quick_os = (\<lambda>k. if k = ''SLEEPWALK_BENCH_CYCLES'' then Some ''1'' else None)"
  by (simp_all add: quick_os_def tally_os_def calm_world_def)

lemma quick_fc:
  fixes w :: "nat list"
  shows "fa_configure_machine (firecracker_api (os_fc quick_os s)) mc w = (Inr (), w)"
    "fa_configure_boot_source (firecracker_api (os_fc quick_os s)) bs w = (Inr (), w)"
    "fa_configure_drive (firecracker_api (os_fc quick_os s)) dc w = (Inr (), w)"
    "fa_boot (firecracker_api (os_fc quick_os s)) w = (Inr (), w)"
    "fa_pause (firecracker_api (os_fc quick_os s)) w = (Inr (), w)"
    "fa_create_snapshot (firecracker_api (os_fc quick_os s)) st w = (Inr (), w)"
    "fa_load_snapshot (firecracker_api (os_fc quick_os s)) ss w = (Inr (), w)"
  by (auto simp: quick_simps(1) [of "okE 0" "\<lambda>_ w. w"] firecracker_api_def fc_configure_machine_def fc_configure_boot_source_def fc_configure_drive_def
      fc_boot_def fc_pause_def fc_create_snapshot_def fc_load_snapshot_def send_json_def json_body_def calm_fc fc_send_def bindE_def
      Let_def split: mem_backend.split)

lemma quick_process: "fc_process_spawn quick_os bin sock out w = (Inr (Suc (sum_list w)), Suc (sum_list w) # w)"
  by (simp add: fc_process_spawn_def wait_for_socket.simps quick_os_def tally_os_def calm_world_def)

lemma quick_artifacts: "\<exists>art. bench_artifacts quick_env quick_os w = (Inr art, w)"
  by (simp add: bench_artifacts_def bench_artifacts_dir_def bench_require_def bench_find_def quick_env_def quick_simps file_pick_def
      starts_with_def ends_with_def Let_def)

lemma quick_login: "bench_wait_serial quick_env quick_os 1 serial ''login'' w = (True, w)"
  by (simp add: quick_simps starts_with_def utf8_str_def byte_of_char_def utf8_width_def)

lemma quick_boot:
  "\<exists>live. boot_initial quick_env quick_os art tmp [] = (Inr live, [1]) \<and> bl_proc live = 1 \<and> bl_handler live = None"
proof -
  have "be_serial_polls quick_env = 1" by (simp add: quick_env_def)
  then show ?thesis
    by (simp add: boot_initial_def Let_def bindE_def seqE_def expectE_def map_errE_def guarding_def quick_process quick_fc
        quick_login [simplified])
qed

lemma quick_cycle:
  "\<exists>live' b. bench_cycle quick_os bin tmp 0 live 0 [1] = (Inr (live', 0, b), [2, 1]) \<and> bl_proc live' = 2"
  by (simp add: bench_cycle_def Let_def bindE_def seqE_def expectE_def map_errE_def guarding_def freeze_window_def quick_process
      quick_fc quick_simps)

lemma quick_runs: "\<exists>rep w. freeze_bench_run quick_env quick_os [] = (Inr (Some rep), w)"
proof -
  obtain art where art: "bench_artifacts quick_env quick_os [] = (Inr art, [])" using quick_artifacts by blast
  define tmp where "tmp = join_path (os_temp_dir quick_os) (''sleepwalk-bench-'' @ show_nat (unat (os_pid quick_os)))"
  have dir: "expectE ''tmp dir'' (os_create_dir_all quick_os tmp) [] = (Inr (), [])"
    by (simp add: expectE_def map_errE_def quick_simps)
  obtain live where live: "boot_initial quick_env quick_os art tmp [] = (Inr live, [1])" using quick_boot by blast
  obtain live' b where cycle: "bench_cycle quick_os (art_fc_bin art) tmp 0 live 0 [1] = (Inr (live', 0, b), [2, 1])"
    using quick_cycle by blast
  have loop: "\<exists>w. bench_loop quick_env quick_os (art_fc_bin art) tmp settle (Suc 0) 0 live [] 0 [1] = (Inr (live', [0], b), w)" for settle
    unfolding bench_loop.simps by (simp add: bindE_def guarding_def cycle [simplified])
  have n: "env_or (os_env quick_os) (parse_uint (2 ^ 64 - 1)) ''SLEEPWALK_BENCH_CYCLES'' 20 = Suc 0"
    by (simp add: env_or_def quick_simps parse_uint_def is_dec_digit_def dec_fold_def dec_value_def)
  have small: "\<not> 2 ^ 63 \<le> 8 * Suc 0" by simp
  obtain w where w: "bench_loop quick_env quick_os (art_fc_bin art) tmp
      (millis (env_or (os_env quick_os) (parse_uint (2 ^ 64 - 1)) ''SLEEPWALK_BENCH_SETTLE_MS'' 1000)) (Suc 0) 0 live [] 0 [1]
      = (Inr (live', [0], b), w)" using loop by blast
  show ?thesis unfolding freeze_bench_run_def Let_def n tmp_def [symmetric] if_not_P [OF small]
      bindE_Inr [where m = "bench_artifacts quick_env quick_os", OF art] seqE_Inr [where m = "expectE _ _", OF dir]
      bindE_Inr [where m = "boot_initial quick_env quick_os art tmp", OF live]
      bindE_Inr [where m = "bench_loop _ _ _ _ _ _ _ _ _ _", OF w]
    by (simp add: freeze_summary_def)
qed


end
