(* ===== verification/Control_Http.thy ===== *)
theory Control_Http
  imports Rebalance_Control Host_Daemon
begin

text \<open>
  The HTTP client of the rebalancer, \<open>connect\<close>, \<open>fetch_status\<close> and \<open>post\<close> of
  \<open>crates/rebalancer/src/bin/rebalance.rs\<close>, and a cluster of host daemons at the other end. Parsing a URL,
  the HTTP/1 machinery of \<open>hyper\<close> and the JSON of a status are parameters; the cluster delivers a request to
  the \<open>route\<close> of the daemon that is addressed, one request at a time, and keeps the receive tasks the
  daemons have started in the background until they run.
\<close>

section \<open>The client\<close>

record uri =
  u_host :: "string option"
  u_port :: "u16 option"
  u_path_and_query :: "string option"

record ('k, 'c) http_net =
  hn_parse_uri :: "string \<Rightarrow> string + uri"
  hn_show_uri :: "uri \<Rightarrow> string"
  hn_tcp_connect :: "string \<Rightarrow> u16 \<Rightarrow> ('k, string, 'c) eff"
  hn_handshake :: "'c \<Rightarrow> ('k, string, unit) eff"
  hn_build_error :: "http_method \<Rightarrow> string \<Rightarrow> string \<Rightarrow> string option"
  hn_send :: "'c \<Rightarrow> http_method \<Rightarrow> string \<Rightarrow> string \<Rightarrow> ('k, string, nat \<times> (string + string)) eff"
  hn_show_status :: "nat \<Rightarrow> string"
  hn_status_json :: "string \<Rightarrow> string + status_resp"

definition http_connect :: "('k, 'c) http_net \<Rightarrow> uri \<Rightarrow> ('k, string, 'c) eff" where
  "http_connect net url =
     (case u_host url of
        None \<Rightarrow> errE (''no host in '' @ hn_show_uri net url)
      | Some host \<Rightarrow>
        (let port = (case u_port url of Some p \<Rightarrow> p | None \<Rightarrow> 80) in
         bindE (map_errE (\<lambda>e. ''connect '' @ host @ '':'' @ show_nat (unat port) @ '': '' @ e) (hn_tcp_connect net host port)) (\<lambda>c.
           seqE (map_errE (\<lambda>e. ''handshake: '' @ e) (hn_handshake net c)) (okE c))))"

definition path_of :: "uri \<Rightarrow> string" where
  "path_of url = (case u_path_and_query url of Some p \<Rightarrow> p | None \<Rightarrow> ''/'')"

definition host_header :: "uri \<Rightarrow> string" where
  "host_header url = (case u_host url of Some h \<Rightarrow> h | None \<Rightarrow> [])"

text \<open>The error is the outermost context, which is what displaying an \<open>anyhow::Error\<close> shows.\<close>

definition fetch_status :: "('k, 'c) http_net \<Rightarrow> string \<Rightarrow> ('k, string, status_resp) eff" where
  "fetch_status net control_url =
     (let url = control_url @ ''/status'' in
      case hn_parse_uri net url of
        Inl e \<Rightarrow> errE (''bad url '' @ url)
      | Inr uri \<Rightarrow>
          bindE (http_connect net uri) (\<lambda>sender.
            case hn_build_error net GET (path_of uri) (host_header uri) of
              Some e \<Rightarrow> errE ''build request''
            | None \<Rightarrow>
                bindE (map_errE (\<lambda>_. ''send'') (hn_send net sender GET (path_of uri) (host_header uri))) (\<lambda>(_, body).
                  case body of
                    Inl e \<Rightarrow> errE ''body''
                  | Inr b \<Rightarrow> (case hn_status_json net b of
                      Inl e \<Rightarrow> errE ''parse status json''
                    | Inr st \<Rightarrow> okE st))))"

definition post :: "('k, 'c) http_net \<Rightarrow> string \<Rightarrow> ('k, string, unit) eff" where
  "post net url =
     (case hn_parse_uri net url of
        Inl e \<Rightarrow> errE (''bad url '' @ url @ '': '' @ e)
      | Inr uri \<Rightarrow>
          bindE (http_connect net uri) (\<lambda>sender.
            case hn_build_error net POST (path_of uri) (host_header uri) of
              Some e \<Rightarrow> errE (''build request: '' @ e)
            | None \<Rightarrow>
                bindE (map_errE (\<lambda>e. ''send: '' @ e) (hn_send net sender POST (path_of uri) (host_header uri))) (\<lambda>(status, _).
                  if 200 \<le> status \<and> status < 300 then okE ()
                  else errE (''HTTP '' @ hn_show_status net status))))"

text \<open>
  \<open>main\<close> up to its loop: the configuration named by the argument, then the loop over this client. The
  file and its JSON are parameters; an error is the outermost context.
\<close>

definition rebalance_config_of ::
  "(string \<Rightarrow> string + string) \<Rightarrow> (string \<Rightarrow> string + rebalance_config) \<Rightarrow> string list \<Rightarrow> string + rebalance_config" where
  "rebalance_config_of read_to_string from_str args =
     (case args of
        _ # path # _ \<Rightarrow>
          (case read_to_string path of
             Inl e \<Rightarrow> Inl (''read '' @ path)
           | Inr t \<Rightarrow> (case from_str t of Inl e \<Rightarrow> Inl ''parse config'' | Inr cfg \<Rightarrow> Inr cfg))
      | _ \<Rightarrow> Inl ''usage: rebalance <config.json>'')"

definition rebalance_program where
  "rebalance_program net parse_vm show_vm pause read_to_string from_str args k =
     (case rebalance_config_of read_to_string from_str args of
        Inl e \<Rightarrow> Inl e
      | Inr cfg \<Rightarrow> Inr (rebalance_main parse_vm show_vm (fetch_status net) pause (http_daemon (post net)) cfg k))"

section \<open>A cluster\<close>

type_synonym addr = "string \<times> u16"

record 'w cluster =
  cl_hosts :: "addr \<Rightarrow> 'w host option"
  cl_tasks :: "(addr \<times> path \<times> nat) list"

text \<open>What each daemon runs on, and the text-level parts of HTTP.\<close>

record ('w, 'h) sites =
  si_os :: "addr \<Rightarrow> ('w, 'h) host_os"
  si_deps :: "addr \<Rightarrow> 'w daemon_deps"

definition cluster_connect :: "string \<Rightarrow> u16 \<Rightarrow> ('w cluster, string, addr) eff" where
  "cluster_connect host port c =
     (case cl_hosts c (host, port) of
        None \<Rightarrow> (Inl ''Connection refused'', c)
      | Some _ \<Rightarrow> (Inr (host, port), c))"

definition split_target :: "string \<Rightarrow> path \<times> string option" where
  "split_target t = (case split_once (CHR ''?'') t of None \<Rightarrow> (t, None) | Some (p, q) \<Rightarrow> (p, Some q))"

definition cluster_send ::
  "('w, 'h) sites \<Rightarrow> addr \<Rightarrow> http_method \<Rightarrow> string \<Rightarrow> string \<Rightarrow> ('w cluster, string, nat \<times> (string + string)) eff" where
  "cluster_send si a meth target host c =
     (case cl_hosts c a of
        None \<Rightarrow> (Inl ''Connection reset'', c)
      | Some h \<Rightarrow>
        (let (p, q) = split_target target; (rep, h) = route (si_deps si a) (si_os si a) meth p q h in
         (Inr (rp_status rep, Inr (rp_body rep)),
          c \<lparr> cl_hosts := (cl_hosts c)(a \<mapsto> h),
              cl_tasks := cl_tasks c @ (case rp_task rep of None \<Rightarrow> [] | Some t \<Rightarrow> [(a, t)]) \<rparr>)))"

definition cluster_net ::
  "('w, 'h) sites \<Rightarrow> (string \<Rightarrow> string + uri) \<Rightarrow> (nat \<Rightarrow> string) \<Rightarrow> (string \<Rightarrow> string + status_resp)
    \<Rightarrow> ('w cluster, addr) http_net" where
  "cluster_net si parse show_status json =
     \<lparr> hn_parse_uri = parse, hn_show_uri = host_header, hn_tcp_connect = cluster_connect,
       hn_handshake = (\<lambda>_. okE ()), hn_build_error = (\<lambda>_ _ _. None),
       hn_send = cluster_send si, hn_show_status = show_status, hn_status_json = json \<rparr>"

text \<open>A background task runs some time later, on its own host only.\<close>

definition run_task :: "('w, 'h) sites \<Rightarrow> addr \<times> path \<times> nat \<Rightarrow> 'w cluster \<Rightarrow> 'w cluster" where
  "run_task si t c =
     (case cl_hosts c (fst t) of
        None \<Rightarrow> c
      | Some h \<Rightarrow> c \<lparr> cl_hosts := (cl_hosts c)(fst t \<mapsto> recv_task (si_os si (fst t)) (snd t) h) \<rparr>)"

section \<open>The requests as the daemons see them\<close>

text \<open>An argument that the client can put into a query as it is: it holds no separator.\<close>

definition plain_arg :: "string \<Rightarrow> bool" where
  "plain_arg s \<longleftrightarrow> CHR ''&'' \<notin> set s"

lemma split_target_query: "CHR ''?'' \<notin> set p \<Longrightarrow> split_target (p @ CHR ''?'' # q) = (p, Some q)"
proof -
  assume "CHR ''?'' \<notin> set p"
  then have "takeWhile (\<lambda>x. x \<noteq> CHR ''?'') (p @ CHR ''?'' # q) = p" "dropWhile (\<lambda>x. x \<noteq> CHR ''?'') (p @ CHR ''?'' # q) = CHR ''?'' # q"
    by (subst takeWhile_append2 dropWhile_append2, auto)+
  then show ?thesis by (simp add: split_target_def split_once_def)
qed

lemma split_once_key: "CHR ''='' \<notin> set k \<Longrightarrow> split_once (CHR ''='') (k @ CHR ''='' # v) = Some (k, v)"
proof -
  assume "CHR ''='' \<notin> set k"
  then have "takeWhile (\<lambda>x. x \<noteq> CHR ''='') (k @ CHR ''='' # v) = k" "dropWhile (\<lambda>x. x \<noteq> CHR ''='') (k @ CHR ''='' # v) = CHR ''='' # v"
    by (subst takeWhile_append2 dropWhile_append2, auto)+
  then show ?thesis by (simp add: split_once_def)
qed

lemma recv_query: "plain_arg l \<Longrightarrow> query_param (Some (''listen='' @ l)) ''listen'' = Some l"
proof -
  assume "plain_arg l"
  then have "split_on (CHR ''&'') (''listen='' @ l) = [''listen'' @ CHR ''='' # l]"
    by (subst split_on_absent) (auto simp: plain_arg_def)
  then show ?thesis using split_once_key [of "''listen''" l] by (simp add: query_param_def)
qed

lemma send_query:
  assumes "plain_arg v" "plain_arg d"
  shows "query_param (Some (''vm='' @ v @ ''&to='' @ d)) ''vm'' = Some v"
    "query_param (Some (''vm='' @ v @ ''&to='' @ d)) ''to'' = Some d"
proof -
  have "split_on (CHR ''&'') ((''vm='' @ v) @ CHR ''&'' # ''to='' @ d) = [''vm'' @ CHR ''='' # v, ''to'' @ CHR ''='' # d]"
    using assms by (subst split_on_append_sep) (auto simp: plain_arg_def split_on_absent)
  then have s: "split_on (CHR ''&'') (''vm='' @ v @ ''&to='' @ d) = [''vm'' @ CHR ''='' # v, ''to'' @ CHR ''='' # d]" by simp
  note k = split_once_key [of "''vm''" v] split_once_key [of "''to''" d]
  show "query_param (Some (''vm='' @ v @ ''&to='' @ d)) ''vm'' = Some v"
    "query_param (Some (''vm='' @ v @ ''&to='' @ d)) ''to'' = Some d"
    unfolding query_param_def option.case s using k by simp_all
qed

end
