(* ===== verification/Control_Plane.thy ===== *)
theory Control_Plane
  imports Control_Http
begin

text \<open>
  The rebalancer over real daemons: one rebalance step, through its HTTP client, the URLs it builds, the
  daemons' query parsing and routing, down to what the two host daemons do.
\<close>

section \<open>One POST\<close>

text \<open>
  What is assumed of URL parsing: a control URL followed by a path and query built from it names the
  daemon's address and that path and query.
\<close>

definition names_host :: "(string \<Rightarrow> string + uri) \<Rightarrow> string \<Rightarrow> addr \<Rightarrow> string \<Rightarrow> bool" where
  "names_host parse url a target \<longleftrightarrow>
     parse (url @ target) = Inr \<lparr> u_host = Some (fst a), u_port = Some (snd a), u_path_and_query = Some target \<rparr>"

abbreviation cluster_post ::
  "('w, 'h) sites \<Rightarrow> (string \<Rightarrow> string + uri) \<Rightarrow> (nat \<Rightarrow> string) \<Rightarrow> (string \<Rightarrow> string + status_resp)
    \<Rightarrow> string \<Rightarrow> ('w cluster, string, unit) eff" where
  "cluster_post si parse sst json \<equiv> post (cluster_net si parse sst json)"

lemma post_cluster:
  assumes "names_host parse url a target" "cl_hosts c a = Some h"
    and "split_target target = (p, q)" "route (si_deps si a) (si_os si a) POST p q h = (rep, h')"
  shows "cluster_post si parse sst json (url @ target) c =
    (if 200 \<le> rp_status rep \<and> rp_status rep < 300 then Inr () else Inl (''HTTP '' @ sst (rp_status rep)),
     c \<lparr> cl_hosts := (cl_hosts c)(a \<mapsto> h'),
         cl_tasks := cl_tasks c @ (case rp_task rep of None \<Rightarrow> [] | Some t \<Rightarrow> [(a, t)]) \<rparr>)"
proof -
  let ?net = "cluster_net si parse sst json"
  let ?uri = "\<lparr> u_host = Some (fst a), u_port = Some (snd a), u_path_and_query = Some target \<rparr>"
  have net: "hn_parse_uri ?net = parse" "hn_build_error ?net = (\<lambda>_ _ _. None)" "hn_send ?net = cluster_send si"
    "hn_show_status ?net = sst" by (simp_all add: cluster_net_def)
  have conn: "http_connect ?net ?uri c = (Inr a, c)"
    by (simp add: http_connect_def cluster_net_def cluster_connect_def assms(2) bindE_def seqE_def map_errE_def Let_def)
  have send: "cluster_send si a POST target hd c = (Inr (rp_status rep, Inr (rp_body rep)),
      c \<lparr> cl_hosts := (cl_hosts c)(a \<mapsto> h'),
          cl_tasks := cl_tasks c @ (case rp_task rep of None \<Rightarrow> [] | Some t \<Rightarrow> [(a, t)]) \<rparr>)" for hd
    by (simp add: cluster_send_def assms(2-4))
  have parse: "parse (url @ target) = Inr ?uri" using assms(1) by (simp add: names_host_def)
  show ?thesis
    by (simp add: post_def net parse path_of_def bindE_def conn map_errE_def send)
qed

lemma post_recv:
  assumes "names_host parse url a (''/migrate/recv?listen='' @ l)" "plain_arg l" "cl_hosts c a = Some h"
    and "cluster_post si parse sst json (url @ ''/migrate/recv?listen='' @ l) c = (r, c')"
  shows "(\<exists>rep h'. migrate_recv (si_deps si a) (si_os si a) (Some (''listen='' @ l)) h = (rep, h')
    \<and> c' = c \<lparr> cl_hosts := (cl_hosts c)(a \<mapsto> h'),
        cl_tasks := cl_tasks c @ (case rp_task rep of None \<Rightarrow> [] | Some t \<Rightarrow> [(a, t)]) \<rparr>
    \<and> r = (if 200 \<le> rp_status rep \<and> rp_status rep < 300 then Inr () else Inl (''HTTP '' @ sst (rp_status rep))))"
proof -
  have t: "split_target (''/migrate/recv?listen='' @ l) = (''/migrate/recv'', Some (''listen='' @ l))"
    using split_target_query [of "''/migrate/recv''" "''listen='' @ l"] by simp
  obtain rep h' where rep: "migrate_recv (si_deps si a) (si_os si a) (Some (''listen='' @ l)) h = (rep, h')" by fastforce
  have "route (si_deps si a) (si_os si a) POST ''/migrate/recv'' (Some (''listen='' @ l)) h = (rep, h')"
    unfolding route_def rep by simp
  from assms(4) [unfolded post_cluster [OF assms(1,3) t this] prod.inject] rep show ?thesis by blast
qed

text \<open>Receiving starts nothing on this host but the background task, and only with a reply of success.\<close>

lemma migrate_recv_cases:
  assumes "migrate_recv dd os q h = (rep, h')"
  shows "h' = h \<lparr> h_os := h_os h' \<rparr>" "rp_task rep = None \<longleftrightarrow> \<not> (200 \<le> rp_status rep \<and> rp_status rep < 300)"
proof -
  have "bind_receiver dd l h = (x, h2) \<Longrightarrow> h2 = h \<lparr> h_os := h_os h2 \<rparr>" for l x h2
    by (auto simp: bind_receiver_def io_ctx_def map_errE_def split: prod.splits sum.splits dest: on_os_frame)
  with assms show "h' = h \<lparr> h_os := h_os h' \<rparr>" "rp_task rep = None \<longleftrightarrow> \<not> (200 \<le> rp_status rep \<and> rp_status rep < 300)"
    by (auto simp: migrate_recv_def reply_text_def split: option.splits sum.splits prod.splits)
qed

lemma post_send:
  assumes "names_host parse url a (''/migrate/send?vm='' @ v @ ''&to='' @ d)" "cl_hosts c a = Some h"
    and "cluster_post si parse sst json (url @ ''/migrate/send?vm='' @ v @ ''&to='' @ d) c = (r, c')"
  shows "(\<exists>rep h'. migrate_send (si_deps si a) (si_os si a) (Some (''vm='' @ v @ ''&to='' @ d)) h = (rep, h')
    \<and> c' = c \<lparr> cl_hosts := (cl_hosts c)(a \<mapsto> h'),
        cl_tasks := cl_tasks c @ (case rp_task rep of None \<Rightarrow> [] | Some t \<Rightarrow> [(a, t)]) \<rparr>
    \<and> r = (if 200 \<le> rp_status rep \<and> rp_status rep < 300 then Inr () else Inl (''HTTP '' @ sst (rp_status rep))))"
proof -
  have t: "split_target (''/migrate/send?vm='' @ v @ ''&to='' @ d) = (''/migrate/send'', Some (''vm='' @ v @ ''&to='' @ d))"
    using split_target_query [of "''/migrate/send''" "''vm='' @ v @ ''&to='' @ d"] by simp
  obtain rep h' where rep: "migrate_send (si_deps si a) (si_os si a) (Some (''vm='' @ v @ ''&to='' @ d)) h = (rep, h')" by fastforce
  have "route (si_deps si a) (si_os si a) POST ''/migrate/send'' (Some (''vm='' @ v @ ''&to='' @ d)) h = (rep, h')"
    unfolding route_def rep by simp
  from assms(3) [unfolded post_cluster [OF assms(1,2) t this] prod.inject] rep show ?thesis by blast
qed

lemma migrate_send_task: "migrate_send dd os q h = (rep, h') \<Longrightarrow> rp_task rep = None"
  by (auto simp: migrate_send_def send_registered_def reply_text_def
      split: option.splits sum.splits prod.splits migrate_outcome.splits)

section \<open>One move\<close>

text \<open>What the step needs of its surroundings: the endpoints of the move, their daemons, and the VM on the source.\<close>

record move_setting =
  ms_target :: host_endpoint
  ms_source :: host_endpoint
  ms_target_at :: addr
  ms_source_at :: addr
  ms_vm_text :: string
  ms_vm :: vm_id

definition wired ::
  "('w, 'h) sites \<Rightarrow> (string \<Rightarrow> string + uri) \<Rightarrow> move_setting \<Rightarrow> bool" where
  "wired si parse m \<longleftrightarrow>
     names_host parse (he_control_url (ms_target m)) (ms_target_at m)
       (''/migrate/recv?listen='' @ he_data_listen (ms_target m))
   \<and> names_host parse (he_control_url (ms_source m)) (ms_source_at m)
       (''/migrate/send?vm='' @ ms_vm_text m @ ''&to='' @ he_data_addr (ms_target m))
   \<and> plain_arg (he_data_listen (ms_target m)) \<and> plain_arg (ms_vm_text m) \<and> plain_arg (he_data_addr (ms_target m))
   \<and> dd_parse_vm (si_deps si (ms_source_at m)) (ms_vm_text m) = Inr (ms_vm m)
   \<and> inj (os_show_vm (si_os si (ms_source_at m))) \<and> ms_source_at m \<noteq> ms_target_at m"

lemma move_outcomes:
  assumes w: "wired si parse m" and c: "cl_hosts c (ms_target_at m) = Some B" "cl_hosts c (ms_source_at m) = Some A"
    and A: "reachable_host (si_os si (ms_source_at m)) A" "bt_get (h_vms A) (ms_vm m) = Some vm"
    and Q: "streams_keep Q (os_streams (si_os si (ms_source_at m)))" "Q (h_os A)"
    and api: "api = http_daemon (cluster_post si parse sst json)"
    and run: "seqE (map_errE f (da_recv api (he_control_url (ms_target m)) (he_data_listen (ms_target m))))
      (seqE (map_errE g (da_send api (he_control_url (ms_source m)) (ms_vm_text m) (he_data_addr (ms_target m)))) (okE x)) c = (r, c')"
  shows "\<exists>A' B' tasks. cl_hosts c' = (cl_hosts c)(ms_target_at m \<mapsto> B', ms_source_at m \<mapsto> A')
    \<and> cl_tasks c' = cl_tasks c @ tasks \<and> B' = B \<lparr> h_os := h_os B' \<rparr>
    \<and> ((\<exists>e. r = Inl (f e)) \<and> A' = A \<and> tasks = []
       \<or> r = Inl (g (''HTTP '' @ sst 409)) \<and> (\<exists>t. tasks = [(ms_target_at m, t)]) \<and> A' = A \<lparr> h_os := h_os A' \<rparr> \<and> Q (h_os A')
       \<or> r = Inl (g (''HTTP '' @ sst 500)) \<and> (\<exists>t. tasks = [(ms_target_at m, t)]) \<and> h_vms A' = bt_remove (ms_vm m) (h_vms A)
           \<and> (\<exists>w. h_os A' = teardown (si_os si (ms_source_at m)) vm w)
       \<or> r = Inr x \<and> (\<exists>t. tasks = [(ms_target_at m, t)]) \<and> h_vms A' = bt_remove (ms_vm m) (h_vms A)
           \<and> (\<exists>w. h_os A' = teardown (si_os si (ms_source_at m)) vm w)
           \<and> mt_migrations (h_metrics A') = mt_migrations (h_metrics A) + 1)"
proof -
  let ?ta = "ms_target_at m" and ?sa = "ms_source_at m"
  let ?post = "cluster_post si parse sst json"
  let ?rurl = "he_control_url (ms_target m) @ ''/migrate/recv?listen='' @ he_data_listen (ms_target m)"
  let ?surl = "he_control_url (ms_source m) @ ''/migrate/send?vm='' @ ms_vm_text m @ ''&to='' @ he_data_addr (ms_target m)"
  have calls: "da_recv api (he_control_url (ms_target m)) (he_data_listen (ms_target m)) = ?post ?rurl"
    "da_send api (he_control_url (ms_source m)) (ms_vm_text m) (he_data_addr (ms_target m)) = ?post ?surl"
    by (simp_all add: api http_daemon_def)
  obtain r1 c1 where p1: "?post ?rurl c = (r1, c1)" by fastforce
  have n: "names_host parse (he_control_url (ms_target m)) ?ta (''/migrate/recv?listen='' @ he_data_listen (ms_target m))"
    "plain_arg (he_data_listen (ms_target m))" using w by (simp_all add: wired_def)
  from post_recv [OF n c(1) p1] obtain rep B' where
    recv: "migrate_recv (si_deps si ?ta) (si_os si ?ta) (Some (''listen='' @ he_data_listen (ms_target m))) B = (rep, B')"
    and c1: "c1 = c \<lparr> cl_hosts := (cl_hosts c)(?ta \<mapsto> B'),
        cl_tasks := cl_tasks c @ (case rp_task rep of None \<Rightarrow> [] | Some t \<Rightarrow> [(?ta, t)]) \<rparr>"
    and r1: "r1 = (if 200 \<le> rp_status rep \<and> rp_status rep < 300 then Inr () else Inl (''HTTP '' @ sst (rp_status rep)))"
    by blast
  note B' = migrate_recv_cases [OF recv]
  show ?thesis
  proof (cases "rp_task rep")
    case None
    with r1 B'(2) have "r1 = Inl (''HTTP '' @ sst (rp_status rep))" by simp
    with run p1 have "r = Inl (f (''HTTP '' @ sst (rp_status rep)))" "c' = c1"
      by (simp_all add: calls seqE_def bindE_def map_errE_def)
    with c1 None c(2) w B'(1) show ?thesis
      by (intro exI [of _ A] exI [of _ B'] exI [of _ "[]"]) (auto simp: wired_def fun_eq_iff)
  next
    case (Some task)
    with r1 B'(2) have "r1 = Inr ()" by simp
    with run p1 have run2: "seqE (map_errE g (?post ?surl)) (okE x) c1 = (r, c')"
      by (simp add: calls seqE_def bindE_def map_errE_def)
    have cA: "cl_hosts c1 ?sa = Some A" using c(2) w by (simp add: c1 wired_def)
    obtain r2 c2 where p2: "?post ?surl c1 = (r2, c2)" by fastforce
    have n2: "names_host parse (he_control_url (ms_source m)) ?sa (''/migrate/send?vm='' @ ms_vm_text m @ ''&to='' @ he_data_addr (ms_target m))"
      using w by (simp add: wired_def)
    from post_send [OF n2 cA p2] obtain rep2 A' where
      send: "migrate_send (si_deps si ?sa) (si_os si ?sa) (Some (''vm='' @ ms_vm_text m @ ''&to='' @ he_data_addr (ms_target m))) A = (rep2, A')"
      and c2: "c2 = c1 \<lparr> cl_hosts := (cl_hosts c1)(?sa \<mapsto> A'),
          cl_tasks := cl_tasks c1 @ (case rp_task rep2 of None \<Rightarrow> [] | Some t \<Rightarrow> [(?sa, t)]) \<rparr>"
      and r2: "r2 = (if 200 \<le> rp_status rep2 \<and> rp_status rep2 < 300 then Inr () else Inl (''HTTP '' @ sst (rp_status rep2)))"
      by blast
    have ends: "r = (case r2 of Inl e \<Rightarrow> Inl (g e) | Inr _ \<Rightarrow> Inr x)" "c' = c2"
      using run2 p2 by (auto simp: seqE_def bindE_def map_errE_def split: sum.splits)
    have state: "cl_hosts c' = (cl_hosts c)(?ta \<mapsto> B', ?sa \<mapsto> A')" "cl_tasks c' = cl_tasks c @ [(?ta, task)]"
      using Some migrate_send_task [OF send] by (simp_all add: ends c2 c1)
    have plain: "plain_arg (ms_vm_text m)" "plain_arg (he_data_addr (ms_target m))"
      and inj: "inj (os_show_vm (si_os si ?sa))" and pv: "dd_parse_vm (si_deps si ?sa) (ms_vm_text m) = Inr (ms_vm m)"
      using w by (simp_all add: wired_def)
    from migrate_send_cases [OF inj A send_query(2,1) [OF plain] pv Q send] B'(1) state show ?thesis
      by (intro exI [of _ A'] exI [of _ B'] exI [of _ "[(?ta, task)]"]) (auto simp: ends r2)
  qed
qed


text \<open>Two calm daemons behind the sample fleet; the guest on the first is busy, so the step is refused.\<close>

definition pair_deps :: "'w daemon_deps" where
  "pair_deps = calm_deps \<lparr> dd_read_dir := (\<lambda>_ _. (True, [E_file ''guestd-rootfs'', E_file ''firecracker-1'', E_file ''vmlinux''])) \<rparr>"

definition pair_sites :: "(unit, unit) sites" where
  "pair_sites = \<lparr> si_os = (\<lambda>_. calm_os), si_deps = (\<lambda>_. pair_deps) \<rparr>"

definition pair_parse :: "string \<Rightarrow> string + uri" where
  "pair_parse u = Inr \<lparr> u_host = Some (take 2 u), u_port = Some 80, u_path_and_query = Some (drop 2 u) \<rparr>"

definition pair_cluster :: "unit cluster" where
  "pair_cluster = \<lparr> cl_hosts = [(''ub'', 80) \<mapsto> calm_host, (''ua'', 80) \<mapsto> registry_insert calm_os calm_vm calm_host], cl_tasks = [] \<rparr>"

definition pair_move :: move_setting where
  "pair_move = \<lparr> ms_target = \<lparr> he_control_url = ''ub'', he_data_listen = ''lb'', he_data_addr = ''db'' \<rparr>,
     ms_source = \<lparr> he_control_url = ''ua'', he_data_listen = ''la'', he_data_addr = ''da'' \<rparr>,
     ms_target_at = (''ub'', 80), ms_source_at = (''ua'', 80), ms_vm_text = ''vm'', ms_vm = VmId 1 \<rparr>"

lemma pair_wired: "wired pair_sites pair_parse pair_move"
  by (simp add: wired_def pair_move_def names_host_def pair_parse_def plain_arg_def pair_sites_def pair_deps_def calm_deps_def
      calm_show_inj)

lemma pair_recv:
  assumes "os_env os = (\<lambda>_. None)"
  shows "migrate_recv pair_deps os (Some ''listen=lb'') h
    = (\<lparr> rp_status = 202, rp_body = line ''receiving'', rp_task = Some (''/a/firecracker-1'', 0) \<rparr>, h)"
proof -
  have q: "query_param (Some ''listen=lb'') ''listen'' = Some ''lb''" by (simp add: query_param_def split_once_def)
  have "artifacts_here pair_deps os h = Inr \<lparr> art_fc_bin = ''/a/firecracker-1'', art_kernel = ''/a/vmlinux'',
      art_rootfs = ''/a/guestd-rootfs'' \<rparr>"
    by (simp add: artifacts_here_def discover_artifacts_def pair_deps_def calm_deps_def assms file_pick_def
        starts_with_def ends_with_def join_path_def path_join_def)
  then show ?thesis
    by (simp add: migrate_recv_def q bind_receiver_def io_ctx_def map_errE_def on_os_def pair_deps_def calm_deps_def)
qed

lemma target_accepts:
  assumes "si_deps si (''ub'', 80) = pair_deps" "os_env (si_os si (''ub'', 80)) = (\<lambda>_. None)"
    and "cl_hosts c (''ub'', 80) = Some h"
  shows "cluster_post si pair_parse sst json ''ub/migrate/recv?listen=lb'' c
     = (Inr (), c \<lparr> cl_tasks := cl_tasks c @ [((''ub'', 80), ''/a/firecracker-1'', 0)] \<rparr>)"
proof -
  have "route (si_deps si (''ub'', 80)) (si_os si (''ub'', 80)) POST ''/migrate/recv'' (Some ''listen=lb'') h
      = (\<lparr> rp_status = 202, rp_body = line ''receiving'', rp_task = Some (''/a/firecracker-1'', 0) \<rparr>, h)"
    by (simp add: route_def assms(1) pair_recv [OF assms(2)])
  moreover have "names_host pair_parse ''ub'' (''ub'', 80) ''/migrate/recv?listen=lb''" by (simp add: names_host_def pair_parse_def)
  moreover have "split_target ''/migrate/recv?listen=lb'' = (''/migrate/recv'', Some ''listen=lb'')"
    by (simp add: split_target_def split_once_def)
  moreover have "(cl_hosts c)((''ub'', 80) \<mapsto> h) = cl_hosts c" using assms(3) by (simp add: fun_upd_idem_iff)
  ultimately show ?thesis
    using post_cluster [of pair_parse "''ub''" "(''ub'', 80)" "''/migrate/recv?listen=lb''" c h
        "''/migrate/recv''" "Some ''listen=lb''" si] assms(3)
    by simp
qed


text \<open>
  A refusal ends the whole loop: the binary propagates the error of a step, so a guest that was busy is
  neither retried nor passed over for another.
\<close>

lemma refusal_ends_the_loop:
  assumes "read_fleet parse_vm fetch (rc_hosts cfg) empty_view s = (Inr v, s1)"
    and "rebalance_once show_vm (fv_placement v) (fv_pressure v) (fv_idle v) (pressure_new (rc_watermark cfg)) (fv_compat v)
      (fleet_of (rc_hosts cfg)) api s1 = (Inl e, s2)"
  shows "rebalance_steps parse_vm show_vm fetch pause api cfg (Suc n) s = ([], Inl (Step_failed e), s2)"
  using assms by simp

end
