(* ===== verification/Move_End.thy ===== *)
theory Move_End
  imports Control_Plane Daemon_Steps
begin

text \<open>
  Where a VM is once a rebalance step that moved it is over: the step itself, over both daemons, and then
  the restore that the target runs in the background.
\<close>

section \<open>The background restore\<close>

lemma recv_task_end:
  assumes "restore_register os (fst t) (snd t) h = (out, h1)"
  shows "(case out of
      Inr v \<Rightarrow> h_vms (recv_task os t h) = bt_insert (rv_id v) v (h_vms h)
        \<and> mt_failures (h_metrics (recv_task os t h)) = mt_failures (h_metrics h)
    | Inl e \<Rightarrow> h_vms (recv_task os t h) = h_vms h
        \<and> mt_failures (h_metrics (recv_task os t h)) = mt_failures (h_metrics h) + 1)"
  using assms receive_and_restore_frame [OF assms [unfolded restore_register_def]]
  by (auto simp: recv_task_def registry_defs split: sum.splits)


section \<open>A move that is made\<close>

text \<open>The calm system with a guest that is idle: it says hello, and acknowledges the drain with no turn in flight.\<close>

definition idle_line :: "nat \<Rightarrow> string" where
  "idle_line n = (if n = 0 then ''OK'' else if n = 1 then ''hello'' else ''ack'')"

definition idle_streams :: "nat stream_net" where
  "idle_streams = \<lparr> sn_unix = (\<lambda>_. okE 0), sn_tcp = (\<lambda>_. okE 0), sn_write = (\<lambda>_ _. okE ()),
     sn_read_line = (\<lambda>_ n. (Inr (idle_line n), Suc n)), sn_to_vec = (\<lambda>_. Inr []),
     sn_from_str = (\<lambda>s. Inr (if s = ''hello'' then Hello (VmId 1) (GuestdVersion ''1'') else DrainAck None)) \<rparr>"

definition idle_os :: "(nat, unit) host_os" where
  "idle_os = (calm_world (okE 7) (\<lambda>_ w. w)) \<lparr> os_streams := idle_streams \<rparr>"

definition idle_host :: "nat host" where
  "idle_host = registry_new 0 (HostId ''a'') \<lparr> cc_vendor = ''v'', cc_model = ''m'', cc_tsc_khz = 1, cc_kernel = ''6'' \<rparr>"

definition idle_sites :: "(nat, unit) sites" where
  "idle_sites = \<lparr> si_os = (\<lambda>_. idle_os), si_deps = (\<lambda>_. pair_deps) \<rparr>"

definition idle_cluster :: "nat cluster" where
  "idle_cluster = \<lparr> cl_hosts = [(''ub'', 80) \<mapsto> idle_host, (''ua'', 80) \<mapsto> registry_insert idle_os calm_vm idle_host], cl_tasks = [] \<rparr>"

lemma idle_registered:
  "h_vms (registry_insert idle_os calm_vm idle_host) = [(VmId 1, calm_vm)]"
  "h_os (registry_insert idle_os calm_vm idle_host) = 0"
  by (simp_all add: registry_defs idle_host_def registry_new_def calm_vm_def)

lemma idle_trim: "trim_end ''hello'' = ''hello''" "trim_end ''ack'' = ''ack''"
  by code_simp+

lemma idle_drain: "h_os h = 0 \<Longrightarrow> fst (drain_guest idle_os calm_vm h) = Inr Link_Quiescent"
  by (simp add: drain_guest_def drain_to_quiescence_def link_handshake_def link_drain_def connect_vsock_retry_def
      connect_vsock_def link_send_def link_recv_def idle_os_def idle_streams_def idle_line_def calm_world_def calm_vm_def
      on_os_def bindE_def seqE_def Let_def starts_with_def idle_trim)

lemma idle_tcp:
  "os_tcp_connect idle_os = (\<lambda>_. okE 0)" "os_tcp_shutdown idle_os = (\<lambda>_. okE ())" "os_tcp_write idle_os = (\<lambda>_ _. okE ())"
  by (simp_all add: idle_os_def calm_world_def)

lemma idle_sends_files:
  assumes "\<forall>f \<in> set fs. length (bytes_of_string (of_name f)) < 2 ^ 16"
  shows "send_each (os_hasher idle_os) (os_reads idle_os) (os_source idle_os w) (os_tcp_write idle_os s) fs n = (Inr (), n)"
  using assms
proof (induction fs)
  case Nil
  show ?case by (simp add: okE_def)
next
  case (Cons f fs)
  have "send_data h rd wr name 0 data st k = (Inr st, k)" for h :: "unit hasher" and rd wr name data st and k :: nat
    by (simp add: send_data.simps)
  with Cons show ?case
    by (simp add: send_file_def idle_os_def calm_world_def put_def map_errE_def bindE_def seqE_def Let_def)
qed

lemma idle_snapshots: "\<exists>t h'. snapshot_and_send idle_os sock work dest [\<lparr> of_name = ''vsock.txt'', of_path = p \<rparr>] h = (Inr t, h')"
proof -
  have names: "\<forall>f \<in> set [\<lparr> of_name = ''mem.snap'', of_path = a \<rparr>, \<lparr> of_name = ''state.snap'', of_path = b \<rparr>,
      \<lparr> of_name = ''vsock.txt'', of_path = c \<rparr>]. length (bytes_of_string (of_name f)) < 2 ^ 16" for a b c
    by simp
  have send: "send_snapshot idle_os dest [\<lparr> of_name = ''mem.snap'', of_path = a \<rparr>, \<lparr> of_name = ''state.snap'', of_path = b \<rparr>,
      \<lparr> of_name = ''vsock.txt'', of_path = c \<rparr>] n = (Inr (), n)" for a b c n
    unfolding send_snapshot_def send_files_def seqE_def
    by (simp add: idle_tcp(1,2) bindE_def idle_sends_files [OF names] put_def map_errE_def del: send_each.simps)
      (simp add: idle_tcp map_errE_def)
  have vec: "fx_to_vec (os_fc (calm_world start stop) s) = (\<lambda>_. Inr [])" for start :: "(nat, string, nat) eff" and stop s
    by (simp add: calm_fc)
  have fc: "fa_pause (firecracker_api (os_fc idle_os sock)) n = (Inr (), n)"
    "fa_create_snapshot (firecracker_api (os_fc idle_os sock)) x n = (Inr (), n)" for n x
    by (simp_all add: idle_os_def firecracker_api_def fc_pause_def fc_create_snapshot_def send_json_def json_body_def calm_send
        vec)
  show ?thesis
    by (simp add: snapshot_and_send_def Let_def fc_do_def map_errE_def on_os_def seqE_def bindE_def fc send)
qed

lemma idle_moves:
  assumes "h_os h = 0"
  shows "\<exists>t h'. migrate_running idle_os calm_vm dest h = (Inr (Moved t), h')"
proof -
  obtain h1 where d: "drain_guest idle_os calm_vm h = (Inr Link_Quiescent, h1)"
    using idle_drain [OF assms] by (metis prod.collapse)
  have "write_metadata idle_os calm_vm h1 = (Inr [\<lparr> of_name = ''vsock.txt'', of_path = ''/w/vsock.txt'' \<rparr>], h1)"
    by (simp add: write_metadata_def idle_os_def calm_world_def calm_vm_def io_ctx_def map_errE_def on_os_def seqE_def bindE_def
        join_path_def path_join_def)
  moreover obtain t h2 where "snapshot_and_send idle_os (rv_fc calm_vm) (rv_work calm_vm) dest
      [\<lparr> of_name = ''vsock.txt'', of_path = ''/w/vsock.txt'' \<rparr>] h1 = (Inr t, h2)"
    using idle_snapshots by blast
  ultimately show ?thesis by (simp add: migrate_running_def d)
qed

lemma idle_accepts_send:
  "\<exists>rep h'. migrate_send pair_deps idle_os (Some ''vm=vm&to=db'') (registry_insert idle_os calm_vm idle_host) = (rep, h')
     \<and> rp_status rep = 200"
proof -
  have q: "query_param (Some ''vm=vm&to=db'') ''to'' = Some ''db''" "query_param (Some ''vm=vm&to=db'') ''vm'' = Some ''vm''"
    by (simp_all add: query_param_def split_once_def)
  let ?h = "registry_insert idle_os calm_vm idle_host"
  obtain h1 where take: "registry_take idle_os (VmId 1) ?h = (Some calm_vm, h1)" and h1: "h_os h1 = 0"
    using idle_registered by (fastforce simp: registry_take_def bt_get_def Let_def gauge_absent_def meter_def)
  from idle_moves [OF h1] obtain t h2 where "migrate_running idle_os calm_vm ''db'' h1 = (Inr (Moved t), h2)" by blast
  then show ?thesis
    by (simp add: migrate_send_def send_registered_def q take pair_deps_def calm_deps_def reply_text_def)
qed

lemma idle_accepts:
  assumes "cl_hosts c (''ua'', 80) = Some (registry_insert idle_os calm_vm idle_host)"
  shows "\<exists>c'. cluster_post idle_sites pair_parse sst json ''ua/migrate/send?vm=vm&to=db'' c = (Inr (), c')"
proof -
  have n: "names_host pair_parse ''ua'' (''ua'', 80) (''/migrate/send?vm='' @ ''vm'' @ ''&to='' @ ''db'')"
    by (simp add: names_host_def pair_parse_def)
  obtain r c' where p: "cluster_post idle_sites pair_parse sst json (''ua'' @ ''/migrate/send?vm='' @ ''vm'' @ ''&to='' @ ''db'') c = (r, c')"
    by fastforce
  from post_send [OF n assms p] idle_accepts_send have "r = Inr ()" by (auto simp: idle_sites_def)
  with p show ?thesis by auto
qed

text \<open>In this example nobody connects to the target, so its restore fails: the VM is lost, and one failure counted.\<close>

lemma idle_restore_fails: "fst (restore_register idle_os bin l h) = Inl (Me_Transfer (Tr_Io ''no sender connected before timeout''))"
  by (simp add: restore_register_def receive_and_restore_def work_dir_def restore_into_def recv_snapshot_def idle_os_def
      calm_world_def io_ctx_def map_errE_def on_os_def seqE_def bindE_def)


end
