(* ===== verification/Daemon_Main.thy ===== *)
theory Daemon_Main
  imports Process_Accounts
begin

text \<open>
  The life of a daemon: \<open>main\<close> and \<open>daemon\<close> of \<open>crates/hostd/src/bin/hostd.rs\<close>. What arrives is a list of
  events: requests, a turn for the oldest restore that a receive request left in the background, and
  the failure of an \<open>accept\<close>, which ends the daemon. Each event runs to its end before the next; how
  handlers interleave is \<open>Daemon_Steps\<close>, and here every run is shown to be one of its paths.
\<close>

section \<open>Serving\<close>

text \<open>
  \<open>Accept_failed\<close> also says whether some connection is open at that moment: its task shares the registry,
  which is then not dropped before the process exits. A dropped registry drops its VMs in key order.
\<close>

datatype daemon_event =
    Accept_failed string bool
  | Request http_method path "string option"
  | Background

definition drop_registry :: "('w, 'h) host_os \<Rightarrow> 'w host \<Rightarrow> 'w host" where
  "drop_registry os h = (fold (drop_running os \<circ> snd) (h_vms h) h) \<lparr> h_vms := [] \<rparr>"

fun daemon_loop ::
  "'w daemon_deps \<Rightarrow> ('w, 'h) host_os \<Rightarrow> daemon_event list \<Rightarrow> (path \<times> nat) list \<Rightarrow> 'w host
    \<Rightarrow> string option \<times> reply list \<times> 'w host" where
  "daemon_loop dd os [] tasks h = (None, [], h)"
| "daemon_loop dd os (Accept_failed e conn # evs) tasks h =
     (Some e, [], if conn \<or> tasks \<noteq> [] then h else drop_registry os h)"
| "daemon_loop dd os (Request meth p query # evs) tasks h =
     (let (rep, h) = route dd os meth p query h;
          (end_error, reps, h) = daemon_loop dd os evs (tasks @ (case rp_task rep of None \<Rightarrow> [] | Some t \<Rightarrow> [t])) h
      in (end_error, rep # reps, h))"
| "daemon_loop dd os (Background # evs) [] h = daemon_loop dd os evs [] h"
| "daemon_loop dd os (Background # evs) (t # tasks) h = daemon_loop dd os evs tasks (recv_task os t h)"

section \<open>Starting\<close>

text \<open>
  \<open>hostd_daemon\<close> yields an error when it does not get to serve: the recorder is installed, the registry
  is made, with the class detected for this host, and the listening socket is bound, in this order.
\<close>

definition hostd_daemon ::
  "'w daemon_deps \<Rightarrow> ('w, 'h) host_os \<Rightarrow> (build_error \<Rightarrow> string) \<Rightarrow> (string \<Rightarrow> string option) \<Rightarrow> compat_class
    \<Rightarrow> string \<Rightarrow> string \<Rightarrow> daemon_event list \<Rightarrow> recorder_state \<Rightarrow> 'w
    \<Rightarrow> string + (string option \<times> reply list \<times> 'w host)" where
  "hostd_daemon dd os show_build bind_error cls addr host_id evs g w =
     (case fst (recorder g) of
        Inl e \<Rightarrow> Inl (show_build e)
      | Inr _ \<Rightarrow>
        (let h = registry_new w (HostId host_id) cls in
         case bind_error addr of
           Some e \<Rightarrow> Inl e
         | None \<Rightarrow> Inr (daemon_loop dd os evs [] h)))"

text \<open>The end of the process: its exit code and what it printed last, or that it is still serving.\<close>

datatype hostd_exit = Exit nat string | Still_serving

definition hostd_main ::
  "(string \<Rightarrow> string + string) \<Rightarrow> string option
    \<Rightarrow> (string \<Rightarrow> string \<Rightarrow> string + (string option \<times> reply list \<times> 'w host)) \<Rightarrow> string list \<Rightarrow> hostd_exit" where
  "hostd_main parse_addr runtime_error daemon args =
     (case args of
        _ # cmd # addr_arg # rest \<Rightarrow>
          if cmd = ''daemon'' then
            (case parse_addr addr_arg of
               Inl e \<Rightarrow> Exit 2 (''hostd: bad listen address '' @ [CHR 0x27] @ addr_arg @ [CHR 0x27] @ '': '' @ e)
             | Inr addr \<Rightarrow>
               (let host_id = (case rest of h # _ \<Rightarrow> h | [] \<Rightarrow> ''host'') in
                case runtime_error of
                  Some e \<Rightarrow> Exit 1 (''hostd: tokio runtime: '' @ e)
                | None \<Rightarrow>
                  (case daemon addr host_id of
                     Inl e \<Rightarrow> Exit 1 (''hostd: '' @ e)
                   | Inr (Some e, _) \<Rightarrow> Exit 1 (''hostd: '' @ e)
                   | Inr (None, _) \<Rightarrow> Still_serving)))
          else Exit 2 ''usage: hostd daemon <listen_addr> [host_id]''
      | _ \<Rightarrow> Exit 2 ''usage: hostd daemon <listen_addr> [host_id]'')"

section \<open>Every run is a path of the step relation\<close>

text \<open>The ids drawn along a run are new: what version 4 UUIDs promise.\<close>

fun draws_new :: "('w, 'h) host_os \<Rightarrow> daemon_event \<Rightarrow> (path \<times> nat) list \<Rightarrow> 'w host \<Rightarrow> bool" where
  "draws_new os (Request meth p query) tasks h =
     (meth = POST \<and> p = ''/vms/spawn'' \<longrightarrow> fst (os_fresh_uuid os (h_os h)) \<notin> set (owned (h, [])))"
| "draws_new os Background (t # tasks) h =
     (case restore_register os (fst t) (snd t) h of
        (Inr vm, _) \<Rightarrow> rv_id vm \<notin> set (owned (h, [])) | (Inl _, _) \<Rightarrow> True)"
| "draws_new os _ tasks h = True"

fun ids_new :: "'w daemon_deps \<Rightarrow> ('w, 'h) host_os \<Rightarrow> daemon_event list \<Rightarrow> (path \<times> nat) list \<Rightarrow> 'w host \<Rightarrow> bool" where
  "ids_new dd os [] tasks h = True"
| "ids_new dd os (ev # evs) tasks h =
     (draws_new os ev tasks h \<and>
      (case ev of
         Accept_failed e conn \<Rightarrow> True
       | Request meth p query \<Rightarrow>
           (case route dd os meth p query h of (rep, h) \<Rightarrow>
              ids_new dd os evs (tasks @ (case rp_task rep of None \<Rightarrow> [] | Some t \<Rightarrow> [t])) h)
       | Background \<Rightarrow>
           (case tasks of [] \<Rightarrow> ids_new dd os evs [] h
            | t # ts \<Rightarrow> ids_new dd os evs ts (recv_task os t h))))"

abbreviation daemon_path :: "('w, 'h) host_os \<Rightarrow> ('w \<Rightarrow> 'w \<Rightarrow> bool) \<Rightarrow> 'w host \<Rightarrow> 'w host \<Rightarrow> bool" where
  "daemon_path os same h h' \<equiv> (daemon_step os same)\<^sup>*\<^sup>* (h, []) (h', [])"

text \<open>What a request does outside the operations of the step relation keeps \<open>same\<close>.\<close>

definition stays :: "('w \<Rightarrow> 'w \<Rightarrow> bool) \<Rightarrow> 'w daemon_deps \<Rightarrow> ('w, 'h) host_os \<Rightarrow> bool" where
  "stays same dd os \<longleftrightarrow> (\<forall>w. same w w) \<and> (\<forall>w p. same w (snd (os_read os p w))) \<and> (\<forall>w a. same w (snd (dd_bind dd a w)))"

lemma path_one: "daemon_step os same (h, []) (h', []) \<Longrightarrow> daemon_path os same h h'"
  by (rule r_into_rtranclp)

lemma path_meter:
  assumes "\<And>w. same w w" "daemon_path os same h h1"
  shows "daemon_path os same h (meter migration_failed h1)"
proof -
  have "daemon_step os same (h1, []) (meter migration_failed h1, [])"
    by (rule step_other) (simp_all add: assms(1) meter_def migration_failed_def)
  with assms(2) show ?thesis by (rule rtranclp.rtrancl_into_rtrancl)
qed

lemma send_registered_path:
  assumes "\<And>w. same w w" "send_registered dd os vm dest h = (rep, h')"
  shows "daemon_path os same h h'"
proof (cases "dd_parse_vm dd vm")
  case (Inl e)
  with assms(2) show ?thesis by (simp add: send_registered_def)
next
  case (Inr i)
  obtain v h1 where t: "registry_take os i h = (v, h1)" by fastforce
  show ?thesis
  proof (cases v)
    case None
    with t have "h1 = h" by (auto simp: registry_take_def Let_def bt_remove_fresh split: option.splits)
    with assms(2) Inr t None show ?thesis by (simp add: send_registered_def)
  next
    case (Some vm')
    obtain r h2 where run: "migrate_running os vm' dest h1 = (r, h2)" by fastforce
    have "daemon_step os same (h, []) (h1, [(vm', dest)])" using t Some by (auto intro: step_take)
    moreover have "daemon_step os same (h1, [(vm', dest)]) (finish_send os (r, h2), [])"
      using step_finish [OF run, where xs = "[]" and ys = "[]"] by simp
    moreover have "h' = finish_send os (r, h2)"
      using assms(2) Inr t Some run
      by (auto simp: send_registered_def finish_send_def split: sum.splits migrate_outcome.splits)
    ultimately show ?thesis by (metis converse_rtranclp_into_rtranclp r_into_rtranclp)
  qed
qed

lemma route_path:
  assumes st: "stays same dd os" and new: "draws_new os (Request meth p query) tasks h"
    and run: "route dd os meth p query h = (rep, h')"
  shows "daemon_path os same h h'"
proof -
  have refl: "same w w" for w using st by (simp add: stays_def)
  have other: "daemon_path os same h (h \<lparr> h_os := w \<rparr>)" if "same (h_os h) w" for w
    by (rule path_one, rule step_other) (simp_all add: that)
  have status: "daemon_path os same h h'" if "daemon_status dd os h = (rep, h')"
  proof -
    have "h' = h \<lparr> h_os := snd (os_read os ''/proc/meminfo'' (h_os h)) \<rparr>"
      using that by (auto simp: daemon_status_def Let_def split: prod.splits sum.splits)
    with other st show ?thesis by (simp add: stays_def)
  qed
  have spawn: "daemon_path os same h h'" if v: "vms_spawn dd os query h = (rep, h')" and "meth = POST" "p = ''/vms/spawn''"
  proof (cases "artifacts_here dd os h")
    case (Inl e)
    with v show ?thesis by (simp add: vms_spawn_def Let_def)
  next
    case (Inr art)
    let ?mib = "case Option.bind (query_param query ''mib'') (parse_uint (2 ^ 32 - 1)) of Some n \<Rightarrow> of_nat n | None \<Rightarrow> 128"
    obtain r h1 where s: "registry_spawn os art ?mib (query_param query ''net'' = Some ''1'') h = (r, h1)" by fastforce
    with v Inr have "h' = h1" by (auto simp: vms_spawn_def Let_def split: sum.splits)
    moreover have "fst (os_fresh_uuid os (h_os h)) \<notin> set (owned (h, []))" using new that by simp
    ultimately show ?thesis using step_spawn [OF _ s] by (auto intro: path_one)
  qed
  have send: "daemon_path os same h h'" if m: "migrate_send dd os query h = (rep, h')"
  proof (cases "query_param query ''to''")
    case None
    with m show ?thesis by (simp add: migrate_send_def)
  next
    case to: (Some dest)
    show ?thesis
    proof (cases "query_param query ''vm''")
      case (Some vm)
      with m to show ?thesis using send_registered_path [where same = same, OF refl] by (simp add: migrate_send_def)
    next
      case None
      show ?thesis
      proof (cases "artifacts_here dd os h")
        case (Inl e)
        with m to None show ?thesis by (simp add: migrate_send_def)
      next
        case (Inr art)
        obtain r h1 where s: "migrate_source os art dest h = (r, h1)" by fastforce
        then have one: "daemon_path os same h h1" by (intro path_one step_source)
        from m to None Inr s have "h' = (case r of Inr _ \<Rightarrow> h1 | Inl _ \<Rightarrow> meter migration_failed h1)"
          by (auto simp: migrate_send_def split: sum.splits)
        with one path_meter [where same = same, OF refl one] show ?thesis by (cases r) auto
      qed
    qed
  qed
  have recv: "daemon_path os same h h'" if m: "migrate_recv dd os query h = (rep, h')"
  proof -
    have "h' = h \<or> (\<exists>a. h' = h \<lparr> h_os := snd (dd_bind dd a (h_os h)) \<rparr>)"
      using m by (auto simp: migrate_recv_def bind_receiver_def io_ctx_def map_errE_def on_os_def
          split: option.splits sum.splits prod.splits) (metis snd_conv)+
    with other st show ?thesis by (auto simp: stays_def)
  qed
  show ?thesis using run status spawn send recv by (auto simp: route_def split: if_splits)
qed

lemma recv_task_path:
  assumes st: "stays same dd os" and new: "draws_new os Background (t # tasks) h"
  shows "daemon_path os same h (recv_task os t h)"
proof -
  have refl: "same w w" for w using st by (simp add: stays_def)
  obtain r h1 where run: "restore_register os (fst t) (snd t) h = (r, h1)" by fastforce
  show ?thesis
  proof (cases r)
    case (Inl e)
    have one: "daemon_path os same h h1" using run Inl by (intro path_one step_restore_failed) simp
    from path_meter [where same = same, OF refl one] run Inl show ?thesis by (simp add: recv_task_def)
  next
    case (Inr vm)
    with new run have "rv_id vm \<notin> set (owned (h, []))" by simp
    with run Inr show ?thesis by (auto simp: recv_task_def intro: path_one step_restored)
  qed
qed

text \<open>The host a run ends in, before a failed \<open>accept\<close> drops anything.\<close>

lemma daemon_loop_path:
  "stays same dd os \<Longrightarrow> ids_new dd os evs tasks h \<Longrightarrow> daemon_loop dd os evs tasks h = (e, reps, h')
    \<Longrightarrow> \<exists>h1. daemon_path os same h h1 \<and> (h' = h1 \<or> h' = drop_registry os h1)"
proof (induction dd os evs tasks h arbitrary: e reps h' rule: daemon_loop.induct)
  case (3 dd os meth p query evs tasks h)
  obtain rep h1 where r: "route dd os meth p query h = (rep, h1)" by fastforce
  obtain e2 reps2 h2 where l: "daemon_loop dd os evs (tasks @ (case rp_task rep of None \<Rightarrow> [] | Some t \<Rightarrow> [t])) h1 = (e2, reps2, h2)"
    by (metis prod_cases3)
  have "daemon_path os same h h1"
    by (rule route_path [OF _ _ r, where tasks = tasks]) (use 3 in \<open>simp_all\<close>)
  moreover have "ids_new dd os evs (tasks @ (case rp_task rep of None \<Rightarrow> [] | Some t \<Rightarrow> [t])) h1" using "3.prems"(2) r by simp
  moreover have "h2 = h'" using "3.prems"(3) r l by simp
  ultimately obtain h3 where "daemon_path os same h h1" "daemon_path os same h1 h3" "h' = h3 \<or> h' = drop_registry os h3"
    using "3.IH" [OF refl r [symmetric] "3.prems"(1) _ l] by blast
  then show ?case using rtranclp_trans [of "daemon_step os same"] by (intro exI [of _ h3]) simp
next
  case (5 dd os evs t tasks h)
  have "daemon_path os same h (recv_task os t h)" by (rule recv_task_path) (use 5 in \<open>simp_all\<close>)
  moreover from 5 obtain h3 where "daemon_path os same (recv_task os t h) h3" "h' = h3 \<or> h' = drop_registry os h3" by auto
  ultimately show ?case using rtranclp_trans [of "daemon_step os same"] by (intro exI [of _ h3]) simp
qed auto

lemma path_reachable:
  assumes "reachable_daemon os same w0 d" "(daemon_step os same)\<^sup>*\<^sup>* d d'"
  shows "reachable_daemon os same w0 d'"
  using assms(2) by induction (use assms(1) in \<open>auto intro: daemon_next\<close>)

section \<open>What a daemon answers, and what it leaves running\<close>

text \<open>The requests that are answered: those before the first failing \<open>accept\<close>.\<close>

fun requests_before_end :: "daemon_event list \<Rightarrow> nat" where
  "requests_before_end [] = 0"
| "requests_before_end (Accept_failed _ _ # evs) = 0"
| "requests_before_end (Request _ _ _ # evs) = Suc (requests_before_end evs)"
| "requests_before_end (Background # evs) = requests_before_end evs"

definition statuses :: "nat set" where "statuses = {200, 202, 400, 404, 409, 500}"

lemma route_status: "route dd os meth p query h = (rep, h') \<Longrightarrow> rp_status rep \<in> statuses"
proof -
  assume "route dd os meth p query h = (rep, h')"
  moreover have "daemon_status dd os h = (rep, h') \<Longrightarrow> rp_status rep \<in> statuses"
    by (auto simp: daemon_status_def Let_def reply_text_def statuses_def split: prod.splits sum.splits)
  moreover have "vms_spawn dd os query h = (rep, h') \<Longrightarrow> rp_status rep \<in> statuses"
    by (auto simp: vms_spawn_def Let_def reply_text_def statuses_def split: prod.splits sum.splits)
  moreover have "send_registered dd os vm dest h = (rep, h') \<Longrightarrow> rp_status rep \<in> statuses" for vm dest
    by (auto simp: send_registered_def reply_text_def statuses_def
        split: prod.splits sum.splits option.splits migrate_outcome.splits)
  then have "migrate_send dd os query h = (rep, h') \<Longrightarrow> rp_status rep \<in> statuses"
    by (auto simp: migrate_send_def reply_text_def statuses_def split: prod.splits sum.splits option.splits)
  moreover have "migrate_recv dd os query h = (rep, h') \<Longrightarrow> rp_status rep \<in> statuses"
    by (auto simp: migrate_recv_def reply_text_def statuses_def split: prod.splits sum.splits option.splits)
  ultimately show ?thesis by (auto simp: route_def reply_text_def statuses_def split: if_splits)
qed

lemma daemon_loop_answers:
  "daemon_loop dd os evs tasks h = (e, reps, h') \<Longrightarrow>
     length reps = requests_before_end evs \<and> rp_status ` set reps \<subseteq> statuses"
proof (induction dd os evs tasks h arbitrary: e reps h' rule: daemon_loop.induct)
  case (3 dd os meth p query evs tasks h)
  obtain rep h1 where r: "route dd os meth p query h = (rep, h1)" by fastforce
  obtain e2 reps2 h2 where l: "daemon_loop dd os evs (tasks @ (case rp_task rep of None \<Rightarrow> [] | Some t \<Rightarrow> [t])) h1 = (e2, reps2, h2)"
    by (metis prod_cases3)
  with "3.prems" r have "reps = rep # reps2" by simp
  with "3.IH" [OF refl r [symmetric] l] route_status [OF r] show ?case by simp
qed auto

lemma drop_running_procs:
  assumes t: "tracks os procs"
  shows "procs (h_os (fold (drop_running os \<circ> snd) vms h)) = procs (h_os h) - set (map (rv_proc \<circ> snd) vms)"
  by (induction vms arbitrary: h) (auto simp: drop_running_def do_os_def tracks_kill [OF t])


text \<open>A daemon that is asked to boot a VM, then for its health, and whose \<open>accept\<close> then fails.\<close>

definition tally_deps :: "nat list daemon_deps" where
  "tally_deps = \<lparr> dd_default_dir = Inr ''/a'',
     dd_read_dir = (\<lambda>_ _. (True, [E_file ''guestd-rootfs'', E_file ''firecracker-1'', E_file ''vmlinux''])), dd_bind = (\<lambda>_. okE 0),
     dd_parse_vm = (\<lambda>_. Inr (VmId 1)), dd_render = (\<lambda>_. []), dd_status_json = (\<lambda>_. Inr []), dd_object = (\<lambda>_. []),
     dd_millis = (\<lambda>_. []), dd_rnd = id \<rparr>"

definition tally_events :: "daemon_event list" where
  "tally_events = [Request POST ''/vms/spawn'' None, Request GET ''/healthz'' None, Accept_failed ''EMFILE'' True]"

lemma tally_artifacts: "\<exists>art. artifacts_here tally_deps tally_os h = Inr art"
  by (simp add: artifacts_here_def discover_artifacts_def tally_deps_def tally_os_def calm_world_def file_pick_def
      starts_with_def ends_with_def join_path_def path_join_def)

lemma tally_fresh: "fst (os_fresh_uuid tally_os w) = VmId 1"
  by (simp add: tally_os_def calm_world_def)

lemma tally_spawn:
  assumes "h_os h = []" "h_vms h = []"
  shows "\<exists>rep h' vm. route tally_deps tally_os POST ''/vms/spawn'' None h = (rep, h') \<and> rp_task rep = None \<and> h_vms h' = [(VmId 1, vm)]"
proof -
  let ?start = "\<lambda>w. (Inr (Suc (sum_list w)), Suc (sum_list w) # w)"
  obtain art where art: "artifacts_here tally_deps tally_os h = Inr art" using tally_artifacts by blast
  have "?start (h_os h) = (Inr 1, [1])" using assms(1) by simp
  from calm_spawn [of ?start h, OF this] obtain vm h' where "registry_spawn tally_os art 128 False h = (Inr (VmId 1), h')"
    and vms: "h_vms h' = bt_insert (VmId 1) vm (h_vms h)" unfolding tally_os_def by blast
  then have "route tally_deps tally_os POST ''/vms/spawn'' None h
      = (reply_text 200 (line (''{\"vm\":\"'' @ os_show_vm tally_os (VmId 1) @ ''\"}'')), h')"
    by (simp add: route_def vms_spawn_def query_param_def art Let_def)
  with vms assms(2) show ?thesis by (auto simp: reply_text_def)
qed


end
