(* ===== verification/Test_Support.thy ===== *)
theory Test_Support
  imports Prelude
begin

text \<open>
  The crates' own unit tests, as definitions over the model. A test is a predicate of the state it starts
  from, written in the order of its statements: \<open>expect\<close> is \<open>.expect(..)\<close> and hands the value to the rest of
  the test, \<open>expect_err\<close> is \<open>.expect_err(..)\<close>, \<open>asserting\<close> is an \<open>assert!\<close> on the state; what would panic is
  false. That the model passes the tests is evidence that it is a model of this code.
\<close>

definition expect :: "('s, 'e, 'a) eff \<Rightarrow> ('a \<Rightarrow> 's \<Rightarrow> bool) \<Rightarrow> 's \<Rightarrow> bool" where
  "expect m k s = (case m s of (Inl _, _) \<Rightarrow> False | (Inr a, s') \<Rightarrow> k a s')"

definition expect_err :: "('s, 'e, 'a) eff \<Rightarrow> ('e \<Rightarrow> 's \<Rightarrow> bool) \<Rightarrow> 's \<Rightarrow> bool" where
  "expect_err m k s = (case m s of (Inl e, s') \<Rightarrow> k e s' | (Inr _, _) \<Rightarrow> False)"

definition asserting :: "('s \<Rightarrow> bool) \<Rightarrow> ('s \<Rightarrow> bool) \<Rightarrow> 's \<Rightarrow> bool" where
  "asserting p k s \<longleftrightarrow> p s \<and> k s"

definition stepping :: "('s \<Rightarrow> 's) \<Rightarrow> ('s \<Rightarrow> bool) \<Rightarrow> 's \<Rightarrow> bool" where
  "stepping f k s = k (f s)"

definition passed :: "'s \<Rightarrow> bool" where
  "passed s = True"

lemmas test_steps = expect_def expect_err_def asserting_def stepping_def passed_def

text \<open>What a test that passes shows of its first step.\<close>

lemma expect_value: "expect m k s \<Longrightarrow> \<exists>a s'. m s = (Inr a, s') \<and> k a s'"
  by (auto simp: expect_def split: prod.splits sum.splits)

lemma expect_error: "expect_err m k s \<Longrightarrow> \<exists>e s'. m s = (Inl e, s') \<and> k e s'"
  by (auto simp: expect_err_def split: prod.splits sum.splits)

end
