(* ===== verification/Guest_Tests.thy ===== *)
theory Guest_Tests
  imports Test_Support Guest_Facts Guest_Wrap Guest_Clock
begin

text \<open>
  The unit tests of \<open>crates/guestd\<close>: the supervisor (\<open>guest.rs\<close>), wrap mode (\<open>wrap.rs\<close>), the clock fix-up
  (\<open>clock.rs\<close>) and the framing (\<open>framing.rs\<close>).
\<close>

section \<open>The supervisor\<close>

definition test_guest :: "pseudo_channel guest" where
  "test_guest = guest_new (VmId 0) (GuestdVersion ''0.1.0'') pc_new"

abbreviation ts :: "u64 \<Rightarrow> timestamp" where
  "ts \<equiv> from_nanos"

text \<open>The messages the guest has sent; \<open>DrainRequest\<close> with the deadline that every test uses.\<close>

abbreviation wire :: "pseudo_channel guest \<Rightarrow> guest_to_host list" where
  "wire g \<equiv> pc_sent (g_chan g)"

definition drain_now :: "(pseudo_channel, unit) guest_op" where
  "drain_now = guest_handle pc_send (DrainRequest (secs 5)) (ts 0)"

definition cancel_now :: "(pseudo_channel, unit) guest_op" where
  "cancel_now = guest_handle pc_send DrainCancel (ts 0)"

fun is_hello :: "guest_to_host \<Rightarrow> bool" where
  "is_hello (Hello _ _) = True"
| "is_hello _ = False"

fun is_resumed :: "guest_to_host \<Rightarrow> bool" where
  "is_resumed (Resumed _) = True"
| "is_resumed _ = False"

fun in_progress :: "guest_error \<Rightarrow> bool" where
  "in_progress (Ge_TurnInProgress _) = True"
| "in_progress _ = False"

fun started_as :: "start_outcome \<Rightarrow> (turn_id \<Rightarrow> 's \<Rightarrow> bool) \<Rightarrow> 's \<Rightarrow> bool" where
  "started_as (Started t) k s = k t s"
| "started_as Queued k s = False"

definition sent_all :: "(guest_to_host \<Rightarrow> bool) list \<Rightarrow> pseudo_channel guest \<Rightarrow> bool" where
  "sent_all ps g = list_all2 (\<lambda>p m. p m) ps (wire g)"

definition last_sent :: "(guest_to_host \<Rightarrow> bool) \<Rightarrow> pseudo_channel guest \<Rightarrow> bool" where
  "last_sent p g \<longleftrightarrow> wire g \<noteq> [] \<and> p (last (wire g))"

definition test_handshake_sends_hello_and_stores_secrets :: bool where
  "test_handshake_sends_hello_and_stores_secrets =
     (let env = [(''AGENT_API_KEY'', ''sk-x'')];
          g = test_guest \<lparr> g_chan := push_inbound (Secrets env) (g_chan test_guest) \<rparr>
      in expect (handshake pc_send pc_recv) (\<lambda>_.
           asserting (\<lambda>g. g_secrets g = env) (sent_all [is_hello])) g)"

definition test_handshake_rejects_non_secrets_reply :: bool where
  "test_handshake_rejects_non_secrets_reply =
     (let g = test_guest \<lparr> g_chan := push_inbound H_Ping (g_chan test_guest) \<rparr>
      in expect_err (handshake pc_send pc_recv) (\<lambda>e _. e = Ge_UnexpectedHandshake) g)"

definition test_turns_are_monotonic_and_emit_signals :: bool where
  "test_turns_are_monotonic_and_emit_signals =
     expect (start_turn pc_send (ts 1)) (\<lambda>o0. started_as o0 (\<lambda>t0.
      expect (end_turn pc_send (ts 2)) (\<lambda>_.
       expect (start_turn pc_send (ts 3)) (\<lambda>o1. started_as o1 (\<lambda>t1.
        expect (end_turn pc_send (ts 4)) (\<lambda>_.
         asserting (\<lambda>_. t0 = turn_FIRST \<and> t1 = turn_next turn_FIRST)
          (sent_all [is_turn_started, is_turn_ended, is_turn_started, is_turn_ended]))))))) test_guest"

definition test_host_driven_turn_echoes_its_id_and_clears :: bool where
  "test_host_driven_turn_echoes_its_id_and_clears =
     (let i = TurnId 42 in
      expect (run_turn pc_send i (ts 1)) (\<lambda>out.
       asserting (\<lambda>g. out = Started i \<and> g_in_flight g = None)
        (sent_all [\<lambda>m. case m of TurnStarted a _ \<Rightarrow> a = i | _ \<Rightarrow> False, \<lambda>m. case m of TurnEnded b _ \<Rightarrow> b = i | _ \<Rightarrow> False]))
       test_guest)"

definition test_host_driven_turn_is_deferred_while_gated :: bool where
  "test_host_driven_turn_is_deferred_while_gated =
     expect drain_now (\<lambda>_.
      expect (run_turn pc_send (TurnId 7) (ts 1)) (\<lambda>out.
       asserting (\<lambda>g. out = Queued \<and> g_queued g = 1) (sent_all [\<lambda>m. m = DrainAck None]))) test_guest"

definition test_starting_a_turn_while_one_runs_is_rejected :: bool where
  "test_starting_a_turn_while_one_runs_is_rejected =
     expect (start_turn pc_send (ts 1)) (\<lambda>_.
      expect_err (start_turn pc_send (ts 2)) (\<lambda>e _. in_progress e)) test_guest"

definition test_ending_with_no_turn_is_rejected :: bool where
  "test_ending_with_no_turn_is_rejected =
     expect_err (end_turn pc_send (ts 1)) (\<lambda>e _. e = Ge_NoTurnInFlight) test_guest"

definition test_drain_while_idle_acks_none_and_gates_new_turns :: bool where
  "test_drain_while_idle_acks_none_and_gates_new_turns =
     expect drain_now (\<lambda>_.
      asserting g_gated (asserting (sent_all [\<lambda>m. m = DrainAck None])
       (expect (start_turn pc_send (ts 1)) (\<lambda>out.
         asserting (\<lambda>g. out = Queued \<and> g_queued g = 1 \<and> length (wire g) = 1) passed)))) test_guest"

definition test_queued_turns_replay_after_resume_with_continuing_ids :: bool where
  "test_queued_turns_replay_after_resume_with_continuing_ids =
     expect (start_turn pc_send (ts 1)) (\<lambda>o0. started_as o0 (\<lambda>t0.
      expect (end_turn pc_send (ts 2)) (\<lambda>_.
       expect drain_now (\<lambda>_.
        expect (start_turn pc_send (ts 3)) (\<lambda>q1. asserting (\<lambda>_. q1 = Queued)
         (expect (start_turn pc_send (ts 4)) (\<lambda>q2. asserting (\<lambda>g. q2 = Queued \<and> g_queued g = 2)
          (expect_err (replay_next pc_send (ts 5)) (\<lambda>e. asserting (\<lambda>_. e = Ge_GatedReplay)
           (expect (resume pc_send (ts 6)) (\<lambda>_.
             asserting (\<lambda>g. \<not> g_gated g) (asserting (last_sent is_resumed)
             (expect (replay_next pc_send (ts 7)) (\<lambda>r0.
               expect (end_turn pc_send (ts 8)) (\<lambda>_.
                expect (replay_next pc_send (ts 9)) (\<lambda>r1.
                 expect (end_turn pc_send (ts 10)) (\<lambda>_.
                  expect (replay_next pc_send (ts 11)) (\<lambda>r2.
                   asserting (\<lambda>g. r2 = None \<and> r0 = Some (turn_next t0) \<and> r1 = Some (turn_next (turn_next t0)) \<and> g_queued g = 0)
                    passed)))))))))))))))))) test_guest"

definition test_drain_cancel_lets_the_backlog_replay_on_the_same_host :: bool where
  "test_drain_cancel_lets_the_backlog_replay_on_the_same_host =
     expect drain_now (\<lambda>_.
      expect (start_turn pc_send (ts 1)) (\<lambda>out. asserting (\<lambda>_. out = Queued)
       (expect cancel_now (\<lambda>_. asserting (\<lambda>g. g_queued g = 1)
         (expect (replay_next pc_send (ts 2)) (\<lambda>r. asserting (\<lambda>g. r = Some turn_FIRST \<and> g_queued g = 0) passed)))))) test_guest"

definition test_replay_is_refused_while_a_turn_is_in_flight :: bool where
  "test_replay_is_refused_while_a_turn_is_in_flight =
     expect drain_now (\<lambda>_.
      expect (start_turn pc_send (ts 1)) (\<lambda>_.
       expect cancel_now (\<lambda>_.
        expect (start_turn pc_send (ts 2)) (\<lambda>_.
         expect_err (replay_next pc_send (ts 3)) (\<lambda>e _. in_progress e))))) test_guest"

definition test_drain_while_busy_acks_the_in_flight_turn :: bool where
  "test_drain_while_busy_acks_the_in_flight_turn =
     expect (start_turn pc_send (ts 1)) (\<lambda>out. started_as out (\<lambda>turn.
      expect drain_now (\<lambda>_. last_sent (\<lambda>m. m = DrainAck (Some turn))))) test_guest"

definition test_drain_cancel_reopens_the_gate :: bool where
  "test_drain_cancel_reopens_the_gate =
     expect drain_now (\<lambda>_. asserting g_gated
      (expect cancel_now (\<lambda>_. asserting (\<lambda>g. \<not> g_gated g)
        (expect (start_turn pc_send (ts 9)) (\<lambda>out. started_as out (\<lambda>_. passed)))))) test_guest"

definition test_ping_is_answered_with_pong :: bool where
  "test_ping_is_answered_with_pong =
     expect (guest_handle pc_send H_Ping (ts 0)) (\<lambda>_. sent_all [\<lambda>m. m = G_Pong]) test_guest"

lemmas guest_test_defs = test_steps test_guest_def guest_new_def drain_now_def cancel_now_def sent_all_def last_sent_def
  push_inbound_def pc_new_def pc_send_def pc_recv_def g_send_def g_recv_def guest_op_defs bindE_def seqE_def Let_def turn_FIRST_def turn_next_def
  sat_add_def
  test_handshake_sends_hello_and_stores_secrets_def
  test_handshake_rejects_non_secrets_reply_def
  test_turns_are_monotonic_and_emit_signals_def
  test_host_driven_turn_echoes_its_id_and_clears_def
  test_host_driven_turn_is_deferred_while_gated_def
  test_starting_a_turn_while_one_runs_is_rejected_def
  test_ending_with_no_turn_is_rejected_def
  test_drain_while_idle_acks_none_and_gates_new_turns_def
  test_queued_turns_replay_after_resume_with_continuing_ids_def
  test_drain_cancel_lets_the_backlog_replay_on_the_same_host_def
  test_replay_is_refused_while_a_turn_is_in_flight_def
  test_drain_while_busy_acks_the_in_flight_turn_def
  test_drain_cancel_reopens_the_gate_def
  test_ping_is_answered_with_pong_def

lemma guest_tests_pass:
  "test_handshake_sends_hello_and_stores_secrets" "test_handshake_rejects_non_secrets_reply"
  "test_turns_are_monotonic_and_emit_signals" "test_host_driven_turn_echoes_its_id_and_clears"
  "test_host_driven_turn_is_deferred_while_gated" "test_starting_a_turn_while_one_runs_is_rejected"
  "test_ending_with_no_turn_is_rejected" "test_drain_while_idle_acks_none_and_gates_new_turns"
  "test_queued_turns_replay_after_resume_with_continuing_ids"
  "test_drain_cancel_lets_the_backlog_replay_on_the_same_host" "test_replay_is_refused_while_a_turn_is_in_flight"
  "test_drain_while_busy_acks_the_in_flight_turn" "test_drain_cancel_reopens_the_gate" "test_ping_is_answered_with_pong"
  by (simp_all add: guest_test_defs)

section \<open>Wrap mode\<close>

definition test_classify_matches_markers_and_ignores_other_lines :: bool where
  "test_classify_matches_markers_and_ignores_other_lines \<longleftrightarrow>
     (let cfg = wrap_default in
      classify cfg ''@@TURN_START@@'' = Some Sig_Start
    \<and> classify cfg ''@@TURN_END@@'' = Some Sig_End
    \<and> classify cfg (''  @@TURN_START@@'' @ [newline]) = Some Sig_Start
    \<and> classify cfg ''computed sequence value 7'' = None
    \<and> classify cfg ''prefix @@TURN_START@@'' = None)"

definition test_classify_honours_custom_markers :: bool where
  "test_classify_honours_custom_markers \<longleftrightarrow>
     (let cfg = \<lparr> wc_start_marker = ''>>begin'', wc_end_marker = ''>>end'' \<rparr> in
      classify cfg ''>>begin'' = Some Sig_Start \<and> classify cfg ''@@TURN_START@@'' = None)"

definition test_clean_alternation_emits_one_started_then_ended :: bool where
  "test_clean_alternation_emits_one_started_then_ended =
     expect (apply_signal pc_send Sig_Start (ts 1)) (\<lambda>_. asserting (\<lambda>g. g_in_flight g \<noteq> None)
      (expect (apply_signal pc_send Sig_End (ts 2)) (\<lambda>_. asserting (\<lambda>g. g_in_flight g = None)
        (sent_all [is_turn_started, is_turn_ended])))) test_guest"

definition test_duplicate_start_is_ignored :: bool where
  "test_duplicate_start_is_ignored =
     expect (apply_signal pc_send Sig_Start (ts 1)) (\<lambda>_.
      expect (apply_signal pc_send Sig_Start (ts 2)) (\<lambda>_. asserting (\<lambda>g. length (wire g) = 1) passed)) test_guest"

definition test_stray_end_is_ignored :: bool where
  "test_stray_end_is_ignored =
     expect (apply_signal pc_send Sig_End (ts 1)) (\<lambda>_. asserting (\<lambda>g. wire g = []) passed) test_guest"

definition test_observed_turn_bypasses_the_drain_gate :: bool where
  "test_observed_turn_bypasses_the_drain_gate =
     expect drain_now (\<lambda>_. asserting g_gated
      (expect (apply_signal pc_send Sig_Start (ts 1)) (\<lambda>_.
        asserting (\<lambda>g. g_in_flight g \<noteq> None \<and> g_queued g = 0) (last_sent is_turn_started)))) test_guest"

lemmas wrap_test_defs = guest_test_defs apply_signal_def
  test_clean_alternation_emits_one_started_then_ended_def test_duplicate_start_is_ignored_def test_stray_end_is_ignored_def
  test_observed_turn_bypasses_the_drain_gate_def

lemma classify_tests_pass:
  "test_classify_matches_markers_and_ignores_other_lines" "test_classify_honours_custom_markers"
  by code_simp+

lemma wrap_tests_pass:
  "test_clean_alternation_emits_one_started_then_ended" "test_duplicate_start_is_ignored" "test_stray_end_is_ignored"
  "test_observed_turn_bypasses_the_drain_gate"
  by (simp_all add: wrap_test_defs)

definition test_tracker_starts_quiescent :: bool where
  "test_tracker_starts_quiescent \<longleftrightarrow> tracker_in_flight tracker_new = None"

definition test_tracker_tracks_open_and_close :: bool where
  "test_tracker_tracks_open_and_close =
     stepping (tracker_apply Sig_Start) (asserting (\<lambda>t. tracker_in_flight t \<noteq> None)
      (stepping (tracker_apply Sig_End) (asserting (\<lambda>t. tracker_in_flight t = None) passed))) tracker_new"

definition test_tracker_id_advances_only_on_genuine_open :: bool where
  "test_tracker_id_advances_only_on_genuine_open =
     stepping (tracker_apply Sig_Start) (\<lambda>t. let first = tracker_in_flight t in
      stepping (tracker_apply Sig_Start) (asserting (\<lambda>t. tracker_in_flight t = first)
       (stepping (tracker_apply Sig_End) (stepping (tracker_apply Sig_Start)
         (asserting (\<lambda>t. tracker_in_flight t \<noteq> first) passed)))) t) tracker_new"

definition test_tracker_ignores_stray_close :: bool where
  "test_tracker_ignores_stray_close =
     stepping (tracker_apply Sig_End) (asserting (\<lambda>t. tracker_in_flight t = None) passed) tracker_new"

lemma tracker_tests_pass:
  "test_tracker_starts_quiescent" "test_tracker_tracks_open_and_close" "test_tracker_id_advances_only_on_genuine_open"
  "test_tracker_ignores_stray_close"
  by (simp_all add: test_tracker_starts_quiescent_def test_tracker_tracks_open_and_close_def
      test_tracker_id_advances_only_on_genuine_open_def test_tracker_ignores_stray_close_def test_steps
      tracker_new_def tracker_apply_def tracker_in_flight_def Let_def)

section \<open>The clock\<close>

definition test_forward_skew_is_corrected :: bool where
  "test_forward_skew_is_corrected \<longleftrightarrow>
     (let fixup = cf_between (ts 1000) (ts 1500) in
      cf_is_skewed fixup \<and> cf_offset_nanos fixup = 500 \<and> cf_correct fixup (ts 1200) = ts 1700)"

definition test_no_skew_is_identity :: bool where
  "test_no_skew_is_identity \<longleftrightarrow>
     (let fixup = cf_between (ts 2000) (ts 2000) in
      \<not> cf_is_skewed fixup \<and> cf_correct fixup (ts 9999) = ts 9999 \<and> cf_none = fixup)"

definition test_corrected_timestamps_are_comparable_across_the_move :: bool where
  "test_corrected_timestamps_are_comparable_across_the_move \<longleftrightarrow>
     (let before = ts 1400; fixup = cf_between (ts 1000) (ts 1500); later = cf_correct fixup (ts 1100)
      in as_nanos before < as_nanos later)"

definition test_backward_correction_saturates_at_epoch :: bool where
  "test_backward_correction_saturates_at_epoch \<longleftrightarrow> cf_correct (cf_between (ts 1000) (ts 100)) (ts 500) = ts 0"

lemma clock_tests_pass:
  "test_forward_skew_is_corrected" "test_no_skew_is_identity" "test_corrected_timestamps_are_comparable_across_the_move"
  "test_backward_correction_saturates_at_epoch"
  by (simp_all add: test_forward_skew_is_corrected_def test_no_skew_is_identity_def
      test_corrected_timestamps_are_comparable_across_the_move_def test_backward_correction_saturates_at_epoch_def
      cf_between_def cf_is_skewed_def cf_correct_def cf_none_def from_nanos_def Let_def)

section \<open>The framing\<close>

text \<open>
  The peer of the duplex pipe is what it has written before the guest reads, and the buffer that the guest
  writes to. \<open>to_string\<close> and \<open>from_str\<close> are \<open>serde_json\<close>'s, of which a test uses what it says of its own lines.
\<close>

definition test_sends_one_json_line_per_message :: "(guest_to_host \<Rightarrow> string + string) \<Rightarrow> (string \<Rightarrow> string + guest_to_host) \<Rightarrow> bool" where
  "test_sends_one_json_line_per_message to_string from_str =
     expect (lc_send to_string buf_write (Hello (VmId 0) (GuestdVersion ''0.1.0''))) (\<lambda>_ c.
       let line = fst (read_line (lc_writer c)) in
       line \<noteq> [] \<and> last line = newline
       \<and> (case from_str (trim_end line) of Inr m \<Rightarrow> is_hello m | Inl _ \<Rightarrow> False)) (lc_new [] [])"

definition test_receives_messages_written_by_the_peer :: "(string \<Rightarrow> string + host_to_guest) \<Rightarrow> string \<Rightarrow> string \<Rightarrow> bool" where
  "test_receives_messages_written_by_the_peer from_str drain ping =
     expect (lc_recv from_str) (\<lambda>first. asserting (\<lambda>_. case first of DrainRequest _ \<Rightarrow> True | _ \<Rightarrow> False)
      (expect (lc_recv from_str) (\<lambda>second. asserting (\<lambda>_. second = H_Ping) passed)))
      (lc_new (drain @ [newline] @ ping @ [newline]) ())"

definition test_closed_peer_surfaces_as_closed :: "(string \<Rightarrow> string + host_to_guest) \<Rightarrow> bool" where
  "test_closed_peer_surfaces_as_closed from_str =
     expect_err (lc_recv from_str) (\<lambda>e _. e = Ch_Closed) (lc_new [] ())"

definition test_garbage_line_is_malformed_not_a_panic :: "(string \<Rightarrow> string + host_to_guest) \<Rightarrow> bool" where
  "test_garbage_line_is_malformed_not_a_panic from_str =
     expect_err (lc_recv from_str) (\<lambda>e _. case e of Ch_Malformed _ \<Rightarrow> True | _ \<Rightarrow> False)
      (lc_new (''this is not json'' @ [newline]) ())"

text \<open>
  Of \<open>serde_json\<close>: it prints an object as text that ends in a brace and has no raw newline, it reads
  such lines back, and it refuses text that is not JSON.
\<close>

lemma framing_send_test_passes:
  assumes "to_string (Hello (VmId 0) (GuestdVersion ''0.1.0'')) = Inr (l @ [CHR ''}''])" "newline \<notin> set l"
    and "from_str (l @ [CHR ''}'']) = Inr (Hello (VmId 0) (GuestdVersion ''0.1.0''))"
  shows "test_sends_one_json_line_per_message to_string from_str"
proof -
  have line: "read_line (l @ [CHR ''}'', newline]) = (l @ [CHR ''}'', newline], [])"
    using read_line_append [of "l @ [CHR ''}'']" "[]"] assms(2) by simp
  have "trim_end (l @ [CHR ''}'', newline]) = l @ [CHR ''}'']"
    using trim_end_newline [of "l @ [CHR ''}'']"] trim_end_graph [of "CHR ''}''" l] by (simp add: ascii_graph_def)
  with assms line show ?thesis
    by (simp add: test_sends_one_json_line_per_message_def expect_def lc_send_def buf_write_def lc_new_def)
qed

lemma framing_recv_test_passes:
  assumes "drain = d @ [CHR ''}'']" "newline \<notin> set d" "utf8_str drain" "from_str drain = Inr (DrainRequest (millis 250))"
    and "ping = p @ [CHR ''}'']" "newline \<notin> set p" "utf8_str ping" "from_str ping = Inr H_Ping"
  shows "test_receives_messages_written_by_the_peer from_str drain ping"
proof -
  have first: "lc_recv from_str \<lparr> lc_reader = d @ CHR ''}'' # newline # r, lc_writer = (), lc_log = [] \<rparr>
      = (Inr (DrainRequest (millis 250)), \<lparr> lc_reader = r, lc_writer = (), lc_log = [] \<rparr>)" for r
    using lc_recv_line [where l = d and m = "DrainRequest (millis 250)" and c = "\<lparr> lc_reader = r, lc_writer = (), lc_log = [] \<rparr>" and r = r] assms
    by simp
  have second: "lc_recv from_str \<lparr> lc_reader = p @ CHR ''}'' # newline # r, lc_writer = (), lc_log = [] \<rparr>
      = (Inr H_Ping, \<lparr> lc_reader = r, lc_writer = (), lc_log = [] \<rparr>)" for r
    using lc_recv_line [where l = p and m = H_Ping and c = "\<lparr> lc_reader = r, lc_writer = (), lc_log = [] \<rparr>" and r = r] assms
    by simp
  show ?thesis
    by (simp add: test_receives_messages_written_by_the_peer_def test_steps lc_new_def assms(1,5) first second)
qed

lemma closed_peer_test_passes: "test_closed_peer_surfaces_as_closed from_str"
  by (simp add: test_closed_peer_surfaces_as_closed_def expect_err_def lc_recv_def lc_new_def utf8_str_def)

lemma lc_recv_bad_line:
  assumes "newline \<notin> set l" "utf8_str (l @ [x])" "ascii_graph x" "x \<noteq> newline" "from_str (l @ [x]) = Inl e"
  shows "lc_recv from_str (lc_new ((l @ [x]) @ [newline]) w) = (Inl (Ch_Malformed e), lc_new [] w)"
proof -
  have line: "read_line ((l @ [x]) @ [newline]) = ((l @ [x]) @ [newline], [])"
    using read_line_append [of "l @ [x]" "[]"] assms(1,4) by auto
  have "trim_end ((l @ [x]) @ [newline]) = l @ [x]"
    by (simp only: trim_end_newline trim_end_graph [OF assms(3)])
  moreover have "utf8_str ((l @ [x]) @ [newline])" by (rule utf8_str_snoc_newline [OF assms(2)])
  moreover have "(l @ [x]) @ [newline] \<noteq> []" by simp
  ultimately show ?thesis
    by (simp only: lc_recv_def lc_new_def line_channel.simps line Let_def prod.case simp_thms if_True if_False assms(5) sum.case)
qed

lemma garbage_line_test_passes:
  assumes "from_str ''this is not json'' = Inl e"
  shows "test_garbage_line_is_malformed_not_a_panic from_str"
proof -
  let ?l = "''this is not jso''" and ?x = "CHR ''n''"
  have "utf8_str (?l @ [?x])"
    unfolding utf8_str_def by (rule utf8_valid_ascii) (simp add: byte_of_char_def)
  then have "lc_recv from_str (lc_new ((?l @ [?x]) @ [newline]) ()) = (Inl (Ch_Malformed e), lc_new [] ())"
    by (intro lc_recv_bad_line) (simp_all add: ascii_graph_def assms)
  then show ?thesis by (simp add: test_garbage_line_is_malformed_not_a_panic_def expect_err_def)
qed

end
