(* ===== verification/Proto_Tests.thy ===== *)
theory Proto_Tests
  imports Test_Support Proto_Fsm Compat_Class
begin

text \<open>
  The unit tests of \<open>crates/proto\<close> that do not test \<open>serde_json\<close>: the state machine (\<open>fsm.rs\<close>) and the
  compatibility classes (\<open>compat.rs\<close>).
\<close>

section \<open>The state machine\<close>

definition fixture :: migration where
  "fixture = mig_intent (VmId 0) (HostId ''host-a'') (HostId ''host-b'')"

text \<open>A call and the assertion on the state it leads to; a call that the types forbid has no result.\<close>

definition leads_to ::
  "(migration \<Rightarrow> migration option) \<Rightarrow> migration_state \<Rightarrow> (migration \<Rightarrow> bool) \<Rightarrow> migration \<Rightarrow> bool" where
  "leads_to call st k m = (case call m of None \<Rightarrow> False | Some m' \<Rightarrow> mig_state m' = st \<and> k m')"

definition test_forward_path_reaches_cleanup :: bool where
  "test_forward_path_reaches_cleanup \<longleftrightarrow>
     (let m = fixture; vm = mig_vm m in
      mig_state m = St_Intent
    \<and> leads_to mig_drain St_Draining (leads_to mig_quiescent St_Quiescent (leads_to mig_snapshot St_Snapshotting
       (leads_to mig_transfer St_Transferring (leads_to mig_restore St_Restoring (leads_to mig_cutover St_CutOver
        (leads_to mig_cleanup St_Cleanup
          (\<lambda>m. mig_vm m = vm \<and> host_str (mig_from m) = ''host-a'' \<and> host_str (mig_to m) = ''host-b''))))))) m)"

definition test_abort_before_snapshot_returns_to_stable :: bool where
  "test_abort_before_snapshot_returns_to_stable \<longleftrightarrow>
     leads_to mig_abort St_Aborted (\<lambda>_. True) fixture
   \<and> leads_to mig_drain St_Draining (leads_to mig_abort St_Aborted (\<lambda>_. True)) fixture
   \<and> leads_to mig_drain St_Draining (leads_to mig_quiescent St_Quiescent (leads_to mig_abort St_Aborted (\<lambda>_. True))) fixture"

lemma fsm_tests_pass: "test_forward_path_reaches_cleanup" "test_abort_before_snapshot_returns_to_stable"
  by (simp_all add: test_forward_path_reaches_cleanup_def test_abort_before_snapshot_returns_to_stable_def leads_to_def
      fixture_def mig_intent_def mig_methods mig_abort_def method_at_def advance_def mig_state_def)

section \<open>Compatibility classes\<close>

definition class_of :: "string \<Rightarrow> string \<Rightarrow> u32 \<Rightarrow> string \<Rightarrow> compat_class" where
  "class_of vendor model tsc_khz kern =
     \<lparr> cc_vendor = vendor, cc_model = model, cc_tsc_khz = tsc_khz, cc_kernel = kern \<rparr>"

definition test_identical_hosts_are_compatible :: bool where
  "test_identical_hosts_are_compatible \<longleftrightarrow>
     (let a = class_of ''GenuineIntel'' ''Xeon'' 1995000 ''6.1.155'' in compatible_with a a)"

definition test_different_tsc_frequency_is_incompatible :: bool where
  "test_different_tsc_frequency_is_incompatible \<longleftrightarrow>
     (let a = class_of ''GenuineIntel'' ''Xeon'' 1995000 ''6.1.155'';
          b = class_of ''GenuineIntel'' ''Xeon'' 2100000 ''6.1.155''
      in \<not> compatible_with a b)"

definition test_tsc_within_250ppm_is_compatible :: bool where
  "test_tsc_within_250ppm_is_compatible \<longleftrightarrow>
     (let a = class_of ''GenuineIntel'' ''Xeon'' 2000000 ''6.1.155'';
          b = class_of ''GenuineIntel'' ''Xeon'' 2000400 ''6.1.155'';
          c = class_of ''GenuineIntel'' ''Xeon'' 2000800 ''6.1.155''
      in compatible_with a b \<and> \<not> compatible_with a c)"

definition test_vendor_mismatch_is_incompatible :: bool where
  "test_vendor_mismatch_is_incompatible \<longleftrightarrow>
     \<not> compatible_with (class_of ''GenuineIntel'' ''Xeon'' 2000000 ''6.1.155'') (class_of ''AuthenticAMD'' ''Xeon'' 2000000 ''6.1.155'')"

definition test_model_mismatch_is_incompatible :: bool where
  "test_model_mismatch_is_incompatible \<longleftrightarrow>
     \<not> compatible_with (class_of ''GenuineIntel'' ''Ice Lake'' 2000000 ''6.1.155'')
         (class_of ''GenuineIntel'' ''Cascade Lake'' 2000000 ''6.1.155'')"

definition test_kernel_patch_bumps_stay_in_class_but_minor_bumps_split :: bool where
  "test_kernel_patch_bumps_stay_in_class_but_minor_bumps_split \<longleftrightarrow>
     (let a = class_of ''GenuineIntel'' ''Xeon'' 2000000 ''6.1.155'';
          patch = class_of ''GenuineIntel'' ''Xeon'' 2000000 ''6.1.200'';
          minor = class_of ''GenuineIntel'' ''Xeon'' 2000000 ''6.2.0''
      in compatible_with a patch \<and> \<not> compatible_with a minor)"

definition test_label_is_compact_and_human_readable :: bool where
  "test_label_is_compact_and_human_readable \<longleftrightarrow>
     compat_label (class_of ''GenuineIntel'' ''DO-Premium-Intel'' 1995309 ''6.1.155'')
       = ''GenuineIntel/DO-Premium-Intel/1995MHz/6.1''"

lemma test_tiers:
  "kernel_tier ''6.1.155'' = ''6.1''" "kernel_tier ''6.1.200'' = ''6.1''" "kernel_tier ''6.2.0'' = ''6.2''"
  by code_simp+

lemma compat_tests_pass:
  "test_identical_hosts_are_compatible" "test_different_tsc_frequency_is_incompatible"
  "test_tsc_within_250ppm_is_compatible" "test_vendor_mismatch_is_incompatible" "test_model_mismatch_is_incompatible"
  "test_kernel_patch_bumps_stay_in_class_but_minor_bumps_split"
  by (simp_all add: test_identical_hosts_are_compatible_def test_different_tsc_frequency_is_incompatible_def
      test_tsc_within_250ppm_is_compatible_def test_vendor_mismatch_is_incompatible_def test_model_mismatch_is_incompatible_def
      test_kernel_patch_bumps_stay_in_class_but_minor_bumps_split_def class_of_def compatible_with_def
      tsc_within_tolerance_iff test_tiers Let_def)

lemma label_test_passes: "test_label_is_compact_and_human_readable"
proof -
  have "unat ((1995309 :: u32) div 1000) = 1995" by simp
  moreover have "show_nat 1995 = ''1995''" by code_simp
  ultimately show ?thesis
    by (simp add: test_label_is_compact_and_human_readable_def class_of_def compat_label_def test_tiers)
qed

end
