(* ===== verification/Rebalancer_Tests.thy ===== *)
theory Rebalancer_Tests
  imports Test_Support Rebalance_Control Migration_Driver
begin

text \<open>
  The tests of \<open>crates/rebalancer\<close>: placement, the rebalance step and the migration driver, with the
  driver's integration tests. The tests that make random VM ids take them as arguments, and are proved for
  all distinct ids. A decimal literal is the decimal itself.
\<close>

section \<open>Placement\<close>

definition klass :: "u32 \<Rightarrow> compat_class" where
  "klass tsc_khz = \<lparr> cc_vendor = ''GenuineIntel'', cc_model = ''Xeon'', cc_tsc_khz = tsc_khz, cc_kernel = ''6.1.155'' \<rparr>"

definition test_compat :: "(host_id, compat_class) btree" where
  "test_compat = bt_of_list (map (\<lambda>h. (HostId h, klass 2000000)) [''a'', ''b'', ''c''])"

definition test_picks_most_idle_vm_on_hottest_host :: "vm_id \<Rightarrow> vm_id \<Rightarrow> vm_id \<Rightarrow> bool" where
  "test_picks_most_idle_vm_on_hottest_host busy idle_vm other \<longleftrightarrow>
     (let placement = assign (HostId ''b'') other (assign (HostId ''a'') idle_vm (assign (HostId ''a'') busy placement_new));
          pressure = bt_of_list [(HostId ''a'', pressure_new (Fin (95/100))), (HostId ''b'', pressure_new (Fin (20/100)))];
          idle = bt_of_list [(busy, secs 1), (idle_vm, secs 60)]
      in pick_victim placement pressure idle (pressure_new (Fin (80/100))) test_compat
        = Some \<lparr> rb_vm = idle_vm, rb_from = HostId ''a'', rb_to = HostId ''b'' \<rparr>)"

definition test_no_move_when_nothing_is_overloaded :: "vm_id \<Rightarrow> bool" where
  "test_no_move_when_nothing_is_overloaded v \<longleftrightarrow>
     (let placement = assign (HostId ''a'') v placement_new;
          pressure = bt_of_list [(HostId ''a'', pressure_new (Fin (50/100))), (HostId ''b'', pressure_new (Fin (10/100)))]
      in pick_victim placement pressure (bt_of_list [(v, secs 30)]) (pressure_new (Fin (80/100))) test_compat = None)"

definition test_no_move_when_no_host_is_cooler :: "vm_id \<Rightarrow> bool" where
  "test_no_move_when_no_host_is_cooler v \<longleftrightarrow>
     (let placement = assign (HostId ''a'') v placement_new;
          pressure = bt_of_list [(HostId ''a'', pressure_new (Fin (95/100))), (HostId ''b'', pressure_new (Fin (95/100)))]
      in pick_victim placement pressure (bt_of_list [(v, secs 30)]) (pressure_new (Fin (80/100))) test_compat = None)"

definition test_no_move_when_hottest_host_is_empty :: bool where
  "test_no_move_when_hottest_host_is_empty \<longleftrightarrow>
     (let pressure = bt_of_list [(HostId ''a'', pressure_new (Fin (99/100))), (HostId ''b'', pressure_new (Fin (10/100)))]
      in pick_victim placement_new pressure [] (pressure_new (Fin (80/100))) test_compat = None)"

definition test_missing_idleness_counts_as_busy :: "vm_id \<Rightarrow> vm_id \<Rightarrow> bool" where
  "test_missing_idleness_counts_as_busy unknown known_idle \<longleftrightarrow>
     (let placement = assign (HostId ''a'') known_idle (assign (HostId ''a'') unknown placement_new);
          pressure = bt_of_list [(HostId ''a'', pressure_new (Fin (95/100))), (HostId ''b'', pressure_new (Fin (10/100)))]
      in case pick_victim placement pressure (bt_of_list [(known_idle, millis 1)]) (pressure_new (Fin (80/100))) test_compat of
           None \<Rightarrow> False
         | Some pick \<Rightarrow> rb_vm pick = known_idle)"

definition test_no_move_when_only_cooler_host_is_incompatible :: "vm_id \<Rightarrow> bool" where
  "test_no_move_when_only_cooler_host_is_incompatible v \<longleftrightarrow>
     (let placement = assign (HostId ''a'') v placement_new;
          pressure = bt_of_list [(HostId ''a'', pressure_new (Fin (95/100))), (HostId ''b'', pressure_new (Fin (10/100)))];
          compat = bt_of_list [(HostId ''a'', klass 1995000), (HostId ''b'', klass 2100000)]
      in pick_victim placement pressure (bt_of_list [(v, secs 30)]) (pressure_new (Fin (80/100))) compat = None)"

definition test_skips_incompatible_cooler_host_for_a_compatible_one :: "vm_id \<Rightarrow> bool" where
  "test_skips_incompatible_cooler_host_for_a_compatible_one v \<longleftrightarrow>
     (let placement = assign (HostId ''a'') v placement_new;
          pressure = bt_of_list [(HostId ''a'', pressure_new (Fin (95/100))), (HostId ''b'', pressure_new (Fin (5/100))),
            (HostId ''c'', pressure_new (Fin (40/100)))];
          compat = bt_of_list [(HostId ''a'', klass 2000000), (HostId ''b'', klass 2100000), (HostId ''c'', klass 2000000)]
      in case pick_victim placement pressure (bt_of_list [(v, secs 30)]) (pressure_new (Fin (80/100))) compat of
           None \<Rightarrow> False
         | Some pick \<Rightarrow> rb_to pick = HostId ''c'')"

definition test_pressure_clamps_and_rejects_non_finite :: bool where
  "test_pressure_clamps_and_rejects_non_finite \<longleftrightarrow>
     pressure_get (pressure_new (Fin (3/2))) = Fin 1
   \<and> pressure_get (pressure_new (Fin (- 1/2))) = Fin 0
   \<and> pressure_get (pressure_new NaN) = Fin 0
   \<and> pressure_get (pressure_new (Fin (42/100))) = Fin (42/100)"

lemmas f64_test_defs = pressure_new_def f64_clamp_def f64_less_def f64_le_def f64_num_def f64_total_cmp_def

lemmas pick_test_defs = pick_victim_def hottest_host_def coolest_compatible_host_def most_idle_vm_def vms_on_def
  hot_cmp_def cool_cmp_def pressure_of_def placement_new_def assign_def bt_of_list_def test_compat_def klass_def
  f64_test_defs compatible_with_def tsc_within_tolerance_iff less_host_id_def Let_def

lemma pick_tests_pass:
  "test_no_move_when_nothing_is_overloaded v" "test_no_move_when_no_host_is_cooler v"
  "test_no_move_when_hottest_host_is_empty" "test_no_move_when_only_cooler_host_is_incompatible v"
  "test_skips_incompatible_cooler_host_for_a_compatible_one v" "test_pressure_clamps_and_rejects_non_finite"
  by (simp_all add: test_no_move_when_nothing_is_overloaded_def test_no_move_when_no_host_is_cooler_def
      test_no_move_when_hottest_host_is_empty_def test_no_move_when_only_cooler_host_is_incompatible_def
      test_skips_incompatible_cooler_host_for_a_compatible_one_def test_pressure_clamps_and_rejects_non_finite_def
      pick_test_defs bt_get_def)

lemma pick_idle_tests_pass:
  assumes "busy \<noteq> idle_vm"
  shows "test_picks_most_idle_vm_on_hottest_host busy idle_vm other" "test_missing_idleness_counts_as_busy busy idle_vm"
  using assms
  by (simp_all add: test_picks_most_idle_vm_on_hottest_host_def test_missing_idleness_counts_as_busy_def
      pick_test_defs bt_get_def idle_cmp_def idle_of_def less_vm_id_def)

section \<open>The rebalance step\<close>

definition test_fleet :: fleet where
  "test_fleet =
     fleet_add (HostId ''b'') \<lparr> he_control_url = ''http://b:8080'', he_data_listen = ''0.0.0.0:9000'', he_data_addr = ''b:9000'' \<rparr>
      (fleet_add (HostId ''a'') \<lparr> he_control_url = ''http://a:8080'', he_data_listen = ''0.0.0.0:9000'', he_data_addr = ''a:9000'' \<rparr>
       fleet_new)"

definition test_compat_pair :: "(host_id, compat_class) btree" where
  "test_compat_pair = bt_of_list [(HostId ''a'', klass 2000000), (HostId ''b'', klass 2000000)]"

definition test_drives_recv_then_send_for_the_chosen_move :: "(vm_id \<Rightarrow> string) \<Rightarrow> vm_id \<Rightarrow> vm_id \<Rightarrow> bool" where
  "test_drives_recv_then_send_for_the_chosen_move show_vm vm other =
     (let placement = assign (HostId ''b'') other (assign (HostId ''a'') vm placement_new);
          pressure = bt_of_list [(HostId ''a'', pressure_new (Fin (95/100))), (HostId ''b'', pressure_new (Fin (10/100)))]
      in expect (rebalance_once show_vm placement pressure (bt_of_list [(vm, secs 30)]) (pressure_new (Fin (80/100)))
            test_compat_pair test_fleet pseudo_daemon_api)
          (\<lambda>mv. case mv of None \<Rightarrow> (\<lambda>_. False) | Some mv \<Rightarrow>
             asserting (\<lambda>api. rb_from mv = HostId ''a'' \<and> rb_to mv = HostId ''b''
               \<and> pd_calls api = [''recv http://b:8080 0.0.0.0:9000'', ''send http://a:8080 '' @ show_vm vm @ '' b:9000'']) passed)
          pd_new)"

definition test_does_nothing_when_no_host_is_hot :: "(vm_id \<Rightarrow> string) \<Rightarrow> vm_id \<Rightarrow> bool" where
  "test_does_nothing_when_no_host_is_hot show_vm vm =
     (let placement = assign (HostId ''a'') vm placement_new;
          pressure = bt_of_list [(HostId ''a'', pressure_new (Fin (40/100))), (HostId ''b'', pressure_new (Fin (10/100)))]
      in expect (rebalance_once show_vm placement pressure (bt_of_list [(vm, secs 30)]) (pressure_new (Fin (80/100)))
            test_compat_pair test_fleet pseudo_daemon_api)
          (\<lambda>result. asserting (\<lambda>api. result = None \<and> pd_calls api = []) passed) pd_new)"

definition test_recv_failure_aborts_before_send :: "(vm_id \<Rightarrow> string) \<Rightarrow> vm_id \<Rightarrow> vm_id \<Rightarrow> bool" where
  "test_recv_failure_aborts_before_send show_vm vm other =
     (let placement = assign (HostId ''b'') other (assign (HostId ''a'') vm placement_new);
          pressure = bt_of_list [(HostId ''a'', pressure_new (Fin (95/100))), (HostId ''b'', pressure_new (Fin (10/100)))]
      in expect_err (rebalance_once show_vm placement pressure (bt_of_list [(vm, secs 30)]) (pressure_new (Fin (80/100)))
            test_compat_pair test_fleet pseudo_daemon_api)
          (\<lambda>err. asserting (\<lambda>api. (case err of Daemon _ op _ \<Rightarrow> op = ''recv'' | _ \<Rightarrow> False)
             \<and> pd_calls api = [''recv http://b:8080 0.0.0.0:9000'']) passed)
          (pd_fail_on ''recv'' pd_new))"

lemma rebalance_tests_pass:
  "test_drives_recv_then_send_for_the_chosen_move show_vm vm other" "test_does_nothing_when_no_host_is_hot show_vm vm"
  "test_recv_failure_aborts_before_send show_vm vm other"
  by (simp_all add: test_drives_recv_then_send_for_the_chosen_move_def test_does_nothing_when_no_host_is_hot_def
      test_recv_failure_aborts_before_send_def test_steps rebalance_once_def test_fleet_def test_compat_pair_def fleet_new_def
      fleet_add_def fleet_endpoint_def pseudo_daemon_api_def pd_new_def pd_fail_on_def pd_record_def seqE_def bindE_def map_errE_def
      pick_test_defs bt_get_def)

section \<open>The migration driver\<close>

definition test_intent :: "vm_id \<Rightarrow> migration" where
  "test_intent vm = mig_intent vm (HostId ''a'') (HostId ''b'')"

definition drive_test ::
  "migration \<Rightarrow> pseudo_executor \<Rightarrow> (migration_outcome \<Rightarrow> bool) \<Rightarrow> string list \<Rightarrow> bool" where
  "drive_test mig exec ok calls =
     expect (drive mig pseudo_exec (secs 5)) (\<lambda>(outcome, _). asserting (\<lambda>e. ok outcome \<and> pe_calls e = calls) passed) exec"

definition drive_fails :: "migration \<Rightarrow> pseudo_executor \<Rightarrow> string \<Rightarrow> string list \<Rightarrow> bool" where
  "drive_fails mig exec op calls =
     expect_err (drive mig pseudo_exec (secs 5))
       (\<lambda>err. asserting (\<lambda>e. (case err of Stopped (Executor x) \<Rightarrow> ee_op x = op | Untyped \<Rightarrow> False) \<and> pe_calls e = calls) passed) exec"

definition test_quiescent_drain_completes_in_order :: "vm_id \<Rightarrow> bool" where
  "test_quiescent_drain_completes_in_order vm =
     drive_test (test_intent vm) pe_new (\<lambda>out. out = Completed)
       [''request_drain'', ''snapshot'', ''transfer'', ''restore'', ''cutover'', ''cleanup'']"

definition test_busy_drain_aborts_without_snapshotting :: "vm_id \<Rightarrow> bool" where
  "test_busy_drain_aborts_without_snapshotting vm =
     drive_test (test_intent vm) (pe_with_drain (Drain_Busy None)) (\<lambda>out. out = Aborted NotQuiescent)
       [''request_drain'', ''cancel_drain'']"

definition test_drain_request_failure_propagates :: "vm_id \<Rightarrow> bool" where
  "test_drain_request_failure_propagates vm =
     drive_fails (test_intent vm) (pe_fail_on ''request_drain'' ''vsock down'' pe_new) ''request_drain'' [''request_drain'']"

definition test_snapshot_failure_does_not_roll_back :: "vm_id \<Rightarrow> bool" where
  "test_snapshot_failure_does_not_roll_back vm =
     drive_fails (test_intent vm) (pe_fail_on ''snapshot'' ''disk full'' pe_new) ''snapshot'' [''request_drain'', ''snapshot'']"

definition test_transfer_failure_after_snapshot_propagates :: "vm_id \<Rightarrow> bool" where
  "test_transfer_failure_after_snapshot_propagates vm =
     drive_fails (test_intent vm) (pe_fail_on ''transfer'' ''connection reset'' pe_new) ''transfer''
       [''request_drain'', ''snapshot'', ''transfer'']"

definition test_cleanup_failure_propagates :: "vm_id \<Rightarrow> bool" where
  "test_cleanup_failure_propagates vm =
     drive_fails (test_intent vm) (pe_fail_on ''cleanup'' ''stale dir'' pe_new) ''cleanup''
       [''request_drain'', ''snapshot'', ''transfer'', ''restore'', ''cutover'', ''cleanup'']"

text \<open>The integration tests of \<open>tests/migration.rs\<close>.\<close>

definition test_migration :: "vm_id \<Rightarrow> migration" where
  "test_migration vm = mig_intent vm (HostId ''host-a'') (HostId ''host-b'')"

definition test_quiescent_drain_runs_the_full_migration_in_order :: "vm_id \<Rightarrow> bool" where
  "test_quiescent_drain_runs_the_full_migration_in_order vm =
     drive_test (test_migration vm) pe_new (\<lambda>out. out = Completed)
       [''request_drain'', ''snapshot'', ''transfer'', ''restore'', ''cutover'', ''cleanup'']"

definition test_busy_drain_aborts_before_snapshotting :: "vm_id \<Rightarrow> bool" where
  "test_busy_drain_aborts_before_snapshotting vm =
     drive_test (test_migration vm) (pe_with_drain (Drain_Busy (Some (TurnId 3)))) (\<lambda>out. out = Aborted NotQuiescent)
       [''request_drain'', ''cancel_drain'']"

definition test_drain_failure_propagates_and_stops_the_migration :: "vm_id \<Rightarrow> bool" where
  "test_drain_failure_propagates_and_stops_the_migration vm =
     drive_fails (test_migration vm) (pe_fail_on ''request_drain'' ''control plane unreachable'' pe_new)
       ''request_drain'' [''request_drain'']"

definition test_transfer_failure_after_snapshot_propagates_without_rollback :: "vm_id \<Rightarrow> bool" where
  "test_transfer_failure_after_snapshot_propagates_without_rollback vm =
     drive_fails (test_migration vm) (pe_fail_on ''transfer'' ''peer reset'' pe_new) ''transfer''
       [''request_drain'', ''snapshot'', ''transfer'']"

lemmas drive_test_defs = test_steps drive_test_def drive_fails_def test_intent_def test_migration_def mig_intent_def
  drive_def drive_transitions typed_def pseudo_exec_def pe_new_def pe_with_drain_def pe_fail_on_def pe_record_def
  effect_def map_errE_def bindE_def seqE_def Let_def

lemma drive_tests_pass:
  "test_quiescent_drain_completes_in_order vm" "test_busy_drain_aborts_without_snapshotting vm"
  "test_drain_request_failure_propagates vm" "test_snapshot_failure_does_not_roll_back vm"
  "test_transfer_failure_after_snapshot_propagates vm" "test_cleanup_failure_propagates vm"
  by (simp_all add: drive_test_defs test_quiescent_drain_completes_in_order_def test_busy_drain_aborts_without_snapshotting_def
      test_drain_request_failure_propagates_def test_snapshot_failure_does_not_roll_back_def
      test_transfer_failure_after_snapshot_propagates_def test_cleanup_failure_propagates_def)

lemma migration_tests_pass:
  "test_quiescent_drain_runs_the_full_migration_in_order vm" "test_busy_drain_aborts_before_snapshotting vm"
  "test_drain_failure_propagates_and_stops_the_migration vm"
  "test_transfer_failure_after_snapshot_propagates_without_rollback vm"
  by (simp_all add: drive_test_defs test_quiescent_drain_runs_the_full_migration_in_order_def
      test_busy_drain_aborts_before_snapshotting_def test_drain_failure_propagates_and_stops_the_migration_def
      test_transfer_failure_after_snapshot_propagates_without_rollback_def)

end
