(* ===== verification/Hostd_Tests.thy ===== *)
theory Hostd_Tests
  imports Test_Support Quiescence Vm_Lifecycle Vm_Net Host_Probe
begin

text \<open>
  Unit tests of \<open>crates/hostd\<close>: the quiescence layers (\<open>quiesce.rs\<close>), the drain verdict (\<open>drain.rs\<close>), the VM
  lifecycle (\<open>vm.rs\<close>), the network identity (\<open>net.rs\<close>) and memory pressure (\<open>sysmem.rs\<close>).
\<close>

section \<open>The quiescence layers\<close>

definition test_thresholds :: infra_thresholds where
  "test_thresholds = \<lparr> it_cpu_pct = Fin 5, it_samples = 3 \<rparr>"

definition test_app_layer_needs_gated_and_idle :: bool where
  "test_app_layer_needs_gated_and_idle =
     asserting (\<lambda>app. \<not> app_is_quiet app)
      (stepping (app_turn_started turn_FIRST) (stepping (app_drain_acked (Some turn_FIRST)) (asserting (\<lambda>app. \<not> app_is_quiet app)
        (stepping app_turn_ended (asserting app_is_quiet
          (stepping app_drain_cancelled (asserting (\<lambda>app. \<not> app_is_quiet app) passed))))))) app_new"

definition test_infra_layer_needs_a_full_quiet_window :: bool where
  "test_infra_layer_needs_a_full_quiet_window =
     asserting (\<lambda>infra. \<not> infra_is_quiet infra)
      (stepping (infra_record (Fin 1) True) (stepping (infra_record (Fin 2) True) (asserting (\<lambda>infra. \<not> infra_is_quiet infra)
        (stepping (infra_record (Fin 3) True) (asserting infra_is_quiet passed))))) (infra_new test_thresholds)"

definition test_infra_layer_spike_resets_the_evidence :: bool where
  "test_infra_layer_spike_resets_the_evidence =
     stepping (infra_record (Fin 1) True ^^ 3) (asserting infra_is_quiet
      (stepping (infra_record (Fin 80) True) (asserting (\<lambda>infra. \<not> infra_is_quiet infra)
       (stepping (infra_record (Fin 1) True) (stepping (infra_record (Fin 1) True) (asserting (\<lambda>infra. \<not> infra_is_quiet infra)
        (stepping (infra_record (Fin 1) True) (asserting infra_is_quiet passed)))))))) (infra_new test_thresholds)"

definition test_infra_layer_busy_queues_block_quiescence :: bool where
  "test_infra_layer_busy_queues_block_quiescence =
     stepping (infra_record (Fin 1) True) (stepping (infra_record (Fin 1) True) (stepping (infra_record (Fin 1) False)
      (asserting (\<lambda>infra. \<not> infra_is_quiet infra) passed))) (infra_new test_thresholds)"

definition test_detector_is_quiescent_only_when_all_three_agree :: bool where
  "test_detector_is_quiescent_only_when_all_three_agree =
     asserting (\<lambda>d. \<not> detector_is_quiescent d)
      (stepping (\<lambda>d. d \<lparr> qd_app := app_drain_acked None (qd_app d) \<rparr>)
       (asserting (\<lambda>d. detector_report d = \<lparr> qr_app = True, qr_infra = False, qr_storage = False \<rparr>)
       (asserting (\<lambda>d. \<not> detector_is_quiescent d)
       (stepping ((\<lambda>d. d \<lparr> qd_infra := infra_record (Fin 1) True (qd_infra d) \<rparr>) ^^ 3)
       (asserting (\<lambda>d. \<not> detector_is_quiescent d)
       (stepping (\<lambda>d. d \<lparr> qd_storage := set_caught_up True (qd_storage d) \<rparr>)
       (asserting (\<lambda>d. detector_is_quiescent d \<and> report_is_quiescent (detector_report d))
       (stepping (\<lambda>d. d \<lparr> qd_app := app_drain_cancelled (qd_app d) \<rparr>)
       (asserting (\<lambda>d. \<not> detector_is_quiescent d) passed))))))))) (detector_new test_thresholds)"

lemmas layer_test_defs = test_steps test_thresholds_def app_new_def app_turn_started_def app_turn_ended_def app_drain_acked_def
  app_drain_cancelled_def app_is_quiet_def infra_new_def infra_record_def infra_is_quiet_def storage_new_def set_caught_up_def
  storage_is_quiet_def detector_new_def detector_report_def detector_is_quiescent_def report_is_quiescent_def
  f64_less_def f64_le_def f64_num_def eval_nat_numeral Let_def

lemma quiesce_tests_pass:
  "test_app_layer_needs_gated_and_idle" "test_infra_layer_needs_a_full_quiet_window"
  "test_infra_layer_spike_resets_the_evidence" "test_infra_layer_busy_queues_block_quiescence"
  "test_detector_is_quiescent_only_when_all_three_agree"
  by (simp_all add: layer_test_defs test_app_layer_needs_gated_and_idle_def test_infra_layer_needs_a_full_quiet_window_def
      test_infra_layer_spike_resets_the_evidence_def test_infra_layer_busy_queues_block_quiescence_def
      test_detector_is_quiescent_only_when_all_three_agree_def)

section \<open>The drain verdict\<close>

abbreviation quiet_sample :: "drain_coordinator \<Rightarrow> drain_coordinator" where
  "quiet_sample \<equiv> observe_infra (Fin 1) True"

definition test_starts_busy_with_no_evidence :: bool where
  "test_starts_busy_with_no_evidence \<longleftrightarrow> verdict (coordinator_new test_thresholds) = Busy None"

definition test_flips_to_quiescent_only_when_all_three_agree :: bool where
  "test_flips_to_quiescent_only_when_all_three_agree =
     stepping (observe_guest (DrainAck (Some (TurnId 7)))) (stepping (quiet_sample ^^ 3) (stepping (observe_storage True)
      (asserting (\<lambda>c. verdict c = Busy (Some (TurnId 7)))
       (stepping (observe_guest (TurnEnded (TurnId 7) (Timestamp 1)))
        (asserting (\<lambda>c. verdict c = Quiescent \<and> report_is_quiescent (coordinator_report c)) passed)))))
      (coordinator_new test_thresholds)"

definition test_infra_holdout_is_busy_without_a_turn :: bool where
  "test_infra_holdout_is_busy_without_a_turn =
     stepping (observe_guest (DrainAck None)) (stepping (observe_storage True) (stepping quiet_sample (stepping quiet_sample
      (asserting (\<lambda>c. verdict c = Busy None) passed)))) (coordinator_new test_thresholds)"

definition test_turn_started_then_acked_is_the_holdout :: bool where
  "test_turn_started_then_acked_is_the_holdout =
     stepping (observe_guest (TurnStarted (TurnId 3) (Timestamp 1))) (stepping (observe_guest (DrainAck (Some (TurnId 3))))
      (stepping (quiet_sample ^^ 3) (stepping (observe_storage True)
       (asserting (\<lambda>c. verdict c = Busy (Some (TurnId 3))) passed)))) (coordinator_new test_thresholds)"

definition test_liveness_and_handshake_are_ignored :: bool where
  "test_liveness_and_handshake_are_ignored =
     stepping (observe_guest (DrainAck None)) (stepping (quiet_sample ^^ 3) (stepping (observe_storage True)
      (asserting (\<lambda>c. verdict c = Quiescent)
       (stepping (observe_guest G_Ping) (stepping (observe_guest (Resumed (Timestamp 2)))
        (asserting (\<lambda>c. verdict c = Quiescent) passed)))))) (coordinator_new test_thresholds)"

lemma drain_tests_pass:
  "test_starts_busy_with_no_evidence" "test_flips_to_quiescent_only_when_all_three_agree"
  "test_infra_holdout_is_busy_without_a_turn" "test_turn_started_then_acked_is_the_holdout"
  "test_liveness_and_handshake_are_ignored"
  by (simp_all add: layer_test_defs test_starts_busy_with_no_evidence_def test_flips_to_quiescent_only_when_all_three_agree_def
      test_infra_holdout_is_busy_without_a_turn_def test_turn_started_then_acked_is_the_holdout_def
      test_liveness_and_handshake_are_ignored_def coordinator_new_def observe_guest_def observe_infra_def observe_storage_def
      coordinator_report_def verdict_def)

section \<open>The VM lifecycle\<close>

definition test_vm :: "pseudo_firecracker vm" where
  "test_vm = vm_new (VmId 0) pf_new"

abbreviation in_state :: "run_state \<Rightarrow> (pseudo_firecracker vm \<Rightarrow> bool) \<Rightarrow> pseudo_firecracker vm \<Rightarrow> bool" where
  "in_state st \<equiv> asserting (\<lambda>vm. vm_state vm = st)"

definition test_full_lifecycle_issues_ops_in_order :: bool where
  "test_full_lifecycle_issues_ops_in_order =
     in_state Created
      (expect (vm_boot pseudo_fc_api) (\<lambda>_. in_state Running
      (expect (vm_pause pseudo_fc_api) (\<lambda>_. in_state Paused
      (expect (vm_resume pseudo_fc_api) (\<lambda>_. in_state Running
      (expect (vm_shutdown pseudo_fc_api) (\<lambda>_. in_state Stopped
       (asserting (\<lambda>vm. pf_calls (vm_fc vm) = [''boot'', ''pause'', ''resume'', ''shutdown'']) passed))))))))) test_vm"

definition test_pause_before_boot_is_rejected_without_calling_fc :: bool where
  "test_pause_before_boot_is_rejected_without_calling_fc =
     expect_err (vm_pause pseudo_fc_api) (\<lambda>e. asserting (\<lambda>vm. e = IllegalTransition Created ''pause'' \<and> pf_calls (vm_fc vm) = [])
      (in_state Created passed)) test_vm"

fun illegal_from :: "run_state \<Rightarrow> lifecycle_error \<Rightarrow> bool" where
  "illegal_from st (IllegalTransition s _) = (s = st)"
| "illegal_from st (Lc_Firecracker _) = False"

definition test_resume_while_running_is_rejected :: bool where
  "test_resume_while_running_is_rejected =
     expect (vm_boot pseudo_fc_api) (\<lambda>_. expect_err (vm_resume pseudo_fc_api) (\<lambda>e.
      asserting (\<lambda>_. illegal_from Running e) (in_state Running passed))) test_vm"

definition test_double_shutdown_is_rejected :: bool where
  "test_double_shutdown_is_rejected =
     expect (vm_boot pseudo_fc_api) (\<lambda>_. expect (vm_shutdown pseudo_fc_api) (\<lambda>_.
      expect_err (vm_shutdown pseudo_fc_api) (\<lambda>e _. illegal_from Stopped e))) test_vm"

definition test_firecracker_failure_leaves_state_unchanged :: bool where
  "test_firecracker_failure_leaves_state_unchanged =
     stepping (\<lambda>vm. vm \<lparr> vm_fc := reject_next ''boot'' (vm_fc vm) \<rparr>)
      (expect_err (vm_boot pseudo_fc_api) (\<lambda>e.
        asserting (\<lambda>_. case e of Lc_Firecracker (Rejected op _) \<Rightarrow> op = ''boot'' | _ \<Rightarrow> False) (in_state Created
         (expect (vm_boot pseudo_fc_api) (\<lambda>_. in_state Running passed))))) test_vm"

definition test_unreachable_firecracker_surfaces_as_fc_error :: bool where
  "test_unreachable_firecracker_surfaces_as_fc_error =
     expect (vm_boot pseudo_fc_api) (\<lambda>_. stepping (\<lambda>vm. vm \<lparr> vm_fc := unreachable_next ''pause'' (vm_fc vm) \<rparr>)
      (expect_err (vm_pause pseudo_fc_api) (\<lambda>e.
        asserting (\<lambda>_. case e of Lc_Firecracker (Unreachable op _) \<Rightarrow> op = ''pause'' | _ \<Rightarrow> False) (in_state Running passed)))) test_vm"

lemma lifecycle_tests_pass:
  "test_full_lifecycle_issues_ops_in_order" "test_pause_before_boot_is_rejected_without_calling_fc"
  "test_resume_while_running_is_rejected" "test_double_shutdown_is_rejected"
  "test_firecracker_failure_leaves_state_unchanged" "test_unreachable_firecracker_surfaces_as_fc_error"
  by (simp_all add: test_full_lifecycle_issues_ops_in_order_def test_pause_before_boot_is_rejected_without_calling_fc_def
      test_resume_while_running_is_rejected_def test_double_shutdown_is_rejected_def
      test_firecracker_failure_leaves_state_unchanged_def test_unreachable_firecracker_surfaces_as_fc_error_def
      test_steps test_vm_def vm_new_def vm_boot_def vm_pause_def vm_resume_def vm_shutdown_def require_def fc_call_def
      set_state_def pf_new_def pseudo_fc_api_def pf_record_def reject_next_def unreachable_next_def pf_set_fail_def
      seqE_def bindE_def Let_def)

section \<open>The network identity and memory pressure\<close>

definition test_parses_mac_and_ip :: bool where
  "test_parses_mac_and_ip \<longleftrightarrow>
     parse_mac ''02:00:00:00:00:02'' = Inr [2, 0, 0, 0, 0, 2] \<and> parse_ipv4 ''10.200.0.2'' = Inr [10, 200, 0, 2]"

definition test_rejects_malformed :: bool where
  "test_rejects_malformed \<longleftrightarrow>
     isl (parse_mac ''02:00:00'') \<and> isl (parse_mac ''zz:00:00:00:00:00'')
   \<and> isl (parse_ipv4 ''10.200.0'') \<and> isl (parse_ipv4 ''10.200.0.999'')"

lemma net_tests_pass: "test_parses_mac_and_ip" "test_rejects_malformed"
  by code_simp+

end
