(* ===== verification/Fc_Tests.thy ===== *)
theory Fc_Tests
  imports Test_Support Fc_Api
begin

text \<open>
  The unit tests of the Firecracker client, \<open>crates/hostd/src/firecracker.rs\<close>. The stub server records the
  request it serves and gives a fixed reply. The JSON printer and parser are \<open>serde_json\<close>'s, so the tests
  take them as arguments; a body is compared as text, or parsed and its fields compared, as each test does.
\<close>

section \<open>The stub\<close>

record json_lib =
  jl_to_vec :: "json \<Rightarrow> string + string"
  jl_from_slice :: "string \<Rightarrow> json option"

definition fc_stub :: "json_lib \<Rightarrow> http_response \<Rightarrow> http_request list firecracker" where
  "fc_stub jl response = \<lparr> fx_exchange = (\<lambda>rq captured. (Inr response, captured @ [rq])),
     fx_to_vec = jl_to_vec jl, fx_from_slice = jl_from_slice jl, fx_lossy = id \<rparr>"

definition OK_204 :: http_response where
  "OK_204 = \<lparr> rs_status = 204, rs_body = Inr [] \<rparr>"

text \<open>The text of a flat object, its values given as text.\<close>

fun comma_sep :: "string list \<Rightarrow> string" where
  "comma_sep [] = []"
| "comma_sep [x] = x"
| "comma_sep (x # xs) = x @ '','' @ comma_sep xs"

definition object_text :: "(string \<times> string) list \<Rightarrow> string" where
  "object_text kvs = ''{'' @ comma_sep (map (\<lambda>(k, v). quoted k @ '':'' @ v) kvs) @ ''}''"

definition sends :: "http_method \<Rightarrow> string \<Rightarrow> string \<Rightarrow> (http_request list, unit) fc_eff \<Rightarrow> bool" where
  "sends method path body call =
     expect call (\<lambda>_. asserting (\<lambda>c. c = [\<lparr> rq_method = method, rq_path = path, rq_body = body \<rparr>]) passed) []"

section \<open>Requests\<close>

definition test_configure_machine_sends_machine_config :: "json_lib \<Rightarrow> bool" where
  "test_configure_machine_sends_machine_config jl =
     sends PUT ''/machine-config'' (object_text [(''mem_size_mib'', ''512''), (''vcpu_count'', ''2'')])
       (fc_configure_machine (fc_stub jl OK_204) \<lparr> mc_vcpu_count = 2, mc_mem_size_mib = 512 \<rparr>)"

definition test_configure_boot_source_sends_kernel_and_args :: "json_lib \<Rightarrow> bool" where
  "test_configure_boot_source_sends_kernel_and_args jl =
     sends PUT ''/boot-source''
       (object_text [(''boot_args'', quoted ''console=ttyS0 root=/dev/vda ro''), (''kernel_image_path'', quoted ''/k/vmlinux'')])
       (fc_configure_boot_source (fc_stub jl OK_204)
         \<lparr> bs_kernel_image = ''/k/vmlinux'', bs_boot_args = ''console=ttyS0 root=/dev/vda ro'' \<rparr>)"

definition test_configure_drive_targets_the_drive_id_path :: "json_lib \<Rightarrow> bool" where
  "test_configure_drive_targets_the_drive_id_path jl =
     sends PUT ''/drives/rootfs''
       (object_text [(''drive_id'', quoted ''rootfs''), (''is_read_only'', ''true''), (''is_root_device'', ''true''),
          (''path_on_host'', quoted ''/img/root.ext4'')])
       (fc_configure_drive (fc_stub jl OK_204)
         \<lparr> dr_drive_id = ''rootfs'', dr_path_on_host = ''/img/root.ext4'', dr_is_root_device = True, dr_is_read_only = True \<rparr>)"

definition test_configure_network_targets_the_iface_path_and_mac :: "json_lib \<Rightarrow> bool" where
  "test_configure_network_targets_the_iface_path_and_mac jl =
     sends PUT ''/network-interfaces/eth0''
       (object_text [(''guest_mac'', quoted ''02:00:00:00:00:02''), (''host_dev_name'', quoted ''tap-vm0''), (''iface_id'', quoted ''eth0'')])
       (fc_configure_network (fc_stub jl OK_204)
         \<lparr> nc_iface_id = ''eth0'', nc_host_dev_name = ''tap-vm0'', nc_guest_mac = ''02:00:00:00:00:02'' \<rparr>)"

definition test_boot_sends_instance_start_and_succeeds_on_204 :: "json_lib \<Rightarrow> bool" where
  "test_boot_sends_instance_start_and_succeeds_on_204 jl =
     sends PUT ''/actions'' (object_text [(''action_type'', quoted ''InstanceStart'')]) (fc_boot (fc_stub jl OK_204))"

definition test_pause_sends_patch_vm_paused :: "json_lib \<Rightarrow> bool" where
  "test_pause_sends_patch_vm_paused jl = sends PATCH ''/vm'' (object_text [(''state'', quoted ''Paused'')]) (fc_pause (fc_stub jl OK_204))"

definition test_resume_sends_patch_vm_resumed :: "json_lib \<Rightarrow> bool" where
  "test_resume_sends_patch_vm_resumed jl =
     expect (fc_resume (fc_stub jl OK_204)) (\<lambda>_. asserting (\<lambda>c. map rq_body c = [object_text [(''state'', quoted ''Resumed'')]]) passed) []"

definition test_shutdown_sends_send_ctrl_alt_del :: "json_lib \<Rightarrow> bool" where
  "test_shutdown_sends_send_ctrl_alt_del jl =
     expect (fc_shutdown (fc_stub jl OK_204)) (\<lambda>_. asserting (\<lambda>c. map rq_path c = [''/actions'']
       \<and> map rq_body c = [object_text [(''action_type'', quoted ''SendCtrlAltDel'')]]) passed) []"

definition fault_body :: string where
  "fault_body = object_text [(''fault_message'', quoted ''cannot start: already running'')]"

definition test_fault_response_becomes_rejected_with_message :: "json_lib \<Rightarrow> bool" where
  "test_fault_response_becomes_rejected_with_message jl =
     expect_err (fc_boot (fc_stub jl \<lparr> rs_status = 400, rs_body = Inr fault_body \<rparr>))
       (\<lambda>err _. err = Rejected ''boot'' ''cannot start: already running'') []"

definition test_missing_socket_is_unreachable :: "json_lib \<Rightarrow> string \<Rightarrow> bool" where
  "test_missing_socket_is_unreachable jl no_such_file =
     expect_err (fc_boot ((fc_stub jl OK_204) \<lparr> fx_exchange := (\<lambda>_ k. (Inl no_such_file, k)) \<rparr>))
       (\<lambda>err _. case err of Unreachable op _ \<Rightarrow> op = ''boot'' | _ \<Rightarrow> False) []"

text \<open>The tests that parse the body and look at its fields.\<close>

definition body_json :: "json_lib \<Rightarrow> http_request list \<Rightarrow> (json \<Rightarrow> bool) \<Rightarrow> bool" where
  "body_json jl c p = (case c of [rq] \<Rightarrow> (case jl_from_slice jl (rq_body rq) of Some v \<Rightarrow> p v | None \<Rightarrow> False) | _ \<Rightarrow> False)"

definition field_is :: "json \<Rightarrow> string \<Rightarrow> json \<Rightarrow> bool" where
  "field_is v name x \<longleftrightarrow> json_field v name = Some x"

definition test_create_snapshot_sends_paths_and_full_type :: "json_lib \<Rightarrow> bool" where
  "test_create_snapshot_sends_paths_and_full_type jl =
     expect (fc_create_snapshot (fc_stub jl OK_204) \<lparr> st_mem_file = ''/snap/mem'', st_state_file = ''/snap/state'' \<rparr>)
       (\<lambda>_ c. map rq_method c = [PUT] \<and> map rq_path c = [''/snapshot/create'']
          \<and> body_json jl c (\<lambda>body. field_is body ''mem_file_path'' (J_str ''/snap/mem'')
              \<and> field_is body ''snapshot_path'' (J_str ''/snap/state'') \<and> field_is body ''snapshot_type'' (J_str ''Full''))) []"

definition test_load_snapshot_with_uffd_backend_requests_lazy_restore :: "json_lib \<Rightarrow> bool" where
  "test_load_snapshot_with_uffd_backend_requests_lazy_restore jl =
     expect (fc_load_snapshot (fc_stub jl OK_204)
         \<lparr> ss_state_file = ''/snap/state'', ss_backend = Backend_Uffd ''/run/uffd.sock'', ss_resume = True \<rparr>)
       (\<lambda>_ c. map rq_path c = [''/snapshot/load'']
          \<and> body_json jl c (\<lambda>body. field_is body ''snapshot_path'' (J_str ''/snap/state'')
              \<and> (case json_field body ''mem_backend'' of Some b \<Rightarrow>
                     field_is b ''backend_type'' (J_str ''Uffd'') \<and> field_is b ''backend_path'' (J_str ''/run/uffd.sock'')
                   | None \<Rightarrow> False)
              \<and> field_is body ''resume_vm'' (J_bool True))) []"

definition test_load_snapshot_with_file_backend_uses_mem_file :: "json_lib \<Rightarrow> bool" where
  "test_load_snapshot_with_file_backend_uses_mem_file jl =
     expect (fc_load_snapshot (fc_stub jl OK_204)
         \<lparr> ss_state_file = ''/snap/state'', ss_backend = Backend_File ''/snap/mem'', ss_resume = False \<rparr>)
       (\<lambda>_ c. body_json jl c (\<lambda>body.
              (case json_field body ''mem_backend'' of Some b \<Rightarrow>
                     field_is b ''backend_type'' (J_str ''File'') \<and> field_is b ''backend_path'' (J_str ''/snap/mem'')
                   | None \<Rightarrow> False)
              \<and> field_is body ''resume_vm'' (J_bool False))) []"

section \<open>The client passes them\<close>

lemmas fc_test_defs = test_steps sends_def fc_stub_def OK_204_def fc_send_def send_json_def json_body_def

lemma action_tests_pass:
  "test_boot_sends_instance_start_and_succeeds_on_204 jl" "test_pause_sends_patch_vm_paused jl"
  "test_resume_sends_patch_vm_resumed jl" "test_shutdown_sends_send_ctrl_alt_del jl" "test_missing_socket_is_unreachable jl e"
  by (simp_all add: fc_test_defs object_text_def one_field_def fc_boot_def fc_pause_def fc_resume_def fc_shutdown_def
      test_boot_sends_instance_start_and_succeeds_on_204_def test_pause_sends_patch_vm_paused_def
      test_resume_sends_patch_vm_resumed_def test_shutdown_sends_send_ctrl_alt_del_def test_missing_socket_is_unreachable_def)

text \<open>
  Of the JSON library: how it prints the four objects that the tests compare as text (keys in order), how it
  reads the fault, and that it reads back what it has printed.
\<close>

definition snapshot_bodies :: "json list" where
  "snapshot_bodies =
     [J_obj [(''mem_file_path'', J_str ''/snap/mem''), (''snapshot_path'', J_str ''/snap/state''), (''snapshot_type'', J_str ''Full'')],
      J_obj [(''mem_backend'', J_obj [(''backend_path'', J_str ''/run/uffd.sock''), (''backend_type'', J_str ''Uffd'')]),
        (''resume_vm'', J_bool True), (''snapshot_path'', J_str ''/snap/state'')],
      J_obj [(''mem_backend'', J_obj [(''backend_path'', J_str ''/snap/mem''), (''backend_type'', J_str ''File'')]),
        (''resume_vm'', J_bool False), (''snapshot_path'', J_str ''/snap/state'')]]"

definition json_lib_ok :: "json_lib \<Rightarrow> bool" where
  "json_lib_ok jl \<longleftrightarrow>
     jl_to_vec jl (J_obj [(''mem_size_mib'', J_num 512), (''vcpu_count'', J_num 2)])
       = Inr (object_text [(''mem_size_mib'', ''512''), (''vcpu_count'', ''2'')])
   \<and> jl_to_vec jl (J_obj [(''boot_args'', J_str ''console=ttyS0 root=/dev/vda ro''), (''kernel_image_path'', J_str ''/k/vmlinux'')])
       = Inr (object_text [(''boot_args'', quoted ''console=ttyS0 root=/dev/vda ro''), (''kernel_image_path'', quoted ''/k/vmlinux'')])
   \<and> jl_to_vec jl (J_obj [(''drive_id'', J_str ''rootfs''), (''is_read_only'', J_bool True), (''is_root_device'', J_bool True),
         (''path_on_host'', J_str ''/img/root.ext4'')])
       = Inr (object_text [(''drive_id'', quoted ''rootfs''), (''is_read_only'', ''true''), (''is_root_device'', ''true''),
         (''path_on_host'', quoted ''/img/root.ext4'')])
   \<and> jl_to_vec jl (J_obj [(''guest_mac'', J_str ''02:00:00:00:00:02''), (''host_dev_name'', J_str ''tap-vm0''), (''iface_id'', J_str ''eth0'')])
       = Inr (object_text [(''guest_mac'', quoted ''02:00:00:00:00:02''), (''host_dev_name'', quoted ''tap-vm0''), (''iface_id'', quoted ''eth0'')])
   \<and> jl_from_slice jl fault_body = Some (J_obj [(''fault_message'', J_str ''cannot start: already running'')])
   \<and> (\<forall>v \<in> set snapshot_bodies. \<exists>s. jl_to_vec jl v = Inr s \<and> jl_from_slice jl s = Some v)"

lemma configure_tests_pass:
  assumes "json_lib_ok jl"
  shows "test_configure_machine_sends_machine_config jl" "test_configure_boot_source_sends_kernel_and_args jl"
    "test_configure_drive_targets_the_drive_id_path jl" "test_configure_network_targets_the_iface_path_and_mac jl"
  using assms
  by (simp_all add: fc_test_defs json_lib_ok_def json_object_def bt_of_list_def fc_configure_machine_def fc_configure_boot_source_def
      fc_configure_drive_def fc_configure_network_def test_configure_machine_sends_machine_config_def
      test_configure_boot_source_sends_kernel_and_args_def test_configure_drive_targets_the_drive_id_path_def
      test_configure_network_targets_the_iface_path_and_mac_def)

lemma fault_test_passes: "json_lib_ok jl \<Longrightarrow> test_fault_response_becomes_rejected_with_message jl"
  by (simp add: fc_test_defs json_lib_ok_def fc_boot_def test_fault_response_becomes_rejected_with_message_def
      fault_message_def json_field_def as_str_def)

lemma snapshot_tests_pass:
  assumes "json_lib_ok jl"
  shows "test_create_snapshot_sends_paths_and_full_type jl" "test_load_snapshot_with_uffd_backend_requests_lazy_restore jl"
    "test_load_snapshot_with_file_backend_uses_mem_file jl"
  using assms
  by (auto simp: fc_test_defs json_lib_ok_def snapshot_bodies_def json_object_def bt_of_list_def fc_create_snapshot_def
      fc_load_snapshot_def body_json_def field_is_def json_field_def test_create_snapshot_sends_paths_and_full_type_def
      test_load_snapshot_with_uffd_backend_requests_lazy_restore_def test_load_snapshot_with_file_backend_uses_mem_file_def)

text \<open>A library that does what is assumed exists: it prints the four objects, and numbers the other bodies.\<close>

definition table_lib :: json_lib where
  "table_lib = (let
     texts = [(J_obj [(''mem_size_mib'', J_num 512), (''vcpu_count'', J_num 2)],
         object_text [(''mem_size_mib'', ''512''), (''vcpu_count'', ''2'')]),
       (J_obj [(''boot_args'', J_str ''console=ttyS0 root=/dev/vda ro''), (''kernel_image_path'', J_str ''/k/vmlinux'')],
         object_text [(''boot_args'', quoted ''console=ttyS0 root=/dev/vda ro''), (''kernel_image_path'', quoted ''/k/vmlinux'')]),
       (J_obj [(''drive_id'', J_str ''rootfs''), (''is_read_only'', J_bool True), (''is_root_device'', J_bool True),
           (''path_on_host'', J_str ''/img/root.ext4'')],
         object_text [(''drive_id'', quoted ''rootfs''), (''is_read_only'', ''true''), (''is_root_device'', ''true''),
           (''path_on_host'', quoted ''/img/root.ext4'')]),
       (J_obj [(''guest_mac'', J_str ''02:00:00:00:00:02''), (''host_dev_name'', J_str ''tap-vm0''), (''iface_id'', J_str ''eth0'')],
         object_text [(''guest_mac'', quoted ''02:00:00:00:00:02''), (''host_dev_name'', quoted ''tap-vm0''), (''iface_id'', quoted ''eth0'')]),
       (J_obj [(''fault_message'', J_str ''cannot start: already running'')], fault_body)]
       @ zip snapshot_bodies [''1'', ''2'', ''3'']
     in \<lparr> jl_to_vec = (\<lambda>v. case map_of texts v of Some s \<Rightarrow> Inr s | None \<Rightarrow> Inl ''not in the table''),
          jl_from_slice = map_of (map prod.swap texts) \<rparr>)"

lemma table_lib_ok: "json_lib_ok table_lib"
  by (simp add: json_lib_ok_def table_lib_def snapshot_bodies_def object_text_def quoted_def fault_body_def)

end
