(* ===== verification/Snapshot_Tests.thy ===== *)
theory Snapshot_Tests
  imports Test_Support Transfer_Facts Uffd_Server Host_State Host_Probe
begin

text \<open>
  Unit tests of \<open>crates/hostd\<close> around snapshots: the transfer (\<open>transfer.rs\<close>), the region arithmetic of the
  page server (\<open>uffd.rs\<close>), the state directory (\<open>statedir.rs\<close>) and memory pressure (\<open>sysmem.rs\<close>). The
  source files are a function of their paths, the temporary directories fresh names.
\<close>

section \<open>The transfer\<close>

definition source_files :: "(string \<times> byte list) list \<Rightarrow> source_fs" where
  "source_files files p = (case map_of files p of
       None \<Rightarrow> Inl ''not found''
     | Some data \<Rightarrow> Inr (Inr (of_nat (length data)), data))"

definition outbound :: "string \<Rightarrow> string \<Rightarrow> outbound_file" where
  "outbound name p = \<lparr> of_name = name, of_path = p \<rparr>"

definition test_round_trips_files_byte_for_byte ::
  "'h hasher \<Rightarrow> read_oracle \<Rightarrow> target_fs \<Rightarrow> string \<Rightarrow> bool" where
  "test_round_trips_files_byte_for_byte h rd tfs dest =
     (let mem = replicate 200000 0xAB; state = bytes_of_string ''vmstate-blob'';
          open_file = source_files [(''src/mem'', mem), (''src/state'', state)]
      in expect (send_files h rd open_file buf_sink [outbound ''mem'' ''src/mem'', outbound ''state'' ''src/state'']) (\<lambda>_ buf.
           expect (recv_files h dest) (\<lambda>written s.
             length written = 2
             \<and> tf_files (rx_fs s) (path_join dest ''mem'') = Some mem
             \<and> tf_files (rx_fs s) (path_join dest ''state'') = Some state) (rx buf ''eof'' tfs)) [])"

definition test_corruption_in_transit_is_caught_by_the_checksum ::
  "'h hasher \<Rightarrow> read_oracle \<Rightarrow> target_fs \<Rightarrow> string \<Rightarrow> bool" where
  "test_corruption_in_transit_is_caught_by_the_checksum h rd tfs dest =
     (let open_file = source_files [(''src/f'', bytes_of_string ''abcdefghij'')]
      in expect (send_files h rd open_file buf_sink [outbound ''f'' ''src/f'']) (\<lambda>_ buf.
           let buf = buf [11 + 4 := not (buf ! (11 + 4))] in
           expect_err (recv_files h dest) (\<lambda>err _. case err of Tr_Checksum _ _ _ \<Rightarrow> True | _ \<Rightarrow> False) (rx buf ''eof'' tfs)) [])"

definition test_a_name_that_escapes_the_dir_is_rejected :: "'h hasher \<Rightarrow> target_fs \<Rightarrow> string \<Rightarrow> bool" where
  "test_a_name_that_escapes_the_dir_is_rejected h tfs dest =
     (let name = bytes_of_string ''../evil'';
          buf = be_bytes 2 (length name) @ name @ be_bytes 8 0 @ be_bytes 4 0 @ be_bytes 2 0
      in expect_err (recv_files h dest) (\<lambda>err _. case err of Tr_Protocol _ \<Rightarrow> True | _ \<Rightarrow> False) (rx buf ''eof'' tfs))"

definition test_empty_transfer_writes_nothing :: "'h hasher \<Rightarrow> read_oracle \<Rightarrow> target_fs \<Rightarrow> string \<Rightarrow> bool" where
  "test_empty_transfer_writes_nothing h rd tfs dest =
     expect (send_files h rd (source_files []) buf_sink []) (\<lambda>_ buf.
       expect (recv_files h dest) (\<lambda>written _. written = []) (rx buf ''eof'' tfs)) []"

lemma test_names: "good_file (''mem'', data) \<longleftrightarrow> length data < 2 ^ 64" "good_file (''state'', data) \<longleftrightarrow> length data < 2 ^ 64"
  "good_file (''f'', data) \<longleftrightarrow> length data < 2 ^ 64"
  by (auto simp: good_file_def unsafe_name_def starts_with_def utf8_str_def byte_of_char_def utf8_width_def)

lemma round_trip_test_passes:
  assumes "streaming h" "reads_ok rd" "fs_ok tfs"
  shows "test_round_trips_files_byte_for_byte h rd tfs dest"
proof -
  let ?mem = "replicate 200000 0xAB :: byte list" and ?state = "bytes_of_string ''vmstate-blob''"
  let ?open = "source_files [(''src/mem'', ?mem), (''src/state'', ?state)]"
  let ?fs = "[outbound ''mem'' ''src/mem'', outbound ''state'' ''src/state'']"
  have "list_all2 (sendable ?open) ?fs [?mem, ?state]"
    by (auto simp: sendable_def outbound_def source_files_def)
  note send = send_files_spec [OF assms(1,2) this, of "[]"]
  have "\<forall>f \<in> set (zip (map of_name ?fs) [?mem, ?state]). good_file f" by (simp add: outbound_def test_names)
  note recv = recv_files_complete [OF assms(1,3) this, of dest "[]" "''eof''"]
  have "path_join dest ''state'' \<noteq> path_join dest ''mem''" by (simp add: path_join_def)
  with send recv show ?thesis
    by (simp add: test_round_trips_files_byte_for_byte_def expect_def outbound_def wrote_def rx_def del: replicate.simps)
qed

text \<open>What is used of the CRC here: it tells the flipped byte.\<close>

lemma corruption_test_passes:
  assumes "streaming h" "reads_ok rd" "fs_ok tfs"
    and "checksum h (bytes_of_string ''abcd'' @ [not (byte_of_char (CHR ''e''))] @ bytes_of_string ''fghij'')
      \<noteq> checksum h (bytes_of_string ''abcdefghij'')"
  shows "test_corruption_in_transit_is_caught_by_the_checksum h rd tfs dest"
proof -
  let ?data = "bytes_of_string ''abcdefghij''"
  let ?bad = "bytes_of_string ''abcd'' @ [not (byte_of_char (CHR ''e''))] @ bytes_of_string ''fghij''"
  let ?sum = "be_bytes 4 (unat (checksum h ?data))"
  have "list_all2 (sendable (source_files [(''src/f'', ?data)])) [outbound ''f'' ''src/f''] [?data]"
    by (auto simp: sendable_def outbound_def source_files_def)
  note send = send_files_spec [OF assms(1,2) this, of "[]"]
  have stream: "snapshot_stream h [(''f'', ?data)]
      = be_bytes 2 1 @ bytes_of_string ''f'' @ be_bytes 8 10 @ ?data @ ?sum @ be_bytes 2 0"
    by (simp add: snapshot_stream_def frame_def frame_body_def eval_nat_numeral del: be_bytes.simps)
  have flip: "(let b = be_bytes 2 1 @ bytes_of_string ''f'' @ be_bytes 8 10 @ ?data @ x in b [11 + 4 := not (b ! (11 + 4))])
      = be_bytes 2 1 @ bytes_of_string ''f'' @ be_bytes 8 10 @ ?bad @ x" for x
    by (simp add: nth_append list_update_append length_be_bytes del: be_bytes.simps)
  have good: "good_file (''f'', ?bad)" by (simp add: test_names)
  have lens: "length ''f'' = 1" "length ?bad = 10" by simp_all
  have run: "recv_file h dest 1 (rx (bytes_of_string ''f'' @ be_bytes 8 10 @ ?bad @ ?sum @ r) e tfs)
      = (Inl (Tr_Checksum ''f'' (checksum h ?data) (checksum h ?bad)), rx r e (wrote tfs (path_join dest ''f'') ?bad))" for r e
    using recv_file_run [OF assms(1) good assms(3), of dest "checksum h ?data" r e] not_sym [OF assms(4)]
    by (simp only: lens if_False simp_thms)
  have len: "read_be 2 (rx (be_bytes 2 1 @ r) e fs) = (Inr 1, rx r e fs)" for r e fs by (rule read_name_len) simp
  have "recv_files h dest (rx (be_bytes 2 1 @ bytes_of_string ''f'' @ be_bytes 8 10 @ ?bad @ ?sum @ be_bytes 2 0) ''eof'' tfs)
      = (Inl (Tr_Checksum ''f'' (checksum h ?data) (checksum h ?bad)), rx (be_bytes 2 0) ''eof'' (wrote tfs (path_join dest ''f'') ?bad))"
    unfolding recv_files_def by (subst recv_loop.simps) (simp only: len run prod.case sum.case one_neq_zero if_False)
  with send stream flip [of "?sum @ be_bytes 2 0"] show ?thesis
    by (simp only: test_corruption_in_transit_is_caught_by_the_checksum_def expect_def expect_err_def outbound_def
        outbound_file.simps list.map zip_Cons_Cons zip_Nil append_Nil Let_def prod.case sum.case transfer_error.case)
qed

lemma escaping_name_test_passes: "test_a_name_that_escapes_the_dir_is_rejected h tfs dest"
proof -
  let ?name = "''../evil''"
  have "unsafe_name ?name" "utf8_str ?name"
    by (simp_all add: unsafe_name_def utf8_str_def byte_of_char_def utf8_width_def)
  note unsafe = this
  have "length ?name = 7" by simp
  then have run: "recv_file h dest 7 (rx (bytes_of_string ?name @ r) e tfs)
      = (Inl (Tr_Protocol (''unsafe file name: '' @ ?name)), rx r e tfs)" for r e
    using recv_file_refused [OF _ unsafe, of h dest r e tfs] by (simp only:) simp
  have len: "read_be 2 (rx (be_bytes 2 7 @ r) e fs) = (Inr 7, rx r e fs)" for r e fs by (rule read_name_len) simp
  have "recv_files h dest (rx (be_bytes 2 7 @ bytes_of_string ?name @ r) ''eof'' tfs)
      = (Inl (Tr_Protocol (''unsafe file name: '' @ ?name)), rx r ''eof'' tfs)" for r
    unfolding recv_files_def
    by (subst recv_loop.simps) (simp only: len run prod.case sum.case zero_neq_numeral numeral_eq_iff if_False simp_thms, simp)
  moreover have "length (bytes_of_string ?name) = 7" by simp
  ultimately show ?thesis
    by (simp only: test_a_name_that_escapes_the_dir_is_rejected_def expect_err_def Let_def prod.case sum.case transfer_error.case)
qed

lemma empty_transfer_test_passes:
  assumes "streaming h" "reads_ok rd" "fs_ok tfs"
  shows "test_empty_transfer_writes_nothing h rd tfs dest"
  using send_files_spec [OF assms(1,2), of "source_files []" "[]" "[]" "[]"] recv_files_complete [OF assms(1,3), of "[]" dest "[]" "''eof''"]
  by (simp add: test_empty_transfer_writes_nothing_def expect_def)

section \<open>Regions, directories and memory pressure\<close>

definition test_region_maps_fault_address_to_file_offset :: bool where
  "test_region_maps_fault_address_to_file_offset \<longleftrightarrow>
     (let region = \<lparr> gr_base = 0x1000, gr_size = 0x4000, gr_offset = 0x8000, gr_page_size = 4096 \<rparr> in
      region_contains region 0x1000 \<and> region_contains region 0x4fff \<and> \<not> region_contains region 0xfff
    \<and> \<not> region_contains region 0x5000 \<and> file_offset region 0x3000 = 0x8000 + 0x2000)"

lemma region_test_passes: "test_region_maps_fault_address_to_file_offset"
  by (simp add: test_region_maps_fault_address_to_file_offset_def region_contains_def file_offset_def)

definition NIL_UUID :: string where
  "NIL_UUID = ''00000000-0000-0000-0000-000000000000''"

definition test_paths_are_namespaced_under_vm_id :: "(vm_id \<Rightarrow> string) \<Rightarrow> bool" where
  "test_paths_are_namespaced_under_vm_id show_vm \<longleftrightarrow>
     (let dir = vm_dir_new show_vm ''/srv/state'' (VmId 0) in
      vd_root dir = ''/srv/state/vms/'' @ NIL_UUID
    \<and> vd_api_socket dir = path_join (vd_root dir) ''api.sock''
    \<and> starts_with (vd_root dir @ ''/'') (vd_api_socket dir) \<and> starts_with (vd_root dir @ ''/'') (vd_log_fifo dir))"

definition test_distinct_vms_get_distinct_dirs :: "(vm_id \<Rightarrow> string) \<Rightarrow> vm_id \<Rightarrow> vm_id \<Rightarrow> bool" where
  "test_distinct_vms_get_distinct_dirs show_vm a b \<longleftrightarrow>
     vd_root (vm_dir_new show_vm ''/srv/state'' a) \<noteq> vd_root (vm_dir_new show_vm ''/srv/state'' b)"

lemma statedir_tests_pass:
  "show_vm (VmId 0) = NIL_UUID \<Longrightarrow> test_paths_are_namespaced_under_vm_id show_vm"
  "inj show_vm \<Longrightarrow> a \<noteq> b \<Longrightarrow> test_distinct_vms_get_distinct_dirs show_vm a b"
  by (simp_all add: test_paths_are_namespaced_under_vm_id_def test_distinct_vms_get_distinct_dirs_def vm_dir_new_def
      vd_api_socket_def vd_log_fifo_def join_path_def path_join_def NIL_UUID_def starts_with_def inj_eq)

text \<open>\<open>rnd\<close> rounds to a double; the test allows an error of \<open>1e-9\<close>.\<close>

definition lines_of :: "string list \<Rightarrow> string" where
  "lines_of ls = concat (map (\<lambda>l. l @ [CHR 0x0A]) ls)"

definition MEMINFO :: string where
  "MEMINFO = lines_of [''MemTotal:        1000000 kB'', ''MemFree:          100000 kB'', ''MemAvailable:     250000 kB'',
     ''Buffers:           20000 kB'']"

definition test_parses_in_use_fraction_from_available :: "(real \<Rightarrow> real) \<Rightarrow> bool" where
  "test_parses_in_use_fraction_from_available rnd \<longleftrightarrow>
     (case parse_pressure rnd MEMINFO of None \<Rightarrow> False | Some p \<Rightarrow> \<bar>p - 75 / 100\<bar> < 1 / 10 ^ 9)"

definition test_missing_fields_yield_none :: "(real \<Rightarrow> real) \<Rightarrow> bool" where
  "test_missing_fields_yield_none rnd \<longleftrightarrow>
     parse_pressure rnd (lines_of [''MemTotal: 1000 kB'']) = None
   \<and> parse_pressure rnd (lines_of [''MemAvailable: 500 kB'']) = None \<and> parse_pressure rnd [] = None"

definition test_zero_total_is_none :: "(real \<Rightarrow> real) \<Rightarrow> bool" where
  "test_zero_total_is_none rnd \<longleftrightarrow> parse_pressure rnd (lines_of [''MemTotal: 0 kB'', ''MemAvailable: 0 kB'']) = None"

definition test_full_and_empty_extremes :: "(real \<Rightarrow> real) \<Rightarrow> bool" where
  "test_full_and_empty_extremes rnd \<longleftrightarrow>
     parse_pressure rnd (lines_of [''MemTotal: 100 kB'', ''MemAvailable: 0 kB'']) = Some 1
   \<and> parse_pressure rnd (lines_of [''MemTotal: 100 kB'', ''MemAvailable: 100 kB'']) = Some 0"

abbreviation meminfo_fields :: "string \<Rightarrow> nat option \<times> nat option" where
  "meminfo_fields s \<equiv> fold meminfo_line (str_lines s) (None, None)"

lemma test_words:
  "split_whitespace ''        1000000 kB'' = [''1000000'', ''kB'']"
  "split_whitespace ''     250000 kB'' = [''250000'', ''kB'']"
  "split_whitespace '' 1000 kB'' = [''1000'', ''kB'']"
  "split_whitespace '' 500 kB'' = [''500'', ''kB'']"
  "split_whitespace '' 0 kB'' = [''0'', ''kB'']"
  "split_whitespace '' 100 kB'' = [''100'', ''kB'']"
  by code_simp+

lemma test_kb:
  "parse_kb ''        1000000 kB'' = Some 1000000"
  "parse_kb ''     250000 kB'' = Some 250000"
  "parse_kb '' 1000 kB'' = Some 1000"
  "parse_kb '' 500 kB'' = Some 500"
  "parse_kb '' 0 kB'' = Some 0"
  "parse_kb '' 100 kB'' = Some 100"
  by (simp_all add: parse_kb_def test_words parse_uint_def is_dec_digit_def dec_fold_def dec_value_def)

lemma test_lines:
  "str_lines MEMINFO = [''MemTotal:        1000000 kB'', ''MemFree:          100000 kB'', ''MemAvailable:     250000 kB'',
     ''Buffers:           20000 kB'']"
  "str_lines (lines_of [''MemTotal: 1000 kB'']) = [''MemTotal: 1000 kB'']"
  "str_lines (lines_of [''MemAvailable: 500 kB'']) = [''MemAvailable: 500 kB'']"
  "str_lines [] = []"
  "str_lines (lines_of [''MemTotal: 0 kB'', ''MemAvailable: 0 kB'']) = [''MemTotal: 0 kB'', ''MemAvailable: 0 kB'']"
  "str_lines (lines_of [''MemTotal: 100 kB'', ''MemAvailable: 0 kB'']) = [''MemTotal: 100 kB'', ''MemAvailable: 0 kB'']"
  "str_lines (lines_of [''MemTotal: 100 kB'', ''MemAvailable: 100 kB'']) = [''MemTotal: 100 kB'', ''MemAvailable: 100 kB'']"
  by code_simp+

lemma test_meminfo:
  "meminfo_fields MEMINFO = (Some 1000000, Some 250000)"
  "meminfo_fields (lines_of [''MemTotal: 1000 kB'']) = (Some 1000, None)"
  "meminfo_fields (lines_of [''MemAvailable: 500 kB'']) = (None, Some 500)"
  "meminfo_fields [] = (None, None)"
  "meminfo_fields (lines_of [''MemTotal: 0 kB'', ''MemAvailable: 0 kB'']) = (Some 0, Some 0)"
  "meminfo_fields (lines_of [''MemTotal: 100 kB'', ''MemAvailable: 0 kB'']) = (Some 100, Some 0)"
  "meminfo_fields (lines_of [''MemTotal: 100 kB'', ''MemAvailable: 100 kB'']) = (Some 100, Some 100)"
  by (simp_all add: test_lines meminfo_line_def strip_prefix_def starts_with_def test_kb)

text \<open>Of the rounding: it is exact on these integers and on \<open>0.75\<close>.\<close>

lemma sysmem_tests_pass:
  assumes "rnd 0 = 0" "rnd 1 = 1" "rnd 100 = 100" "rnd 750000 = 750000" "rnd 1000000 = 1000000" "rnd (3 / 4) = 3 / 4"
  shows "test_parses_in_use_fraction_from_available rnd" "test_missing_fields_yield_none rnd" "test_zero_total_is_none rnd"
    "test_full_and_empty_extremes rnd"
  by (simp_all add: test_parses_in_use_fraction_from_available_def test_missing_fields_yield_none_def
      test_zero_total_is_none_def test_full_and_empty_extremes_def parse_pressure_def test_meminfo assms)

end
