(* ===== verification/Harness_Tests.thy ===== *)
theory Harness_Tests
  imports Test_Support Load_Report Arrival_Schedule Ramstate Snapshot_Transfer
begin

text \<open>
  The unit tests of \<open>crates/harness\<close> (\<open>report.rs\<close>, \<open>recorder.rs\<close>, \<open>schedule.rs\<close>, \<open>loadgen.rs\<close>) and of
  \<open>examples/ramstate\<close>. What the tests take from a library is a parameter of the test here too: the
  histogram, the rounding and the logarithm of the platform, and the printing of a number of milliseconds.
\<close>

section \<open>The workload\<close>

definition test_parses_request_line :: bool where
  "test_parses_request_line \<longleftrightarrow>
     parse_request_line ''GET /state HTTP/1.1'' = Some (''GET'', ''/state'') \<and> parse_request_line '''' = None"

definition test_inc_advances_counter_and_state_reflects_it :: bool where
  "test_inc_advances_counter_and_state_reflects_it \<longleftrightarrow>
     (let s = ram_new 42;
          ((code, inc_body), s) = ram_handle ''POST'' ''/inc'' s;
          ((code', body), s) = ram_handle ''GET'' ''/state'' s
      in code = 200 \<and> contains_sub ''\"counter\":1'' inc_body \<and> contains_sub ''\"boot_id\":42'' inc_body
         \<and> \<not> contains_sub ''recent'' inc_body
         \<and> code' = 200 \<and> contains_sub ''\"counter\":1'' body \<and> contains_sub ''\"recent\":[\"inc -> 1\"]'' body)"

definition test_busy_bumps_counter_like_inc :: bool where
  "test_busy_bumps_counter_like_inc \<longleftrightarrow>
     (let s = ram_new 7; ((code, body), s) = ram_handle ''POST'' ''/busy?secs=3'' s
      in code = 200 \<and> contains_sub ''\"counter\":1'' body \<and> contains_sub ''\"boot_id\":7'' body)"

definition test_busy_secs_parses_and_clamps :: bool where
  "test_busy_secs_parses_and_clamps \<longleftrightarrow>
     busy_secs ''/busy?secs=5'' = Some 5
   \<and> busy_secs ''/busy?secs=999'' = Some 30
   \<and> busy_secs ''/busy?secs=0'' = Some 1
   \<and> busy_secs ''/busy?x=1&secs=4'' = Some 4
   \<and> busy_secs ''/busy'' = None
   \<and> busy_secs ''/busy?secs=nope'' = None"

definition test_unknown_route_is_404 :: bool where
  "test_unknown_route_is_404 \<longleftrightarrow> (let s = ram_new 1 in fst (fst (ram_handle ''GET'' ''/nope'' s)) = 404)"

definition test_query_string_is_ignored_for_routing :: bool where
  "test_query_string_is_ignored_for_routing \<longleftrightarrow>
     (let s = ram_new 1 in fst (fst (ram_handle ''GET'' ''/state?x=1'' s)) = 200)"

definition test_log_stays_bounded :: bool where
  "test_log_stays_bounded \<longleftrightarrow>
     (let s = ((\<lambda>s. snd (ram_handle ''POST'' ''/inc'' s)) ^^ 30) (ram_new 1) in length (rs_log s) \<le> 20)"

lemmas parsing_defs = busy_secs_def strip_prefix_def starts_with_def
  parse_uint_def is_dec_digit_def dec_fold_def dec_value_def Let_def

lemma ramstate_parsing: test_parses_request_line test_busy_secs_parses_and_clamps
  unfolding test_parses_request_line_def test_busy_secs_parses_and_clamps_def
   apply code_simp
  apply (simp add: parsing_defs)
  done

lemmas ram_defs = ram_new_def ram_handle_def path_only_def bump_def push_log_def compact_json_def state_json_def
  starts_with_def Let_def

lemma shown: "show_nat 7 = ''7''" "show_nat (Suc 0) = ''1''" "show_nat 2 = ''2''" "show_nat 10 = ''10''" "show_nat 42 = ''42''"
  by (simp_all add: show_nat.simps dec_digit_def char_of_def bit_0)

lemma ramstate_routes: test_unknown_route_is_404 test_query_string_is_ignored_for_routing
  by (simp_all add: test_unknown_route_is_404_def test_query_string_is_ignored_for_routing_def ram_defs)

lemma ramstate_counts: test_inc_advances_counter_and_state_reflects_it test_busy_bumps_counter_like_inc
  by (simp_all add: test_inc_advances_counter_and_state_reflects_it_def test_busy_bumps_counter_like_inc_def ram_defs shown)

lemma log_bounded: "length (rs_log s) \<le> 20 \<Longrightarrow> length (rs_log (snd (ram_handle m p s))) \<le> 20"
  by (auto simp: ram_handle_def bump_def push_log_def Let_def)

lemma ramstate_log: test_log_stays_bounded
proof -
  have "length (rs_log (((\<lambda>s. snd (ram_handle ''POST'' ''/inc'' s)) ^^ n) (ram_new 1))) \<le> 20" for n
    by (induction n) (simp_all add: ram_new_def log_bounded)
  then show ?thesis by (simp add: test_log_stays_bounded_def Let_def)
qed

section \<open>Recording and reporting\<close>

abbreviation millis :: "nat \<Rightarrow> duration" where
  "millis n \<equiv> n * 1000000"

definition test_latency_is_measured_from_intended_not_actual_send :: "'g histogram \<Rightarrow> bool" where
  "test_latency_is_measured_from_intended_not_actual_send hg =
     expect (record_sample hg 0 (millis 200)) (\<lambda>_.
     expect (record_sample hg (millis 100) (millis 200)) (\<lambda>_.
     asserting (\<lambda>r. let s = rec_summary hg r in ls_count s = 2 \<and> millis 199 \<le> ls_max s) passed)) (rec_new hg)"

definition test_completion_before_intended_is_rejected :: "'g histogram \<Rightarrow> bool" where
  "test_completion_before_intended_is_rejected hg =
     expect_err (record_sample hg (millis 100) (millis 50)) (\<lambda>err.
     asserting (\<lambda>r. (case err of CompletedBeforeIntended _ _ \<Rightarrow> True | _ \<Rightarrow> False) \<and> rec_count hg r = 0) passed)
       (rec_new hg)"

text \<open>
  The histogram as its documentation promises it to these tests: it starts empty, it counts what it
  records, and its greatest value is within three significant figures of the greatest recorded.
\<close>

definition small_histogram :: "'g histogram \<Rightarrow> bool" where
  "small_histogram hg \<longleftrightarrow> hg_len hg (hg_new hg) = 0 \<and>
     (\<exists>g1 g2. hg_record hg 200000 (hg_new hg) = Some g1 \<and> hg_record hg 100000 g1 = Some g2
        \<and> hg_len hg g2 = 2 \<and> 199800 \<le> hg_max hg g2)"

lemma recorder_tests:
  assumes "small_histogram hg"
  shows "test_latency_is_measured_from_intended_not_actual_send hg" "test_completion_before_intended_is_rejected hg"
proof -
  from assms obtain g1 g2 where h: "hg_len hg (hg_new hg) = 0" "hg_record hg 200000 (hg_new hg) = Some g1"
    "hg_record hg 100000 g1 = Some g2" "hg_len hg g2 = 2" "199800 \<le> hg_max hg g2"
    by (auto simp: small_histogram_def)
  from h(5) have "199800 \<le> unat (hg_max hg g2)" by (simp add: word_le_nat_alt)
  with h show "test_latency_is_measured_from_intended_not_actual_send hg"
    by (simp add: test_latency_is_measured_from_intended_not_actual_send_def test_steps record_sample_def
        record_latency_def rec_new_def rec_summary_def dur_us_def from_micros_def Let_def)
  from h show "test_completion_before_intended_is_rejected hg"
    by (simp add: test_completion_before_intended_is_rejected_def test_steps record_sample_def errE_def
        rec_new_def rec_count_def)
qed

definition sample_report :: run_report where
  "sample_report =
     \<lparr> rr_methodology = \<lparr> me_machine = ''test-host (8 vCPU, 16 GB)'', me_versions_hash = ''abc123'',
         me_runs = 10, me_warmup_runs = 2 \<rparr>,
       rr_migrations =
         [\<lparr> mr_vm = ''vm-1'', mr_from = ''host-a'', mr_to = ''host-b'', mr_freeze_window_us = 8000,
            mr_e2e_us = 1200000, mr_bytes_moved = 536870912, mr_faults_served = 4096 \<rparr>,
          \<lparr> mr_vm = ''vm-2'', mr_from = ''host-a'', mr_to = ''host-b'', mr_freeze_window_us = 12000,
            mr_e2e_us = 1500000, mr_bytes_moved = 1073741824, mr_faults_served = 8192 \<rparr>],
       rr_latency_clean = \<lparr> sl_label = ''clean'', sl_count = 1000, sl_p50_us = 40000, sl_p99_us = 90000 \<rparr>,
       rr_latency_overlapping =
         \<lparr> sl_label = ''migration-overlapping'', sl_count = 50, sl_p50_us = 42000, sl_p99_us = 95000 \<rparr>,
       rr_idle_gap_buckets = [\<lparr> ib_upper_ms = 100, ib_count = 12 \<rparr>, \<lparr> ib_upper_ms = 1000, ib_count = 340 \<rparr>] \<rparr>"

definition test_markdown_renders_all_sections_with_numbers :: "(int \<Rightarrow> string) \<Rightarrow> bool" where
  "test_markdown_renders_all_sections_with_numbers ms \<longleftrightarrow>
     (let md = render_markdown ms sample_report
      in contains_sub ''## Methodology'' md
       \<and> contains_sub ''## Migrations'' md
       \<and> contains_sub ''## Turn latency: clean vs. migration-overlapping'' md
       \<and> contains_sub ''## Idle-gap distribution'' md
       \<and> contains_sub ''`abc123`'' md
       \<and> contains_sub ''10 measured (2 warm-up discarded)'' md
       \<and> contains_sub ''8.000'' md
       \<and> contains_sub ''12.000'' md
       \<and> contains_sub ''median 8.000 ms'' md
       \<and> contains_sub ''5.000 ms'' md)"

definition test_empty_report_renders_placeholders :: "(int \<Rightarrow> string) \<Rightarrow> bool" where
  "test_empty_report_renders_placeholders ms \<longleftrightarrow>
     (let r = sample_report \<lparr> rr_migrations := [] \<rparr>; r = r \<lparr> rr_idle_gap_buckets := [] \<rparr>;
          md = render_markdown ms r
      in contains_sub ''_No migrations recorded._'' md \<and> contains_sub ''_No idle gaps recorded._'' md)"

definition test_min_median_max_handles_even_and_empty :: bool where
  "test_min_median_max_handles_even_and_empty \<longleftrightarrow>
     min_median_max [] = (0, 0, 0)
   \<and> min_median_max [5] = (5, 5, 5)
   \<and> min_median_max [10, 20, 30, 40] = (10, 20, 40)"

definition test_latency_slice_from_stats :: bool where
  "test_latency_slice_from_stats \<longleftrightarrow>
     (let stats = \<lparr> ls_count = 5, ls_p50 = millis 40, ls_p90 = millis 80, ls_p99 = millis 95, ls_p99_9 = millis 99,
                    ls_max = millis 100 \<rparr>;
          slice = from_stats ''clean'' stats
      in sl_count slice = 5 \<and> sl_p50_us slice = 40000 \<and> sl_p99_us slice = 95000)"

lemma summary_tests: test_min_median_max_handles_even_and_empty test_latency_slice_from_stats
  by (simp_all add: test_min_median_max_handles_even_and_empty_def test_latency_slice_from_stats_def
      min_median_max_def from_stats_def dur_us_def Let_def)

text \<open>Numbers of milliseconds as the report prints them: three decimals, exact for these values.\<close>

definition prints_ms :: "(int \<Rightarrow> string) \<Rightarrow> bool" where
  "prints_ms ms \<longleftrightarrow> ms 8000 = ''8.000'' \<and> ms 12000 = ''12.000'' \<and> ms 5000 = ''5.000''
     \<and> ms 1200000 = ''1200.000'' \<and> ms 1500000 = ''1500.000'' \<and> ms 40000 = ''40.000'' \<and> ms 42000 = ''42.000''
     \<and> ms 90000 = ''90.000'' \<and> ms 95000 = ''95.000''"

text \<open>Looking for a text in a report that is put together from parts.\<close>

lemma starts_iff: "starts_with p s \<longleftrightarrow> (\<exists>r. s = p @ r)"
  by (metis append_eq_conv_conj append_take_drop_id starts_with_def)

lemma contains_prefix: "starts_with p s \<Longrightarrow> contains_sub p s"
  by (cases s) (auto simp: starts_iff)

lemma contains_here: "contains_sub p (p @ r)"
  by (rule contains_prefix) (simp add: starts_iff)

lemma contains_later: "contains_sub p r \<Longrightarrow> contains_sub p (l @ r)"
  by (induction l) simp_all

lemma contains_left: "contains_sub p l \<Longrightarrow> contains_sub p (l @ r)"
proof (induction l)
  case (Cons x l)
  then show ?case by (auto simp: starts_iff) (metis append_Cons append_assoc)
qed (use contains_here [of "[]"] in simp)

lemma contains_run: "contains_sub p (a @ b @ c) \<Longrightarrow> contains_sub p (a @ b @ c @ r)"
  using contains_left [of p "a @ b @ c" r] by simp

lemma contains_longer: "contains_sub p (a @ b @ c @ d) \<Longrightarrow> contains_sub p (a @ b @ c @ d @ r)"
  using contains_left [of p "a @ b @ c @ d" r] by simp

lemma report_parts:
  "contains_sub p (render_methodology (rr_methodology r)) \<Longrightarrow> contains_sub p (render_markdown ms r)"
  "contains_sub p (render_migrations ms (rr_migrations r)) \<Longrightarrow> contains_sub p (render_markdown ms r)"
  "contains_sub p (render_latency ms (rr_latency_clean r) (rr_latency_overlapping r)) \<Longrightarrow> contains_sub p (render_markdown ms r)"
  "contains_sub p (render_idle_gaps (rr_idle_gap_buckets r)) \<Longrightarrow> contains_sub p (render_markdown ms r)"
  unfolding render_markdown_def by (meson contains_later contains_left)+

lemma titles:
  "contains_sub ''## Methodology'' (render_methodology m)"
  "contains_sub ''## Migrations'' (render_migrations ms rs)"
  "contains_sub ''## Turn latency: clean vs. migration-overlapping'' (render_latency ms a b)"
  "contains_sub ''## Idle-gap distribution'' (render_idle_gaps gs)"
  unfolding render_methodology_def render_migrations_def render_latency_def render_idle_gaps_def
  by (rule contains_here)+

lemma placeholders:
  "contains_sub ''_No migrations recorded._'' (render_migrations ms [])"
  "contains_sub ''_No idle gaps recorded._'' (render_idle_gaps [])"
  unfolding render_migrations_def render_idle_gaps_def
  by (simp_all only: if_True refl) (intro contains_later contains_here)+

lemma empty_report_test: "test_empty_report_renders_placeholders ms"
  using placeholders
  by (simp add: test_empty_report_renders_placeholders_def Let_def report_parts)

lemma sample_numbers:
  assumes "prints_ms ms"
  shows "contains_sub ''`abc123`'' (render_methodology (rr_methodology sample_report))"
    "contains_sub ''10 measured (2 warm-up discarded)'' (render_methodology (rr_methodology sample_report))"
    "contains_sub ''8.000'' (render_migrations ms (rr_migrations sample_report))"
    "contains_sub ''12.000'' (render_migrations ms (rr_migrations sample_report))"
    "contains_sub ''median 8.000 ms'' (render_migrations ms (rr_migrations sample_report))"
    "contains_sub ''5.000 ms'' (render_latency ms (rr_latency_clean sample_report) (rr_latency_overlapping sample_report))"
proof -
  let ?M = "rr_methodology sample_report" and ?R = "rr_migrations sample_report"
  show "contains_sub ''`abc123`'' (render_methodology ?M)" "contains_sub ''10 measured (2 warm-up discarded)'' (render_methodology ?M)"
    unfolding render_methodology_def sample_report_def
    by ((rule contains_longer, simp add: starts_with_def shown show_u_def; fail) | rule contains_later)+
  have mm: "min_median_max (map mr_freeze_window_us ?R) = (8000, 8000, 12000)" and ne: "(?R = []) = False"
    by (simp_all add: sample_report_def min_median_max_def Let_def)
  show "contains_sub ''8.000'' (render_migrations ms ?R)" "contains_sub ''12.000'' (render_migrations ms ?R)"
    "contains_sub ''median 8.000 ms'' (render_migrations ms ?R)"
    unfolding render_migrations_def mm ne if_False prod.case
    by ((rule contains_run, use assms in \<open>simp add: starts_with_def prints_ms_def; fail\<close>) | rule contains_later)+
  have d: "p99_delta (rr_latency_clean sample_report) (rr_latency_overlapping sample_report) = 5000"
    by (simp add: p99_delta_def sat_i64_def sample_report_def)
  show "contains_sub ''5.000 ms'' (render_latency ms (rr_latency_clean sample_report) (rr_latency_overlapping sample_report))"
    unfolding render_latency_def d
    by ((rule contains_run, use assms in \<open>simp add: starts_with_def prints_ms_def; fail\<close>) | rule contains_later)+
qed

lemma report_test: "prints_ms ms \<Longrightarrow> test_markdown_renders_all_sections_with_numbers ms"
  unfolding test_markdown_renders_all_sections_with_numbers_def Let_def
  by (intro conjI report_parts(1) [OF titles(1)] report_parts(2) [OF titles(2)] report_parts(3) [OF titles(3)]
      report_parts(4) [OF titles(4)] report_parts(1) [OF sample_numbers(1)] report_parts(1) [OF sample_numbers(2)]
      report_parts(2) [OF sample_numbers(3)] report_parts(2) [OF sample_numbers(4)]
      report_parts(2) [OF sample_numbers(5)] report_parts(3) [OF sample_numbers(6)])

text \<open>The exact printing of a whole number of microseconds is such a printing.\<close>

definition exact_ms :: "int \<Rightarrow> string" where
  "exact_ms n = (let m = nat n; d = m mod 1000 in
     show_nat (m div 1000) @ ''.'' @ [dec_digit (d div 100), dec_digit (d div 10 mod 10), dec_digit (d mod 10)])"

lemma exact_ms_prints: "prints_ms exact_ms"
  by (simp add: prints_ms_def exact_ms_def show_nat.simps dec_digit_def char_of_def bit_0)

section \<open>The schedule and the load run\<close>

definition test_non_positive_rate_is_empty :: "(real \<Rightarrow> real) \<Rightarrow> (real \<Rightarrow> real) \<Rightarrow> bool" where
  "test_non_positive_rate_is_empty rnd f_ln \<longleftrightarrow>
     list_all (\<lambda>rate. schedule_generate rnd f_ln rate (millis 1000) Fixed = Some (Inr [])) [Fin 0, Fin (- 3), NaN]"

definition test_fixed_rate_spaces_requests_evenly_within_the_horizon :: "(real \<Rightarrow> real) \<Rightarrow> (real \<Rightarrow> real) \<Rightarrow> bool" where
  "test_fixed_rate_spaces_requests_evenly_within_the_horizon rnd f_ln \<longleftrightarrow>
     (case schedule_generate rnd f_ln (Fin 5) (millis 1000) Fixed of
        Some (Inr s) \<Rightarrow> length s = 5 \<and> s ! 0 = 0 \<and> s ! 1 = millis 200 \<and> list_all (\<lambda>t. t < millis 1000) s
      | _ \<Rightarrow> False)"

definition test_empty_schedule_records_nothing :: "(real \<Rightarrow> real) \<Rightarrow> (real \<Rightarrow> real) \<Rightarrow> 'g histogram \<Rightarrow> bool" where
  "test_empty_schedule_records_nothing rnd f_ln hg \<longleftrightarrow>
     (case schedule_generate rnd f_ln (Fin 0) (millis 1000) Fixed of
        Some (Inr schedule) \<Rightarrow> ls_count (run_load hg schedule []) = 0
      | _ \<Rightarrow> False)"

lemma empty_schedule_tests:
  "test_non_positive_rate_is_empty rnd f_ln"
  "small_histogram hg \<Longrightarrow> test_empty_schedule_records_nothing rnd f_ln hg"
  by (simp_all add: test_non_positive_rate_is_empty_def test_empty_schedule_records_nothing_def schedule_generate_def
      run_load_def rec_summary_def small_histogram_def Let_def)

text \<open>With exact arithmetic, the five times are the five fifths of a second.\<close>

lemma fixed_rate_test: "test_fixed_rate_spaces_requests_evenly_within_the_horizon (\<lambda>x. x) f_ln"
proof -
  have "fixed_loop (\<lambda>x. x) 5 1 (of_nat 0) = Some (map (\<lambda>j. from_secs_f64 (fixed_time (\<lambda>x. x) 5 j)) [0 ..< 0 + 5])"
    by (rule fixed_loop_times) (auto simp: fixed_time_def)
  then have "fixed_loop (\<lambda>x. x) 5 1 0 = Some [0, 200000000, 400000000, 600000000, 800000000]"
    by (simp add: fixed_time_def from_secs_f64_def round_even_def upt_rec Let_def)
  then show ?thesis
    by (simp add: test_fixed_rate_spaces_requests_evenly_within_the_horizon_def schedule_generate_def as_secs_f64_def
        overflows_def)
qed

end
