(* ===== verification/Spec2Isabelle.thy ===== *)
theory Spec2Isabelle
  imports Race_Rule Migration_Driver Rebalance_Control Drain_Safety Transfer_Facts Uffd_Facts
    Guest_Clock Guest_Daemon Vm_Lifecycle Process_Accounts Bench_Loops
    Load_Driver Load_Report Arrival_Schedule Move_Identity
    Moved_Memory Typed_Calls Ramstate_Facts Cli_Config Bench_Processes Control_Plane Move_End Daemon_Main
    Guest_Tests Proto_Tests Rebalancer_Tests Hostd_Tests Fc_Tests Snapshot_Tests Harness_Tests
begin

text \<open>
  A verification library for sleepwalk, a system that moves running Firecracker microVMs between hosts.
  A \<^emph>\<open>rebalancer\<close> reads every host's \<open>/status\<close>, chooses the best move and asks two host daemons to make it:
  the target to receive, the source to send. A \<^emph>\<open>host daemon\<close> (\<open>hostd\<close>) owns the VMs of its host. It
  sends one by asking the guest whether it is between turns (the \<^emph>\<open>drain\<close>), pausing and snapshotting it,
  streaming the snapshot and tearing the VM down; it receives one by restoring it lazily, serving the guest's
  page faults from the file received. Inside the VM the \<^emph>\<open>guest daemon\<close> (\<open>guestd\<close>) knows when a turn is in
  flight, holds back new ones while the drain gate is closed, and replays them afterwards. \<open>proto\<close> holds what
  they share, \<open>harness\<close> drives load and checks the race between turns and drains, and
  \<open>examples/ramstate\<close> is a workload whose memory shows whether it was moved or restarted.

  \<^bold>\<open>Foundations.\<close>
  \<^item> \<open>Prelude\<close>: machine words \<open>u8\<close> to \<open>u64\<close>, saturating and checked arithmetic, a \<open>Duration\<close> as its
    nanoseconds, and effects: \<open>('s, 'e, 'a) eff\<close> is a step on a state that ends in an error or a value, with
    \<open>bindE\<close> for the \<open>?\<close> operator. Every \<open>Result\<close> of the source is such a sum; a panic is an error too where
    one can happen.
  \<^item> \<open>Byte_Strings\<close>: text as UTF-8 bytes, and the parsing and printing functions of \<open>std\<close> that the code uses.
    \<open>Btree_Map\<close>: \<open>BTreeMap\<close> as a sorted list, against the contract \<open>ordered_map\<close>. \<open>Comparators\<close>:
    \<open>Ordering\<close>, \<open>max_by\<close> and \<open>min_by\<close>, and \<open>f64\<close> by value with \<open>total_cmp\<close>; the contract \<open>total_cmp\<close>
    has an instance for each comparator of \<open>placement.rs\<close>.

  \<^bold>\<open>Shared contract\<close> (\<open>crates/proto\<close>).
  \<^item> \<open>Proto_Ids\<close> (\<open>ids.rs\<close>), \<open>Proto_Messages\<close> (\<open>vsock.rs\<close>, \<open>wire.rs\<close>), \<open>Compat_Class\<close> (\<open>compat.rs\<close>: equal to
    its specification over unbounded integers), \<open>Proto_Fsm\<close> (\<open>fsm.rs\<close>: a phase as a field, a method that
    does not exist at a phase as \<open>None\<close>) and \<open>Typed_Calls\<close> (exactly which chains of calls type check).

  \<^bold>\<open>The guest\<close> (\<open>crates/guestd\<close>).
  \<^item> \<open>Guest_Channel\<close> (\<open>channel.rs\<close>, \<open>pseudo_channel.rs\<close>, \<open>framing.rs\<close>): the scripted and the framed channel
    meet one contract, \<open>recording_channel\<close>. \<open>Guest_Supervisor\<close> (\<open>guest.rs\<close>): the record \<open>guest\<close> and one
    definition per method. \<open>Guest_Facts\<close>: no turn is dropped, acks are truthful, the gate holds, ids
    are consecutive, proved over the contract by induction on the calls made.
  \<^item> \<open>Guest_Clock\<close> (\<open>clock.rs\<close>), \<open>Guest_Wrap\<close> (\<open>wrap.rs\<close>), \<open>Guest_Daemon\<close> (\<open>bin/guestd.rs\<close>, \<open>vsock.rs\<close>): what
    the daemon says on the wire in its two modes.
  \<^item> \<open>Chaos_Harness\<close> and \<open>Race_Rule\<close> (\<open>harness/src/chaos.rs\<close>, SplitMix64 of \<open>schedule.rs\<close>): the race rule that
    the tests sample, for all seeds and for all schedules.

  \<^bold>\<open>The host\<close> (\<open>crates/hostd\<close>).
  \<^item> \<open>Quiescence\<close> (\<open>quiesce.rs\<close>, \<open>drain.rs\<close>) with the contract \<open>evidence_layer\<close> for its three layers, and
    \<open>Drain_Safety\<close>, which puts it together with the supervisor. \<open>Guest_Link\<close> (\<open>guestlink.rs\<close>, the drain of
    \<open>migrate.rs\<close>): the host's verdict is what the guest said.
  \<^item> \<open>Snapshot_Transfer\<close> and \<open>Transfer_Facts\<close> (\<open>transfer.rs\<close>): the frames of a file list are an abstract
    grammar; what is sent is that, what is accepted is exactly that, and nothing is written elsewhere.
  \<^item> \<open>Uffd_Server\<close> and \<open>Uffd_Facts\<close> (\<open>uffd.rs\<close>): lazy restore refines eager restore, over the contract
    \<open>page_source\<close>. \<open>Moved_Memory\<close> composes transfer, handshake and serving: a moved guest reads the memory
    the source snapshotted.
  \<^item> \<open>Fc_Api\<close> (\<open>firecracker.rs\<close>, \<open>pseudo_firecracker.rs\<close>), \<open>Vm_Lifecycle\<close> (\<open>vm.rs\<close>), \<open>Vm_Net\<close> (\<open>net.rs\<close>),
    \<open>Telemetry\<close> (\<open>telemetry.rs\<close>), \<open>Host_Probe\<close> (\<open>sysmem.rs\<close>, \<open>compat.rs\<close>).
  \<^item> \<open>Host_State\<close> (\<open>process.rs\<close>, \<open>statedir.rs\<close>): the record \<open>host_os\<close> has every effect of the operating system
    as a field, over a state \<open>'w\<close> of the outside world; \<open>host\<close> is the daemon's own state. \<open>Vm_Registry\<close>
    (\<open>registry.rs\<close>), \<open>Migrate_Run\<close> (\<open>migrate.rs\<close>), \<open>Host_Daemon\<close> (the handlers and \<open>route\<close> of \<open>bin/hostd.rs\<close>)
    are its operations, \<open>Move_Identity\<close> what of a VM's identity survives them.
  \<^item> \<open>Host_Frames\<close>: what operations leave alone, as \<open>preserves\<close> and as triples with a postcondition for errors
    and one for values. \<open>Daemon_Steps\<close>: the handlers interleaved, an inductive step relation with the
    migrations in flight, and the invariant that a VM is in one place. \<open>Process_Accounts\<close>: no
    Firecracker process is orphaned. \<open>Daemon_Main\<close> (\<open>daemon\<close> and \<open>main\<close> of \<open>bin/hostd.rs\<close>): every run
    of the accept loop is a path of that relation.

  \<^bold>\<open>The control plane\<close> (\<open>crates/rebalancer\<close>, \<open>crates/cli\<close>).
  \<^item> \<open>Migration_Driver\<close> (\<open>driver.rs\<close>, \<open>executor.rs\<close>, \<open>pseudo_executor.rs\<close>), \<open>Pick_Victim\<close> (\<open>placement.rs\<close>),
    \<open>Rebalance_Control\<close> (\<open>control.rs\<close>, the loop of \<open>bin/rebalance.rs\<close>) with the contract \<open>recording_daemon\<close>.
  \<^item> \<open>Control_Http\<close> (the HTTP client of \<open>bin/rebalance.rs\<close>) and \<open>Control_Plane\<close>: a rebalance step through the
    client, the URLs, the routing and the handlers of two daemons of a cluster. \<open>Move_End\<close>: the same step
    with the restore that it leaves running on the target.
  \<^item> \<open>Cli_Config\<close> (\<open>crates/cli\<close>): configuration, and commands that all still refuse.

  \<^bold>\<open>Load and measurement.\<close>
  \<^item> \<open>Arrival_Schedule\<close> (\<open>harness/src/schedule.rs\<close>), \<open>Load_Report\<close> (\<open>recorder.rs\<close>, \<open>loadgen.rs\<close>, \<open>report.rs\<close>),
    \<open>Load_Driver\<close> (\<open>hostd/src/guestload.rs\<close>, as the steps of interleaved tasks).
  \<^item> \<open>Freeze_Bench\<close> (\<open>bin/migrate_bench.rs\<close>), \<open>Guest_Loadtest\<close> (\<open>bin/loadtest.rs\<close>), \<open>Bench_Loops\<close>
    (\<open>bin/migrate.rs\<close>), and \<open>Bench_Processes\<close>: they leave no process behind wherever they give up.
  \<^item> \<open>Ramstate\<close> and \<open>Ramstate_Facts\<close> (\<open>examples/ramstate\<close>).

  \<^bold>\<open>Scripts, bounds and fuel.\<close> A wait with a deadline takes as a number how many attempts fit before it:
  \<open>os_socket_polls\<close> for the API socket, \<open>os_attempts\<close> for connecting to a guest, \<open>os_arrivals\<close> for the
  messages looked at while draining, \<open>be_serial_polls\<close> for the serial console. The theorems hold for every
  such number, so none is assumed to be enough. A loop that only stops when it is told to takes what it
  meets as a list, one entry per iteration (the poll loop and the accept loop of the page-fault server, the
  connections of the guest daemon, the events of the host daemon), and a theorem speaks of every list. The
  two loops that may really run for ever, the benchmark's receiver and the arrival schedules over rounded
  doubles, are partial functions into \<open>option\<close>; that they return, where they do, is proved.

  \<^bold>\<open>The crates' own tests.\<close> \<open>Test_Support\<close> reads a Rust unit test as a predicate of the state it starts from
  (\<open>expect\<close>, \<open>expect_err\<close>, \<open>assert!\<close>); \<open>Guest_Tests\<close>, \<open>Proto_Tests\<close>, \<open>Rebalancer_Tests\<close>, \<open>Hostd_Tests\<close>,
  \<open>Fc_Tests\<close>, \<open>Snapshot_Tests\<close> and \<open>Harness_Tests\<close> state each \<open>#[test] fn x\<close> as \<open>test_x\<close> over the model and
  show that the model passes it: evidence that it behaves as the code does where the code's authors say how.
  A random id of a test is an argument, so the test is passed for every such id. Not stated are the tests of
  what is a parameter here (JSON, TOML, the argument parser, the Prometheus text), those that need a real
  socket, process or \<open>userfaultfd\<close>, those that need the numbers of the histogram or of the Poisson
  schedule, and the corpus of the chaos harness, whose rule is proved for every seed.

  \<^bold>\<open>Parameters.\<close> What is not in the repository is an argument: JSON (\<open>serde_json\<close>), TOML and command-line
  grammars, UUID text, URL parsing and HTTP (\<open>hyper\<close>), the CRC of a transfer, the HDR histogram, the
  Prometheus renderer, Firecracker behind its API socket, the kernel side of \<open>userfaultfd\<close>, \<open>poll\<close>, sockets,
  processes and files. Where a theorem relies on their documented behaviour it says so by a named hypothesis
  (\<open>streaming\<close>, \<open>installs\<close>, \<open>resolves\<close>, \<open>tracks\<close>, \<open>rounding\<close>, \<open>names_host\<close>), and its witness gives one
  concrete instance.

  \<^bold>\<open>Not modelled.\<close> The stubs that answer 501 or exit on systems other than Linux; the construction of the
  tokio runtime beyond its failure; lines printed for people; accessors that return a field; \<open>Debug\<close> and
  the chained form of an \<open>anyhow\<close> error (the outermost context is kept). A \<open>f64\<close> is the real number it
  denotes with its special values; rounding is a parameter where it matters (the schedules and the host
  probe) and left out of the benchmark summaries. \<open>SeqCst\<close>-style memory effects do not arise: each atomic of
  the code is a counter or a flag, and a step of the model is one access to it.
\<close>

end
